(* ===== verification/Rust_Prelude.thy ===== *)
theory Rust_Prelude
  imports Main "HOL-Library.Word" "HOL-Library.Char_ord" "HOL-Library.List_Lexorder"
    "HOL-Library.Sublist"
begin

text \<open>
  The prelude of the development: what the component theories share.

  \<^item> The named collections \<open>rust_defs\<close> (definitions of the standard-library model that proofs
    unfold) and \<open>hoare\<close> (rules for the effect monad).
  \<^item> Fallible stateful code: a Rust function that returns \<open>Result<T, E>\<close> and changes state is a
    function from the state to a pair of a sum (\<open>Inl\<close> for \<open>Err\<close>) and the new state. The state is
    returned on the error branch too: an early return of Rust keeps every effect made so far.
  \<^item> Rust strings: \<open>String\<close> and \<open>&str\<close> are sequences of UTF-8 bytes and every offset of the
    program counts bytes, so a Rust string is a HOL \<open>string\<close> whose characters are its bytes.
  \<^item> \<open>BTreeMap\<close> as a sorted association list, \<open>PathBuf\<close> as its list of components.
\<close>

named_theorems rust_defs
named_theorems hoare

section \<open>Fallible operations on a state\<close>

type_synonym ('s, 'e, 'a) eff = "'s \<Rightarrow> ('e + 'a) \<times> 's"

definition ret :: "'a \<Rightarrow> ('s, 'e, 'a) eff" where
  "ret x = (\<lambda>s. (Inr x, s))"

definition throw :: "'e \<Rightarrow> ('s, 'e, 'a) eff" where
  "throw e = (\<lambda>s. (Inl e, s))"

text \<open>The operator \<open>?\<close>: stop at an error, go on with the value otherwise.\<close>

definition and_then :: "('s, 'e, 'a) eff \<Rightarrow> ('a \<Rightarrow> ('s, 'e, 'b) eff) \<Rightarrow> ('s, 'e, 'b) eff" where
  "and_then m f = (\<lambda>s. case m s of (Inl e, s') \<Rightarrow> (Inl e, s') | (Inr x, s') \<Rightarrow> f x s')"

text \<open>A \<open>match\<close> on the \<open>Result\<close> itself: the error becomes a value.\<close>

definition attempt :: "('s, 'e, 'a) eff \<Rightarrow> ('s, 'f, 'e + 'a) eff" where
  "attempt m = (\<lambda>s. case m s of (r, s') \<Rightarrow> (Inr r, s'))"

definition map_err :: "('e \<Rightarrow> 'f) \<Rightarrow> ('s, 'e, 'a) eff \<Rightarrow> ('s, 'f, 'a) eff" where
  "map_err g m = (\<lambda>s. case m s of (Inl e, s') \<Rightarrow> (Inl (g e), s') | (Inr x, s') \<Rightarrow> (Inr x, s'))"

definition lift_result :: "'e + 'a \<Rightarrow> ('s, 'e, 'a) eff" where
  "lift_result r = (\<lambda>s. (r, s))"

definition gets :: "('s \<Rightarrow> 'a) \<Rightarrow> ('s, 'e, 'a) eff" where
  "gets f = (\<lambda>s. (Inr (f s), s))"

definition modify :: "('s \<Rightarrow> 's) \<Rightarrow> ('s, 'e, unit) eff" where
  "modify f = (\<lambda>s. (Inr (), f s))"

definition when_err :: "bool \<Rightarrow> 'e \<Rightarrow> ('s, 'e, unit) eff" where
  "when_err b e = (if b then throw e else ret ())"

definition result_map_err :: "('e \<Rightarrow> 'f) \<Rightarrow> 'e + 'a \<Rightarrow> 'f + 'a" where
  "result_map_err g r = (case r of Inl e \<Rightarrow> Inl (g e) | Inr x \<Rightarrow> Inr x)"

definition ok_or :: "'e \<Rightarrow> 'a option \<Rightarrow> 'e + 'a" where
  "ok_or e r = (case r of None \<Rightarrow> Inl e | Some x \<Rightarrow> Inr x)"

definition result_bind :: "'e + 'a \<Rightarrow> ('a \<Rightarrow> 'e + 'b) \<Rightarrow> 'e + 'b" where
  "result_bind r f = (case r of Inl e \<Rightarrow> Inl e | Inr x \<Rightarrow> f x)"

text \<open>\<open>iter().map(f).collect::<Result<Vec<_>, _>>()\<close>: the first error wins.\<close>

fun collect_results :: "('a \<Rightarrow> 'e + 'b) \<Rightarrow> 'a list \<Rightarrow> 'e + 'b list" where
  "collect_results f [] = Inr []"
| "collect_results f (x # xs) =
     (case f x of Inl e \<Rightarrow> Inl e
      | Inr y \<Rightarrow> (case collect_results f xs of Inl e \<Rightarrow> Inl e | Inr ys \<Rightarrow> Inr (y # ys)))"

text \<open>
  A \<open>for\<close> loop whose body may return early: the accumulator goes through the elements in order and
  the first error ends the loop.
\<close>

fun for_each :: "('a \<Rightarrow> 'b \<Rightarrow> ('s, 'e, 'b) eff) \<Rightarrow> 'a list \<Rightarrow> 'b \<Rightarrow> ('s, 'e, 'b) eff" where
  "for_each f [] b = ret b"
| "for_each f (x # xs) b = and_then (f x b) (for_each f xs)"

lemmas eff_defs [rust_defs] =
  ret_def throw_def and_then_def attempt_def map_err_def lift_result_def gets_def modify_def
  when_err_def

lemma result_simps [simp]:
  "ok_or e None = Inl e" "ok_or e (Some x) = Inr x"
  "result_bind (Inl e) f = Inl e" "result_bind (Inr x) f = f x"
  "result_map_err g (Inl e) = Inl (g e)" "result_map_err g (Inr x) = Inr x"
  by (simp_all add: ok_or_def result_bind_def result_map_err_def)

lemma ok_or_eq_Inr [simp]: "ok_or e r = Inr x \<longleftrightarrow> r = Some x"
  by (cases r) auto

lemma ok_or_eq_Inl [simp]: "ok_or e r = Inl e' \<longleftrightarrow> r = None \<and> e' = e"
  by (cases r) auto

lemma result_bind_eq_Inr [simp]:
  "result_bind r f = Inr y \<longleftrightarrow> (\<exists>x. r = Inr x \<and> f x = Inr y)"
  by (cases r) auto

lemma result_bind_eq_Inl:
  "result_bind r f = Inl e \<longleftrightarrow> r = Inl e \<or> (\<exists>x. r = Inr x \<and> f x = Inl e)"
  by (cases r) auto

lemma collect_results_Inr:
  "collect_results f xs = Inr ys \<Longrightarrow> list_all2 (\<lambda>x y. f x = Inr y) xs ys"
  by (induction xs arbitrary: ys) (auto split: sum.splits)

lemma collect_results_InrI:
  "list_all2 (\<lambda>x y. f x = Inr y) xs ys \<Longrightarrow> collect_results f xs = Inr ys"
  by (induction rule: list_all2_induct) auto

lemma collect_results_map:
  "(\<And>x. x \<in> set xs \<Longrightarrow> f (g x) = Inr x) \<Longrightarrow> collect_results f (map g xs) = Inr xs"
  by (induction xs) auto

lemma collect_results_Inl:
  "collect_results f xs = Inl e \<Longrightarrow> \<exists>x \<in> set xs. f x = Inl e"
  by (induction xs) (auto split: sum.splits)

lemma collect_results_in:
  "collect_results f xs = Inr ys \<Longrightarrow> y \<in> set ys \<Longrightarrow> \<exists>x \<in> set xs. f x = Inr y"
  by (induction xs arbitrary: ys) (auto split: sum.splits)

lemma collect_results_length: "collect_results f xs = Inr ys \<Longrightarrow> length ys = length xs"
  by (metis collect_results_Inr list_all2_lengthD)

subsection \<open>Hoare triples with an error postcondition\<close>

text \<open>
  \<open>triple P m Q E\<close>: from a state with \<open>P\<close>, a value result satisfies \<open>Q\<close> and an error result
  satisfies \<open>E\<close>, each together with the state it leaves. Operations are total functions, so the
  triple says what happens, never only what happens if the operation returns.
\<close>

definition triple ::
  "('s \<Rightarrow> bool) \<Rightarrow> ('s, 'e, 'a) eff \<Rightarrow> ('a \<Rightarrow> 's \<Rightarrow> bool) \<Rightarrow> ('e \<Rightarrow> 's \<Rightarrow> bool) \<Rightarrow> bool" where
  "triple P m Q E \<longleftrightarrow>
     (\<forall>s. P s \<longrightarrow> (case m s of (Inl e, s') \<Rightarrow> E e s' | (Inr x, s') \<Rightarrow> Q x s'))"

lemma tripleI:
  "(\<And>s. P s \<Longrightarrow> (case m s of (Inl e, s') \<Rightarrow> E e s' | (Inr x, s') \<Rightarrow> Q x s')) \<Longrightarrow> triple P m Q E"
  by (simp add: triple_def)

lemma tripleD:
  "triple P m Q E \<Longrightarrow> P s \<Longrightarrow> (case m s of (Inl e, s') \<Rightarrow> E e s' | (Inr x, s') \<Rightarrow> Q x s')"
  by (simp add: triple_def)

lemma triple_okD: "triple P m Q E \<Longrightarrow> P s \<Longrightarrow> m s = (Inr x, s') \<Longrightarrow> Q x s'"
  by (fastforce simp: triple_def)

lemma triple_errD: "triple P m Q E \<Longrightarrow> P s \<Longrightarrow> m s = (Inl e, s') \<Longrightarrow> E e s'"
  by (fastforce simp: triple_def)

lemma triple_ret [hoare]: "triple (Q x) (ret x) Q E"
  by (simp add: triple_def ret_def)

lemma triple_throw [hoare]: "triple (E e) (throw e) Q E"
  by (simp add: triple_def throw_def)

lemma triple_and_then:
  assumes "triple P m R E" and "\<And>x. triple (R x) (f x) Q E"
  shows "triple P (and_then m f) Q E"
  using assms unfolding triple_def and_then_def
  by (fastforce split: prod.splits sum.splits)

lemma triple_attempt:
  assumes "triple P m (\<lambda>x. Q (Inr x)) (\<lambda>e. Q (Inl e))"
  shows "triple P (attempt m) Q E"
  using assms unfolding triple_def attempt_def
  by (fastforce split: prod.splits sum.splits)

lemma triple_map_err:
  assumes "triple P m Q (\<lambda>e. E (g e))"
  shows "triple P (map_err g m) Q E"
  using assms unfolding triple_def map_err_def
  by (fastforce split: prod.splits sum.splits)

lemma triple_lift_result:
  "triple (\<lambda>s. case r of Inl e \<Rightarrow> E e s | Inr x \<Rightarrow> Q x s) (lift_result r) Q E"
  by (auto simp: triple_def lift_result_def split: sum.splits)

lemma triple_gets: "triple (\<lambda>s. Q (f s) s) (gets f) Q E"
  by (simp add: triple_def gets_def)

lemma triple_modify: "triple (\<lambda>s. Q () (f s)) (modify f) Q E"
  by (simp add: triple_def modify_def)

lemma triple_when_err:
  "triple (\<lambda>s. if b then E e s else Q () s) (when_err b e) Q E"
  by (auto simp: triple_def when_err_def throw_def ret_def)

lemma triple_pre: "triple P m Q E \<Longrightarrow> (\<And>s. P' s \<Longrightarrow> P s) \<Longrightarrow> triple P' m Q E"
  by (simp add: triple_def)

lemma triple_post:
  "triple P m Q E \<Longrightarrow> (\<And>x s. Q x s \<Longrightarrow> Q' x s) \<Longrightarrow> (\<And>e s. E e s \<Longrightarrow> E' e s) \<Longrightarrow> triple P m Q' E'"
  unfolding triple_def by (fastforce split: prod.splits sum.splits)

text \<open>A loop invariant; what an error of the body leaves is what an error of the loop leaves.\<close>

lemma triple_for_each:
  assumes "\<And>x b. x \<in> set xs \<Longrightarrow> triple (I b) (f x b) I E"
  shows "triple (I b) (for_each f xs b) I E"
  using assms
proof (induction xs arbitrary: b)
  case Nil
  then show ?case by (simp add: triple_ret)
next
  case (Cons x xs)
  show ?case
    unfolding for_each.simps
    by (rule triple_and_then [where R = I]) (use Cons in auto)
qed

lemma triple_false: "triple (\<lambda>_. False) m Q E"
  by (simp add: triple_def)

lemma triple_conj:
  "triple P m Q E \<Longrightarrow> triple P' m Q' E' \<Longrightarrow>
   triple (\<lambda>s. P s \<and> P' s) m (\<lambda>x s. Q x s \<and> Q' x s) (\<lambda>e s. E e s \<and> E' e s)"
  unfolding triple_def by (fastforce split: prod.splits sum.splits)

text \<open>An operation keeps \<open>I\<close> when every outcome, value or error, leaves a state with \<open>I\<close>.\<close>

definition keeps :: "('s \<Rightarrow> bool) \<Rightarrow> ('s, 'e, 'a) eff \<Rightarrow> bool" where
  "keeps I m \<longleftrightarrow> (\<forall>s. I s \<longrightarrow> I (snd (m s)))"

lemma keepsI: "(\<And>s. I s \<Longrightarrow> I (snd (m s))) \<Longrightarrow> keeps I m"
  by (simp add: keeps_def)

lemma keepsD: "keeps I m \<Longrightarrow> I s \<Longrightarrow> m s = (r, s') \<Longrightarrow> I s'"
  by (force simp: keeps_def)

lemma keeps_triple: "keeps I m \<longleftrightarrow> triple I m (\<lambda>_. I) (\<lambda>_. I)"
proof -
  have "(case m s of (Inl e, s') \<Rightarrow> I s' | (Inr x, s') \<Rightarrow> I s') \<longleftrightarrow> I (snd (m s))" for s
    by (cases "m s"; cases "fst (m s)") auto
  then show ?thesis by (simp add: keeps_def triple_def)
qed

lemma keeps_ret [hoare, simp, intro]: "keeps I (ret x)"
  by (simp add: keeps_def ret_def)

lemma keeps_throw [hoare, simp, intro]: "keeps I (throw e)"
  by (simp add: keeps_def throw_def)

lemma keeps_lift_result [hoare, simp, intro]: "keeps I (lift_result r)"
  by (simp add: keeps_def lift_result_def)

lemma keeps_gets [hoare, simp, intro]: "keeps I (gets f)"
  by (simp add: keeps_def gets_def)

lemma keeps_when_err [hoare, simp, intro]: "keeps I (when_err b e)"
  by (simp add: when_err_def)

lemma keeps_modify [hoare]: "(\<And>s. I s \<Longrightarrow> I (f s)) \<Longrightarrow> keeps I (modify f)"
  by (simp add: keeps_def modify_def)

lemma keeps_and_then [hoare]:
  "keeps I m \<Longrightarrow> (\<And>x. keeps I (f x)) \<Longrightarrow> keeps I (and_then m f)"
  unfolding keeps_def and_then_def by (auto split: prod.splits sum.splits)

lemma keeps_for_each [hoare]: "(\<And>x b. keeps I (f x b)) \<Longrightarrow> keeps I (for_each f xs b)"
  by (induction xs arbitrary: b) (auto intro: keeps_and_then)

lemma keeps_attempt [hoare]: "keeps I m \<Longrightarrow> keeps I (attempt m)"
  unfolding keeps_def attempt_def by (auto split: prod.splits)

lemma keeps_map_err [hoare]: "keeps I m \<Longrightarrow> keeps I (map_err g m)"
  unfolding keeps_def map_err_def by (auto split: prod.splits sum.splits)

lemma keeps_if [hoare]:
  "(b \<Longrightarrow> keeps I m) \<Longrightarrow> (\<not> b \<Longrightarrow> keeps I n) \<Longrightarrow> keeps I (if b then m else n)"
  by simp

end
