(* ===== verification/Rust_Text.thy ===== *)
theory Rust_Text
  imports Rust_Prelude
begin

text \<open>
  The parts of Rust's standard library that the program uses on text: UTF-8 byte strings with
  \<open>is_char_boundary\<close>, Unicode \<open>trim\<close>, \<open>split\<close>, \<open>join\<close>, \<open>replace\<close>, decimal printing and parsing,
  \<open>BTreeMap\<close> as a sorted association list, and \<open>Path\<close> as its list of components. The lemmas on
  character boundaries are what the bounded pages, logs and checkpoint views share; the locale
  \<open>ordered_map\<close> is the contract the checkpoint graph and the Dune layout need of \<open>BTreeMap\<close>.
\<close>

section \<open>Bytes and character boundaries\<close>

type_synonym u64 = "64 word"

definition byte :: "char \<Rightarrow> nat" where
  "byte c = of_char c"

lemma byte_less_256 [simp]: "byte c < 256"
  by (simp add: byte_def)

definition is_cont :: "char \<Rightarrow> bool" where
  "is_cont c \<longleftrightarrow> 128 \<le> byte c \<and> byte c < 192"

definition is_char_boundary :: "string \<Rightarrow> nat \<Rightarrow> bool" where
  "is_char_boundary s i \<longleftrightarrow>
     i = 0 \<or> (if i \<ge> length s then i = length s else \<not> is_cont (s ! i))"

text \<open>\<open>str::get(a..b)\<close>: a slice, when both ends are boundaries in order.\<close>

definition str_get :: "string \<Rightarrow> nat \<Rightarrow> nat \<Rightarrow> string option" where
  "str_get s a b =
     (if a \<le> b \<and> b \<le> length s \<and> is_char_boundary s a \<and> is_char_boundary s b
      then Some (take (b - a) (drop a s)) else None)"

text \<open>
  The loop \<open>while end > lo && !text.is_char_boundary(end) { end -= 1; }\<close>, which the program uses
  in three places.
\<close>

fun cut_back :: "string \<Rightarrow> nat \<Rightarrow> nat \<Rightarrow> nat" where
  "cut_back s lo e = (if lo < e \<and> \<not> is_char_boundary s e then cut_back s lo (e - 1) else e)"

declare cut_back.simps [simp del]

definition between :: "nat \<Rightarrow> nat \<Rightarrow> char \<Rightarrow> bool" where
  "between lo hi c \<longleftrightarrow> lo \<le> byte c \<and> byte c \<le> hi"

text \<open>
  Well-formed UTF-8 (the table of the Unicode standard, which \<open>str\<close> guarantees): the number of
  continuation bytes that the character led by \<open>a\<close> takes from the bytes \<open>s\<close> after it.
\<close>

definition utf8_tail :: "char \<Rightarrow> string \<Rightarrow> nat option" where
  "utf8_tail a s =
     (if byte a < 128 then Some 0
      else if 1 \<le> length s \<and> between 194 223 a \<and> is_cont (s ! 0) then Some 1
      else if 2 \<le> length s \<and> is_cont (s ! 0) \<and> is_cont (s ! 1) \<and>
        (byte a = 224 \<and> 160 \<le> byte (s ! 0) \<or> between 225 236 a
         \<or> byte a = 237 \<and> byte (s ! 0) \<le> 159 \<or> between 238 239 a) then Some 2
      else if 3 \<le> length s \<and> is_cont (s ! 0) \<and> is_cont (s ! 1) \<and> is_cont (s ! 2) \<and>
        (byte a = 240 \<and> 144 \<le> byte (s ! 0) \<or> between 241 243 a
         \<or> byte a = 244 \<and> byte (s ! 0) \<le> 143) then Some 3
      else None)"

fun utf8 :: "string \<Rightarrow> bool" where
  "utf8 [] = True"
| "utf8 (a # s) = (case utf8_tail a s of None \<Rightarrow> False | Some k \<Rightarrow> utf8 (drop k s))"

declare utf8.simps(2) [simp del]

text \<open>A well-formed string is a sequence of characters of one to four bytes, each led by a byte
  that is not a continuation byte.\<close>

lemma utf8_tail_SomeD:
  assumes "utf8_tail a s = Some k"
  shows "\<not> is_cont a" "k \<le> 3" "k \<le> length s" "i < k \<Longrightarrow> is_cont (s ! i)"
proof -
  show "\<not> is_cont a"
    using assms by (auto simp: utf8_tail_def is_cont_def between_def simp del: One_nat_def split: if_splits)
  show "k \<le> 3" "k \<le> length s"
    using assms by (auto simp: utf8_tail_def simp del: One_nat_def split: if_splits)
  have "k = 0 \<or> k = 1 \<and> is_cont (s ! 0) \<or> k = 2 \<and> is_cont (s ! 0) \<and> is_cont (s ! 1)
      \<or> k = 3 \<and> is_cont (s ! 0) \<and> is_cont (s ! 1) \<and> is_cont (s ! 2)"
    using assms by (simp add: utf8_tail_def split: if_splits)
  then show "i < k \<Longrightarrow> is_cont (s ! i)"
    by (elim disjE conjE) (auto simp: less_Suc_eq numeral_2_eq_2 numeral_3_eq_3)
qed

lemma utf8_step:
  assumes "utf8 (a # s)"
  shows "\<not> is_cont a \<and> (\<exists>k \<le> 3. k \<le> length s \<and> utf8 (drop k s) \<and> (\<forall>i < k. is_cont (s ! i)))"
  using assms utf8_tail_SomeD [of a s] by (auto simp: utf8.simps(2) split: option.splits)

lemma char_boundary_le: "is_char_boundary s i \<Longrightarrow> i \<le> length s"
  by (auto simp: is_char_boundary_def split: if_splits)

lemma char_boundary_ends [simp]: "is_char_boundary s 0" "is_char_boundary s (length s)"
  by (simp_all add: is_char_boundary_def)

text \<open>Among four consecutive offsets of a well-formed string one is a boundary.\<close>

lemma utf8_boundary_near:
  assumes "utf8 s" and "i \<le> length s"
  shows "\<exists>j \<le> i. i < j + 4 \<and> is_char_boundary s j"
  using assms
proof (induction s arbitrary: i rule: length_induct)
  case (1 s)
  show ?case
  proof (cases s)
    case Nil
    with 1 show ?thesis by (intro exI [of _ 0]) auto
  next
    case (Cons a t)
    with 1 obtain k where k: "k \<le> 3" "k \<le> length t" "utf8 (drop k t)" "\<not> is_cont a"
      using utf8_step by blast
    show ?thesis
    proof (cases "i \<le> k")
      case True
      with k show ?thesis by (intro exI [of _ 0]) auto
    next
      case False
      let ?i = "i - Suc k"
      have "length (drop k t) < length s" "?i \<le> length (drop k t)"
        using Cons False 1 k by auto
      with 1 k obtain j where j: "j \<le> ?i" "?i < j + 4" "is_char_boundary (drop k t) j"
        by blast
      have "is_char_boundary s (j + Suc k)"
      proof (cases "j = 0 \<and> drop k t \<noteq> []")
        case True
        then obtain b u where "drop k t = b # u" by (cases "drop k t") auto
        with k have "\<not> is_cont (t ! k)"
          using utf8_step by (metis hd_drop_conv_nth length_drop length_greater_0_conv list.distinct(1) list.sel(1) zero_less_diff)
        with True Cons show ?thesis by (auto simp: is_char_boundary_def)
      next
        case False
        with j k Cons show ?thesis by (auto simp: is_char_boundary_def add.commute split: if_splits)
      qed
      with j False show ?thesis by (intro exI [of _ "j + Suc k"]) auto
    qed
  qed
qed

lemma cut_back_bounds: "lo \<le> e \<Longrightarrow> lo \<le> cut_back s lo e \<and> cut_back s lo e \<le> e"
proof (induction s lo e rule: cut_back.induct)
  case (1 s lo e)
  show ?case
  proof (cases "lo < e \<and> \<not> is_char_boundary s e")
    case True
    with 1 have "lo \<le> cut_back s lo (e - 1) \<and> cut_back s lo (e - 1) \<le> e - 1" by auto
    moreover from True have "cut_back s lo e = cut_back s lo (e - 1)"
      by (simp add: cut_back.simps [of s lo e])
    ultimately show ?thesis by linarith
  next
    case False
    with 1 show ?thesis by (auto simp: cut_back.simps [of s lo e])
  qed
qed

lemma cut_back_boundary:
  "lo \<le> e \<Longrightarrow> is_char_boundary s lo \<Longrightarrow> is_char_boundary s (cut_back s lo e)"
proof (induction s lo e rule: cut_back.induct)
  case (1 s lo e)
  show ?case
  proof (cases "lo < e \<and> \<not> is_char_boundary s e")
    case True
    then have "lo \<le> e - 1" by arith
    with 1 True have "is_char_boundary s (cut_back s lo (e - 1))" by blast
    with True show ?thesis by (simp add: cut_back.simps [of s lo e])
  next
    case False
    with 1 have "is_char_boundary s e" by (cases "lo = e") auto
    with False show ?thesis by (simp add: cut_back.simps [of s lo e])
  qed
qed

lemma cut_back_greatest:
  "lo \<le> j \<Longrightarrow> j \<le> e \<Longrightarrow> is_char_boundary s j \<Longrightarrow> j \<le> cut_back s lo e"
proof (induction s lo e rule: cut_back.induct)
  case (1 s lo e)
  then show ?case
    by (cases "lo < e \<and> \<not> is_char_boundary s e")
       (auto simp: cut_back.simps [of s lo e], metis Suc_pred le_Suc_eq less_imp_Suc_add zero_less_Suc)
qed

lemma cut_back_near:
  assumes "utf8 s" and "e \<le> length s" and "lo + 4 \<le> e"
  shows "e < cut_back s lo e + 4"
proof -
  obtain j where "j \<le> e" "e < j + 4" "is_char_boundary s j"
    using utf8_boundary_near [OF assms(1,2)] by blast
  with assms(3) cut_back_greatest [of lo j e s] show ?thesis by simp
qed

lemma cut_back_fix: "is_char_boundary s e \<Longrightarrow> cut_back s lo e = e"
  by (subst cut_back.simps) simp

section \<open>Trimming, searching and splitting\<close>

text \<open>The encodings of the Unicode \<open>White_Space\<close> characters, which \<open>str::trim\<close> removes.\<close>

definition ws_chars :: "string list" where
  "ws_chars =
     [[CHR 0x20], [CHR 0x0A], [CHR 0x09], [CHR 0x0D], [CHR 0x0B], [CHR 0x0C],
      [CHR 0xC2, CHR 0x85], [CHR 0xC2, CHR 0xA0], [CHR 0xE1, CHR 0x9A, CHR 0x80],
      [CHR 0xE2, CHR 0x80, CHR 0x80], [CHR 0xE2, CHR 0x80, CHR 0x81],
      [CHR 0xE2, CHR 0x80, CHR 0x82], [CHR 0xE2, CHR 0x80, CHR 0x83],
      [CHR 0xE2, CHR 0x80, CHR 0x84], [CHR 0xE2, CHR 0x80, CHR 0x85],
      [CHR 0xE2, CHR 0x80, CHR 0x86], [CHR 0xE2, CHR 0x80, CHR 0x87],
      [CHR 0xE2, CHR 0x80, CHR 0x88], [CHR 0xE2, CHR 0x80, CHR 0x89],
      [CHR 0xE2, CHR 0x80, CHR 0x8A], [CHR 0xE2, CHR 0x80, CHR 0xA8],
      [CHR 0xE2, CHR 0x80, CHR 0xA9], [CHR 0xE2, CHR 0x80, CHR 0xAF],
      [CHR 0xE2, CHR 0x81, CHR 0x9F], [CHR 0xE3, CHR 0x80, CHR 0x80]]"

text \<open>Remove leading patterns for as long as one of them (not empty) is a prefix.\<close>

function strip_front :: "string list \<Rightarrow> string \<Rightarrow> string" where
  "strip_front ws s =
     (case find (\<lambda>w. w \<noteq> [] \<and> prefix w s) ws of
        None \<Rightarrow> s
      | Some w \<Rightarrow> strip_front ws (drop (length w) s))"
  by pat_completeness auto
termination
  by (relation "measure (\<lambda>(ws, s). length s)")
     (auto simp: find_Some_iff prefix_def)

declare strip_front.simps [simp del]

definition trim_start :: "string \<Rightarrow> string" where
  "trim_start s = strip_front ws_chars s"

definition trim_end :: "string \<Rightarrow> string" where
  "trim_end s = rev (strip_front (map rev ws_chars) (rev s))"

definition trim :: "string \<Rightarrow> string" where
  "trim s = trim_end (trim_start s)"

lemma strip_front_suffix: "suffix (strip_front ws s) s"
proof (induction ws s rule: strip_front.induct)
  case (1 ws s)
  show ?case
  proof (cases "find (\<lambda>w. w \<noteq> [] \<and> prefix w s) ws")
    case None
    then show ?thesis by (simp add: strip_front.simps)
  next
    case (Some w)
    with 1 have "suffix (strip_front ws (drop (length w) s)) (drop (length w) s)" by blast
    with Some show ?thesis
      by (simp add: strip_front.simps [of ws s]) (meson suffix_drop suffix_order.trans)
  qed
qed

lemma strip_front_done:
  "w \<in> set ws \<Longrightarrow> w \<noteq> [] \<Longrightarrow> \<not> prefix w (strip_front ws s)"
proof (induction ws s rule: strip_front.induct)
  case (1 ws s)
  show ?case
  proof (cases "find (\<lambda>w. w \<noteq> [] \<and> prefix w s) ws")
    case None
    then have "strip_front ws s = s" by (simp add: strip_front.simps)
    with 1 None show ?thesis by (auto simp: find_None_iff)
  next
    case (Some v)
    with 1 show ?thesis by (simp add: strip_front.simps [of ws s])
  qed
qed

lemma trim_infix: "\<exists>a b. s = a @ trim s @ b"
proof -
  obtain a where a: "s = a @ trim_start s"
    using strip_front_suffix by (metis suffix_def trim_start_def)
  obtain b where "trim_start s = trim_end (trim_start s) @ b"
    using strip_front_suffix [of "map rev ws_chars" "rev (trim_start s)"]
    unfolding trim_end_def suffix_def by (metis rev_append rev_rev_ident)
  with a show ?thesis by (metis trim_def)
qed

text \<open>\<open>str::find\<close> with a string pattern: the first offset where it occurs.\<close>

fun str_find :: "string \<Rightarrow> string \<Rightarrow> nat option" where
  "str_find p [] = (if p = [] then Some 0 else None)"
| "str_find p (c # s) = (if prefix p (c # s) then Some 0 else map_option Suc (str_find p s))"

definition str_contains :: "string \<Rightarrow> string \<Rightarrow> bool" where
  "str_contains p s \<longleftrightarrow> str_find p s \<noteq> None"

lemma str_find_Some:
  "str_find p s = Some i \<Longrightarrow> i + length p \<le> length s \<and> prefix p (drop i s)"
proof (induction s arbitrary: i)
  case (Cons c s)
  then show ?case by (auto split: if_splits dest: prefix_length_le)
qed (auto split: if_splits)

lemma str_find_least:
  "str_find p s = Some i \<Longrightarrow> j < i \<Longrightarrow> \<not> prefix p (drop j s)"
proof (induction s arbitrary: i j)
  case (Cons c s)
  then show ?case by (cases j) (auto split: if_splits)
qed (auto split: if_splits)

lemma str_find_None: "str_find p s = None \<longleftrightarrow> \<not> sublist p s"
  by (induction s) (auto simp: sublist_Cons_right)

lemma str_contains_iff: "str_contains p s \<longleftrightarrow> sublist p s"
  by (simp add: str_contains_def str_find_None)

text \<open>\<open>str::replace\<close> for a pattern that is not empty (the program's patterns are literals).\<close>

function str_replace :: "string \<Rightarrow> string \<Rightarrow> string \<Rightarrow> string" where
  "str_replace p r [] = []"
| "str_replace p r (c # s) =
     (if p \<noteq> [] \<and> prefix p (c # s) then r @ str_replace p r (drop (length p) (c # s))
      else c # str_replace p r s)"
  by pat_completeness auto
termination
  by (relation "measure (\<lambda>(p, r, s). length s)") (auto simp: prefix_def)

declare str_replace.simps(2) [simp del]

text \<open>\<open>str::split(c)\<close> on an ASCII character, and \<open>join\<close>.\<close>

fun split_char :: "char \<Rightarrow> string \<Rightarrow> string list" where
  "split_char d [] = [[]]"
| "split_char d (c # s) =
     (if c = d then [] # split_char d s
      else (case split_char d s of [] \<Rightarrow> [[c]] | w # ws \<Rightarrow> (c # w) # ws))"

fun join :: "string \<Rightarrow> string list \<Rightarrow> string" where
  "join sep [] = []"
| "join sep [w] = w"
| "join sep (w # v # ws) = w @ sep @ join sep (v # ws)"

lemma split_char_not_Nil [simp]: "split_char d s \<noteq> []"
  by (cases s) (auto split: list.splits)

lemma join_split_char: "join [d] (split_char d s) = s"
proof (induction s)
  case (Cons c s)
  obtain w ws where "split_char d s = w # ws"
    using split_char_not_Nil by (metis list.exhaust)
  with Cons show ?case by (cases ws) auto
qed simp

lemma split_char_append:
  "d \<notin> set w \<Longrightarrow> split_char d (w @ d # s) = w # split_char d s"
  by (induction w) auto

lemma split_char_single: "d \<notin> set w \<Longrightarrow> split_char d w = [w]"
  by (induction w) auto

lemma split_char_join:
  "ws \<noteq> [] \<Longrightarrow> \<forall>w \<in> set ws. d \<notin> set w \<Longrightarrow> split_char d (join [d] ws) = ws"
  by (induction "[d]" ws rule: join.induct) (auto simp: split_char_append split_char_single)

text \<open>Decimal printing of an unsigned number.\<close>

fun show_nat :: "nat \<Rightarrow> string" where
  "show_nat n = (if n < 10 then [char_of (48 + n)] else show_nat (n div 10) @ [char_of (48 + n mod 10)])"

declare show_nat.simps [simp del]

section \<open>Machine arithmetic\<close>

text \<open>\<open>u64::checked_add\<close>: \<open>None\<close> exactly when the sum does not fit.\<close>

definition checked_add :: "u64 \<Rightarrow> u64 \<Rightarrow> u64 option" where
  "checked_add a b = (if unat a + unat b < 2 ^ 64 then Some (a + b) else None)"

lemma checked_add_Some:
  "checked_add a b = Some c \<Longrightarrow> unat c = unat a + unat b"
  by (auto simp: checked_add_def unat_word_ariths split: if_splits)

lemma checked_add_None: "checked_add a b = None \<longleftrightarrow> 2 ^ 64 \<le> unat a + unat b"
  by (auto simp: checked_add_def)

section \<open>Ordered maps\<close>

text \<open>
  A \<open>BTreeMap\<close> is an association list with strictly increasing keys: \<open>iter\<close>, \<open>keys\<close> and
  \<open>values\<close> visit it in that order. The locale states what the components need of the map, in the
  form the checkpoint graph, the JSON objects and the progress book use it.
\<close>

type_synonym ('k, 'v) btree_map = "('k \<times> 'v) list"

fun bt_insert :: "'k::linorder \<Rightarrow> 'v \<Rightarrow> ('k, 'v) btree_map \<Rightarrow> ('k, 'v) btree_map" where
  "bt_insert k v [] = [(k, v)]"
| "bt_insert k v ((k', v') # m) =
     (if k < k' then (k, v) # (k', v') # m
      else if k = k' then (k, v) # m
      else (k', v') # bt_insert k v m)"

definition bt_get :: "('k, 'v) btree_map \<Rightarrow> 'k \<Rightarrow> 'v option" where
  "bt_get m k = map_of m k"

definition bt_remove :: "'k \<Rightarrow> ('k, 'v) btree_map \<Rightarrow> ('k, 'v) btree_map" where
  "bt_remove k m = filter (\<lambda>(k', v). k' \<noteq> k) m"

definition bt_map_values :: "('v \<Rightarrow> 'w) \<Rightarrow> ('k, 'v) btree_map \<Rightarrow> ('k, 'w) btree_map" where
  "bt_map_values f m = map (\<lambda>(k, v). (k, f v)) m"

definition bt_wf :: "('k::linorder, 'v) btree_map \<Rightarrow> bool" where
  "bt_wf m \<longleftrightarrow> sorted_wrt (<) (map fst m)"

locale ordered_map =
  fixes empty :: "'m"
    and insert :: "'k \<Rightarrow> 'v \<Rightarrow> 'm \<Rightarrow> 'm"
    and remove :: "'k \<Rightarrow> 'm \<Rightarrow> 'm"
    and get :: "'m \<Rightarrow> 'k \<Rightarrow> 'v option"
    and update_all :: "('v \<Rightarrow> 'v) \<Rightarrow> 'm \<Rightarrow> 'm"
    and wf :: "'m \<Rightarrow> bool"
  assumes wf_empty: "wf empty"
    and get_empty: "get empty k = None"
    and wf_insert: "wf m \<Longrightarrow> wf (insert k v m)"
    and get_insert: "wf m \<Longrightarrow> get (insert k v m) k' = (if k' = k then Some v else get m k')"
    and wf_remove: "wf m \<Longrightarrow> wf (remove k m)"
    and get_remove: "wf m \<Longrightarrow> get (remove k m) k' = (if k' = k then None else get m k')"
    and wf_update_all: "wf m \<Longrightarrow> wf (update_all f m)"
    and get_update_all: "get (update_all f m) k = map_option f (get m k)"
begin

lemma get_insert_same: "wf m \<Longrightarrow> get (insert k v m) k = Some v"
  by (simp add: get_insert)

lemma get_insert_other: "wf m \<Longrightarrow> k' \<noteq> k \<Longrightarrow> get (insert k v m) k' = get m k'"
  by (simp add: get_insert)

lemma insert_fresh_keeps:
  "wf m \<Longrightarrow> get m k = None \<Longrightarrow> get m k' = Some w \<Longrightarrow> get (insert k v m) k' = Some w"
  by (auto simp: get_insert)

lemma get_remove_insert: "wf m \<Longrightarrow> get m k = None \<Longrightarrow> get (remove k (insert k v m)) = get m"
  by (rule ext) (simp add: get_remove get_insert wf_insert)

end

lemma bt_insert_keys: "fst ` set (bt_insert k v m) = Set.insert k (fst ` set m)"
  by (induction k v m rule: bt_insert.induct) (simp_all add: insert_commute)

lemma bt_wf_insert: "bt_wf m \<Longrightarrow> bt_wf (bt_insert k v m)"
proof (induction m)
  case (Cons p m)
  obtain k' v' where p: "p = (k', v')" by (cases p)
  show ?case
  proof (cases "k' < k")
    case True
    from Cons p have "bt_wf (bt_insert k v m)" by (simp add: bt_wf_def)
    moreover have "\<forall>x \<in> fst ` set (bt_insert k v m). k' < x"
      using Cons.prems True by (auto simp: bt_insert_keys p bt_wf_def)
    ultimately show ?thesis using True p by (auto simp: bt_wf_def)
  next
    case False
    with Cons.prems p show ?thesis by (auto simp: bt_wf_def)
  qed
qed (simp add: bt_wf_def)

lemma bt_get_insert:
  "bt_wf m \<Longrightarrow> bt_get (bt_insert k v m) k' = (if k' = k then Some v else bt_get m k')"
  by (induction m) (auto simp: bt_get_def bt_wf_def)

interpretation bt: ordered_map "[]" bt_insert bt_remove bt_get bt_map_values bt_wf
proof (unfold_locales, goal_cases)
  case (3 m k v)
  then show ?case by (rule bt_wf_insert)
next
  case (4 m k v k')
  then show ?case by (rule bt_get_insert)
next
  case (5 m k)
  then show ?case
    by (auto simp: bt_wf_def bt_remove_def sorted_wrt_map intro: sorted_wrt_filter)
next
  case (6 m k k')
  show ?case
    by (induction m) (auto simp: bt_get_def bt_remove_def)
next
  case (7 m f)
  then show ?case by (simp add: bt_wf_def bt_map_values_def case_prod_beta comp_def)
next
  case (8 f m k)
  then show ?case by (induction m) (auto simp: bt_get_def bt_map_values_def)
qed (simp_all add: bt_wf_def bt_get_def)

lemma bt_get_in_set: "bt_get m k = Some v \<Longrightarrow> (k, v) \<in> set m"
  by (simp add: bt_get_def map_of_SomeD)

lemma bt_get_iff: "bt_wf m \<Longrightarrow> bt_get m k = Some v \<longleftrightarrow> (k, v) \<in> set m"
  by (simp add: bt_get_def bt_wf_def map_of_eq_Some_iff strict_sorted_iff)

section \<open>Paths\<close>

text \<open>
  A \<open>Path\<close> is the list of its \<open>components()\<close> on Unix, which is also what its equality compares:
  repeated separators and inner \<open>.\<close> components are gone, a leading \<open>.\<close> is kept.
\<close>

datatype path_component = RootDir | CurDir | ParentDir | Normal string

type_synonym path = "path_component list"

definition path_is_absolute :: "path \<Rightarrow> bool" where
  "path_is_absolute p \<longleftrightarrow> (case p of RootDir # _ \<Rightarrow> True | _ \<Rightarrow> False)"

text \<open>\<open>Path::join\<close>: an absolute right side replaces the left one.\<close>

definition path_join :: "path \<Rightarrow> path \<Rightarrow> path" where
  "path_join p q =
     (if path_is_absolute q then q
      else if p = [] then q
      else p @ filter (\<lambda>c. c \<noteq> CurDir) q)"

definition path_strip_prefix :: "path \<Rightarrow> path \<Rightarrow> path option" where
  "path_strip_prefix base p = (if prefix base p then Some (drop (length base) p) else None)"

definition path_starts_with :: "path \<Rightarrow> path \<Rightarrow> bool" where
  "path_starts_with p base \<longleftrightarrow> prefix base p"

fun component_str :: "path_component \<Rightarrow> string" where
  "component_str RootDir = ''/''"
| "component_str CurDir = ''.''"
| "component_str ParentDir = ''..''"
| "component_str (Normal s) = s"

text \<open>The text of a path, as \<open>to_string_lossy\<close> gives it for UTF-8 names.\<close>

definition path_str :: "path \<Rightarrow> string" where
  "path_str p =
     (case p of RootDir # cs \<Rightarrow> ''/'' @ join ''/'' (map component_str cs)
      | _ \<Rightarrow> join ''/'' (map component_str p))"

lemma path_strip_prefix_Some [simp]:
  "path_strip_prefix base p = Some r \<longleftrightarrow> p = base @ r"
  by (auto simp: path_strip_prefix_def prefix_def)

end
