(* ===== verification/Json.thy ===== *)
theory Json
  imports Rust_Text
begin

text \<open>
  \<open>serde_json::Value\<close>: the values of the MCP wire and of the PET transport. The workspace builds
  \<open>serde_json\<close> without \<open>preserve_order\<close>, so an object is a \<open>BTreeMap\<close> keyed by UTF-8 strings.
  A number is what \<open>serde_json::Number\<close> keeps: a \<open>u64\<close>, a negative \<open>i64\<close>, or a float, whose value
  the program never reads (it is opaque here).
\<close>

datatype json_number = PosInt u64 | NegInt int | Float string

datatype json =
    JNull
  | JBool bool
  | JNumber json_number
  | JString string
  | JArray "json list"
  | JObject "(string \<times> json) list"

section \<open>Accessors\<close>

text \<open>\<open>Value::get\<close> with a string key, and the \<open>as_*\<close> projections.\<close>

definition json_get :: "json \<Rightarrow> string \<Rightarrow> json option" where
  "json_get v k = (case v of JObject m \<Rightarrow> bt_get m k | _ \<Rightarrow> None)"

definition json_index :: "json \<Rightarrow> nat \<Rightarrow> json option" where
  "json_index v i = (case v of JArray xs \<Rightarrow> (if i < length xs then Some (xs ! i) else None) | _ \<Rightarrow> None)"

definition as_str :: "json \<Rightarrow> string option" where
  "as_str v = (case v of JString s \<Rightarrow> Some s | _ \<Rightarrow> None)"

definition as_bool :: "json \<Rightarrow> bool option" where
  "as_bool v = (case v of JBool b \<Rightarrow> Some b | _ \<Rightarrow> None)"

definition as_u64 :: "json \<Rightarrow> u64 option" where
  "as_u64 v = (case v of JNumber (PosInt n) \<Rightarrow> Some n | _ \<Rightarrow> None)"

definition as_i64 :: "json \<Rightarrow> int option" where
  "as_i64 v =
     (case v of
        JNumber (PosInt n) \<Rightarrow> (if uint n < 2 ^ 63 then Some (uint n) else None)
      | JNumber (NegInt i) \<Rightarrow> Some i
      | _ \<Rightarrow> None)"

definition as_array :: "json \<Rightarrow> json list option" where
  "as_array v = (case v of JArray xs \<Rightarrow> Some xs | _ \<Rightarrow> None)"

definition as_object :: "json \<Rightarrow> (string \<times> json) list option" where
  "as_object v = (case v of JObject m \<Rightarrow> Some m | _ \<Rightarrow> None)"

definition is_null :: "json \<Rightarrow> bool" where
  "is_null v \<longleftrightarrow> v = JNull"

text \<open>The macro \<open>json!({...})\<close> inserts the members in the order they are written.\<close>

definition json_obj :: "(string \<times> json) list \<Rightarrow> json" where
  "json_obj kvs = JObject (foldl (\<lambda>m (k, v). bt_insert k v m) [] kvs)"

definition json_nat :: "nat \<Rightarrow> json" where
  "json_nat n = JNumber (PosInt (of_nat n))"

definition json_opt :: "('a \<Rightarrow> json) \<Rightarrow> 'a option \<Rightarrow> json" where
  "json_opt f x = (case x of None \<Rightarrow> JNull | Some y \<Rightarrow> f y)"

text \<open>\<open>value["key"] = v\<close> on an object; the program assigns to values it built as objects.\<close>

definition json_set :: "string \<Rightarrow> json \<Rightarrow> json \<Rightarrow> json" where
  "json_set k x v = (case v of JObject m \<Rightarrow> JObject (bt_insert k x m) | _ \<Rightarrow> v)"

lemma json_accessor_simps [simp]:
  "as_str (JString s) = Some s" "as_bool (JBool b) = Some b"
  "as_u64 (JNumber (PosInt n)) = Some n" "as_array (JArray xs) = Some xs"
  "as_object (JObject m) = Some m" "is_null JNull"
  "json_get (JObject m) k = bt_get m k"
  by (simp_all add: as_str_def as_bool_def as_u64_def as_array_def as_object_def is_null_def
      json_get_def)

lemma json_accessor_iff [simp]:
  "as_str v = Some s \<longleftrightarrow> v = JString s" "as_bool v = Some b \<longleftrightarrow> v = JBool b"
  "as_u64 v = Some n \<longleftrightarrow> v = JNumber (PosInt n)" "as_array v = Some xs \<longleftrightarrow> v = JArray xs"
  "as_object v = Some m \<longleftrightarrow> v = JObject m"
  by (auto simp: as_str_def as_bool_def as_u64_def as_array_def as_object_def
      split: json.splits json_number.splits)

lemma json_foldl_wf:
  "bt_wf m \<Longrightarrow> bt_wf (foldl (\<lambda>m (k, v). bt_insert k v m) m kvs)"
  by (induction kvs arbitrary: m) (auto intro: bt_wf_insert)

lemma json_foldl_get:
  "bt_wf m \<Longrightarrow>
   bt_get (foldl (\<lambda>m (k, v). bt_insert k v m) m kvs) k =
     (case map_of (rev kvs) k of Some v \<Rightarrow> Some v | None \<Rightarrow> bt_get m k)"
proof (induction kvs arbitrary: m)
  case (Cons p kvs)
  then show ?case
    by (cases p) (auto simp: bt_wf_insert bt_get_insert map_add_def split: option.splits)
qed simp

text \<open>A member of \<open>json!\<close> is found again by its key: the last one written for that key.\<close>

lemma json_get_obj [simp]: "json_get (json_obj kvs) k = map_of (rev kvs) k"
  using json_foldl_get [of "[]" kvs k]
  by (simp add: json_obj_def bt_wf_def bt.get_empty split: option.splits)

definition members :: "(string \<times> json) list \<Rightarrow> (string \<times> json) list" where
  "members kvs = foldl (\<lambda>m (k, v). bt_insert k v m) [] kvs"

lemma as_object_json_obj [simp]: "as_object (json_obj kvs) = Some (members kvs)"
  by (simp add: json_obj_def members_def)

lemma bt_get_members [simp]: "bt_get (members kvs) k = map_of (rev kvs) k"
  using json_get_obj [of kvs k] by (simp add: json_obj_def members_def del: json_get_obj)

lemma json_obj_not_null [simp]: "\<not> is_null (json_obj kvs)"
  by (simp add: is_null_def json_obj_def)

text \<open>
  A derived \<open>Deserialize\<close> for a struct reads its fields by name from an object, or by position from
  an array of exactly as many elements; unknown members are ignored.
\<close>

definition struct_fields :: "string list \<Rightarrow> json \<Rightarrow> (string \<Rightarrow> json option) option" where
  "struct_fields names v =
     (case v of
        JObject m \<Rightarrow> Some (bt_get m)
      | JArray xs \<Rightarrow> (if length xs = length names then Some (map_of (zip names xs)) else None)
      | _ \<Rightarrow> None)"

text \<open>Fields of type \<open>String\<close>, \<open>bool\<close>, \<open>u64\<close>, \<open>usize\<close>, \<open>i64\<close>, \<open>Vec<T>\<close> and \<open>Option<T>\<close>.\<close>

definition de_list :: "(json \<Rightarrow> 'a option) \<Rightarrow> json \<Rightarrow> 'a list option" where
  "de_list f v = (case v of JArray xs \<Rightarrow> those (map f xs) | _ \<Rightarrow> None)"

definition de_option :: "(json \<Rightarrow> 'a option) \<Rightarrow> json option \<Rightarrow> 'a option option" where
  "de_option f v =
     (case v of None \<Rightarrow> Some None | Some JNull \<Rightarrow> Some None | Some x \<Rightarrow> map_option Some (f x))"

definition as_usize :: "json \<Rightarrow> nat option" where
  "as_usize v = map_option unat (as_u64 v)"

end
