(* ===== verification/Rocq_Types.thy ===== *)
theory Rocq_Types
  imports Json
begin

text \<open>
  The values of \<open>rocq-engine/src/types.rs\<close>: error classes, declaration identities, goal
  projections, proof states and the compare-and-swap anchor of a declaration. The order and the
  names of the fields and constructors are the source's; fields carry a prefix where two structs
  share a name. A digest \<open>[u8; 32]\<close> is its byte string; a PET state identifier is the \<open>u64\<close> that
  PET returned.
\<close>

type_synonym digest = string
type_synonym pet_state_id = u64

section \<open>Errors\<close>

datatype error_kind =
    InvalidRequest | InvalidConfiguration | InvalidDeclaration | NotFound | Ambiguous
  | DeclarationChanged | ProofStepFailed | ProofStepTimeout | RequestCancelled | PetLost
  | QueryFailed | QueryTimeout | PetFailure | ProjectTimeout | BuildTimeout
  | AxiomDependencyOutOfScope | UnfinishedDependency

record proof_diagnostic =
  byte_start :: nat
  byte_end :: nat

record err =
  err_kind :: error_kind
  err_message :: string
  err_diagnostic :: "proof_diagnostic option"
  err_resolution :: "json option"
  err_semantic :: bool

definition error_new :: "error_kind \<Rightarrow> string \<Rightarrow> err" where
  "error_new k m = \<lparr>err_kind = k, err_message = m, err_diagnostic = None, err_resolution = None,
     err_semantic = False\<rparr>"

definition with_diagnostic :: "proof_diagnostic \<Rightarrow> err \<Rightarrow> err" where
  "with_diagnostic d e = e\<lparr>err_diagnostic := Some d\<rparr>"

definition with_resolution :: "json \<Rightarrow> err \<Rightarrow> err" where
  "with_resolution r e = e\<lparr>err_resolution := Some r\<rparr>"

definition semantic :: "err \<Rightarrow> err" where
  "semantic e = e\<lparr>err_semantic := True\<rparr>"

lemma error_simps [simp]:
  "err_kind (error_new k m) = k" "err_message (error_new k m) = m"
  "err_semantic (error_new k m) = False" "err_diagnostic (error_new k m) = None"
  "err_resolution (error_new k m) = None"
  "err_kind (with_diagnostic d e) = err_kind e" "err_kind (with_resolution r e) = err_kind e"
  "err_kind (semantic e) = err_kind e" "err_message (with_diagnostic d e) = err_message e"
  "err_message (with_resolution r e) = err_message e" "err_message (semantic e) = err_message e"
  "err_semantic (semantic e)"
  by (simp_all add: error_new_def with_diagnostic_def with_resolution_def semantic_def)

section \<open>Identities\<close>

datatype proof_lifecycle = Open | Completed

type_synonym file_id = string
type_synonym logical_library = "string list"

definition backslash_to_slash :: "string \<Rightarrow> string" where
  "backslash_to_slash s = map (\<lambda>c. if c = CHR 0x5C then CHR ''/'' else c) s"

definition file_id_from_path :: "path \<Rightarrow> path \<Rightarrow> string + file_id" where
  "file_id_from_path workspace source =
     (case path_strip_prefix workspace source of
        None \<Rightarrow> Inl ''source escapes Dune workspace''
      | Some relative \<Rightarrow>
          (let value = join ''/'' (map (\<lambda>part. backslash_to_slash (component_str part)) relative)
           in if value = [] \<or> value = ''..'' \<or> prefix ''../'' value
              then Inl ''source path is not workspace-relative''
              else Inr value))"

record pet_load_path =
  physical :: path
  logical :: logical_library
  implicit :: bool

record pet_workspace =
  ws_root :: path
  load_paths :: "pet_load_path list"

record declaration_identity =
  id_file :: file_id
  qualified_path :: "string list"

definition qualified_name :: "declaration_identity \<Rightarrow> string" where
  "qualified_name d = join ''.'' (qualified_path d)"

datatype declaration_kind =
  KTheorem | KLemma | KFact | KRemark | KCorollary | KProposition | KDefinition

definition terminator :: "declaration_kind \<Rightarrow> string" where
  "terminator k = (if k = KDefinition then ''Defined.'' else ''Qed.'')"

fun keyword :: "declaration_kind \<Rightarrow> string" where
  "keyword KTheorem = ''Theorem''"
| "keyword KLemma = ''Lemma''"
| "keyword KFact = ''Fact''"
| "keyword KRemark = ''Remark''"
| "keyword KCorollary = ''Corollary''"
| "keyword KProposition = ''Proposition''"
| "keyword KDefinition = ''Definition''"

record declaration_info =
  identity :: declaration_identity
  kind :: declaration_kind
  statement :: string

section \<open>Goals\<close>

type_synonym evar = "json list"

record goal_stack_frame =
  frame_left :: "evar list"
  frame_right :: "evar list"

record goal_focus =
  gf_focused :: "evar list"
  gf_stack :: "goal_stack_frame list"
  gf_shelved :: "evar list"
  gf_given_up :: "evar list"
  gf_next_bullet :: "string option"

record goal_hypothesis =
  hyp_names :: "string list"
  hyp_definition :: "string option"
  hyp_ty :: string

record goal_detail =
  gd_evar :: evar
  gd_name :: "string option"
  gd_hypotheses :: "goal_hypothesis list"
  gd_ty :: string

record goal_stack_detail =
  detail_left :: "goal_detail list"
  detail_right :: "goal_detail list"

record structured_goals =
  sg_focused :: "goal_detail list"
  sg_stack :: "goal_stack_detail list"
  sg_unfocused :: "goal_detail list"
  sg_shelved :: "goal_detail list"
  sg_given_up :: "goal_detail list"
  sg_next_bullet :: "string option"

definition structured_total_count :: "structured_goals \<Rightarrow> nat" where
  "structured_total_count g = length (sg_focused g) + length (sg_unfocused g)
     + length (sg_shelved g) + length (sg_given_up g)"

datatype goal_scope = Focused | Unfocused | Shelved | GivenUp | AllGoals

definition unfocused_count :: "goal_focus \<Rightarrow> nat" where
  "unfocused_count g = sum_list (map (\<lambda>f. length (frame_left f) + length (frame_right f)) (gf_stack g))"

definition total_count :: "goal_focus \<Rightarrow> nat" where
  "total_count g = length (gf_focused g) + unfocused_count g + length (gf_shelved g)
     + length (gf_given_up g)"

definition focus_depth :: "goal_focus \<Rightarrow> nat" where
  "focus_depth g = length (gf_stack g)"

record proof_state =
  ps_theorem :: declaration_info
  ps_lifecycle :: proof_lifecycle
  ps_goals :: string
  ps_goal_focus :: goal_focus
  ps_structured_goals :: "structured_goals option"

record symbol_location =
  sl_identity :: declaration_identity
  sl_qualified_name :: string
  sl_kind :: declaration_kind
  sl_statement :: string
  sl_require_import :: string
  sl_match_kind :: string

section \<open>Targets, steps and queries\<close>

record pet_range =
  pr_start :: nat
  pr_end :: nat

record source_anchor =
  anchor_source :: path
  anchor_digest :: digest
  anchor_header :: pet_range
  anchor_declaration :: pet_range
  replaceable :: bool

record declaration_target =
  info :: declaration_info
  anchor :: source_anchor
  new_header :: "string option"

definition target_identity :: "declaration_target \<Rightarrow> declaration_identity" where
  "target_identity t = identity (info t)"

definition is_new :: "declaration_target \<Rightarrow> bool" where
  "is_new t \<longleftrightarrow> new_header t \<noteq> None"

record opened_proof =
  op_target :: declaration_target
  op_state :: pet_state_id
  op_view :: proof_state
  op_finished :: bool

datatype open_result = OpenProof opened_proof | Published declaration_target

record proof_step =
  st_state :: pet_state_id
  st_view :: proof_state
  st_finished :: bool

record proof_trace_step =
  sentence_index :: nat
  byte_range :: proof_diagnostic
  tr_command :: string

record proof_failure =
  pf_error :: err
  pf_sentence_index :: nat
  pf_sentence_range :: proof_diagnostic
  pf_before :: proof_state
  pf_trace :: "proof_trace_step list"

datatype traced_proof_step = TracedSuccess proof_step | TracedFailure proof_failure

datatype pet_query =
    Search string | About string | Print string | Assumptions string | Dependencies string
  | ExpressionType string | Notation string

record artifact_fingerprint =
  af_source :: digest
  af_vo :: "digest option"
  af_glob :: "digest option"

end
