(* ===== verification/Pet_Results.thy ===== *)
theory Pet_Results
  imports Rocq_Types
begin

text \<open>
  The pure part of \<open>rocq-engine/src/pet\<close>: the error classes of the PET client and their public
  projection (\<open>pet/mod.rs\<close>), and the decoders of \<open>pet/results.rs\<close> for run, feedback and goal
  responses. Decoders fail closed: a value of the wrong shape is a \<open>Protocol\<close> error.
\<close>

section \<open>Errors of the PET client\<close>

datatype pet_remote_kind =
    MethodNotFound | Interrupted | Parsing | Coq | Anomaly | System | TheoremNotFound
  | NoNodeAtPoint | ReferenceNotFound | UnknownCode int

definition from_code :: "int \<Rightarrow> pet_remote_kind" where
  "from_code code =
     (if code = -32601 then MethodNotFound
      else if code = -32001 then Interrupted
      else if code = -32002 then Parsing
      else if code = -32003 then Coq
      else if code = -32004 then Anomaly
      else if code = -32005 then System
      else if code = -32006 then TheoremNotFound
      else if code = -32007 then NoNodeAtPoint
      else if code = -32008 then ReferenceNotFound
      else UnknownCode code)"

fun kind_is_semantic :: "pet_remote_kind \<Rightarrow> bool" where
  "kind_is_semantic Interrupted = True"
| "kind_is_semantic Parsing = True"
| "kind_is_semantic Coq = True"
| "kind_is_semantic TheoremNotFound = True"
| "kind_is_semantic NoNodeAtPoint = True"
| "kind_is_semantic ReferenceNotFound = True"
| "kind_is_semantic _ = False"

datatype pet_error =
    Invalid string
  | Environment string
  | Cancelled
  | TimedOut u64
  | ProcessLost string
  | Protocol string
  | OutputOverflow
  | Remote int pet_remote_kind string "proof_diagnostic option"

fun is_transport_loss :: "pet_error \<Rightarrow> bool" where
  "is_transport_loss (ProcessLost _) = True"
| "is_transport_loss (Protocol _) = True"
| "is_transport_loss OutputOverflow = True"
| "is_transport_loss _ = False"

definition invalidates_process :: "pet_error \<Rightarrow> bool" where
  "invalidates_process e \<longleftrightarrow>
     is_transport_loss e \<or> (case e of Cancelled \<Rightarrow> True | TimedOut _ \<Rightarrow> True | _ \<Rightarrow> False)"

definition is_internal_failure :: "pet_error \<Rightarrow> bool" where
  "is_internal_failure e \<longleftrightarrow>
     (case e of
        Remote _ k _ _ \<Rightarrow> (case k of Anomaly \<Rightarrow> True | System \<Rightarrow> True | UnknownCode _ \<Rightarrow> True | _ \<Rightarrow> False)
      | _ \<Rightarrow> False)"

definition pet_is_semantic :: "pet_error \<Rightarrow> bool" where
  "pet_is_semantic e \<longleftrightarrow> (case e of Remote _ k _ _ \<Rightarrow> kind_is_semantic k | _ \<Rightarrow> False)"

definition lost :: "pet_error \<Rightarrow> bool" where
  "lost e \<longleftrightarrow> is_transport_loss e"

definition is_ascii_digit :: "char \<Rightarrow> bool" where
  "is_ascii_digit c \<longleftrightarrow> between 48 57 c"

text \<open>
  The redaction loop of \<open>neutralize_transport_detail\<close> walks over \<open>char\<close>s; only ASCII is compared
  and the six characters it replaces are ASCII, so walking over bytes is the same.
\<close>

function redact_codes :: "string \<Rightarrow> string" where
  "redact_codes [] = []"
| "redact_codes (c # s) =
     (if c = CHR ''-'' \<and> 5 \<le> length s \<and> list_all is_ascii_digit (take 5 s)
      then ''(internal error code)'' @ redact_codes (drop 5 s)
      else c # redact_codes s)"
  by pat_completeness auto
termination by (relation "measure length") auto

declare redact_codes.simps(2) [simp del]

definition neutralize_transport_detail :: "string \<Rightarrow> string" where
  "neutralize_transport_detail message =
     redact_codes (str_replace ''PET'' ''prover'' (str_replace ''petanque'' ''prover protocol'' message))"

fun public_message :: "pet_error \<Rightarrow> string" where
  "public_message (Invalid m) = neutralize_transport_detail m"
| "public_message (Environment m) = neutralize_transport_detail m"
| "public_message (ProcessLost m) = neutralize_transport_detail m"
| "public_message Cancelled = ''request cancelled''"
| "public_message (TimedOut ms) = ''proof fragment exceeded '' @ show_nat (unat ms) @ '' ms''"
| "public_message (Protocol _) = ''received an invalid response''"
| "public_message OutputOverflow = ''response exceeded the output limit''"
| "public_message (Remote _ MethodNotFound _ _) = ''a required operation is not supported''"
| "public_message (Remote _ Anomaly _ _) = ''internal proof execution anomaly''"
| "public_message (Remote _ System _ _) = ''proof execution system failure''"
| "public_message (Remote _ (UnknownCode _) _ _) = ''unrecognized proof execution failure''"
| "public_message (Remote _ _ m _) = m"

section \<open>Decoders\<close>

record run_result =
  rr_st :: u64
  rr_proof_finished :: bool

record pet_hypothesis =
  ph_names :: "string list"
  ph_definition :: "string option"
  ph_ty :: string

record pet_goal =
  pg_evar :: "json list"
  pg_name :: "string option"
  pg_hypotheses :: "pet_hypothesis list"
  pg_ty :: string

record pet_goal_stack_frame =
  pf_left :: "pet_goal list"
  pf_right :: "pet_goal list"

record pet_goals =
  pgs_focused :: "pet_goal list"
  pgs_stack :: "pet_goal_stack_frame list"
  pgs_shelved :: "pet_goal list"
  pgs_given_up :: "pet_goal list"
  pgs_bullet :: "string option"
  pgs_proof_mode :: bool

definition outside_proof :: pet_goals where
  "outside_proof = \<lparr>pgs_focused = [], pgs_stack = [], pgs_shelved = [], pgs_given_up = [],
     pgs_bullet = None, pgs_proof_mode = False\<rparr>"

definition goal_ids :: "pet_goal list \<Rightarrow> evar list" where
  "goal_ids goals = map pg_evar goals"

definition pet_focus :: "pet_goals \<Rightarrow> goal_focus" where
  "pet_focus g =
     \<lparr>gf_focused = goal_ids (pgs_focused g),
      gf_stack = map (\<lambda>f. \<lparr>frame_left = goal_ids (pf_left f), frame_right = goal_ids (pf_right f)\<rparr>)
        (pgs_stack g),
      gf_shelved = goal_ids (pgs_shelved g),
      gf_given_up = goal_ids (pgs_given_up g),
      gf_next_bullet = pgs_bullet g\<rparr>"

definition parse_run_result :: "json \<Rightarrow> pet_error + run_result" where
  "parse_run_result value =
     result_bind (ok_or (Protocol ''PET run result is not an object'') (as_object value)) (\<lambda>object.
     result_bind (ok_or (Protocol ''PET run result has no state id'')
       (Option.bind (bt_get object ''st'') as_u64)) (\<lambda>st.
     result_bind (ok_or (Protocol ''PET run result has no proof status'')
       (Option.bind (bt_get object ''proof_finished'') as_bool)) (\<lambda>fin.
     Inr \<lparr>rr_st = st, rr_proof_finished = fin\<rparr>)))"

definition HINT_SEVERITY :: int where
  "HINT_SEVERITY = 4"

definition parse_feedback_item :: "json \<Rightarrow> pet_error + int \<times> string" where
  "parse_feedback_item item =
     result_bind (ok_or (Protocol ''PET feedback item is not a pair'') (as_array item)) (\<lambda>pair.
     (case pair of
        [level, message] \<Rightarrow>
          result_bind (ok_or (Protocol ''PET feedback level is invalid'') (as_i64 level)) (\<lambda>l.
          result_bind (ok_or (Protocol ''PET feedback message is invalid'') (as_str message)) (\<lambda>m.
          Inr (l, m)))
      | _ \<Rightarrow> Inl (Protocol ''PET feedback item is not a pair'')))"

definition parse_feedback :: "json \<Rightarrow> pet_error + string" where
  "parse_feedback value =
     result_bind (ok_or (Protocol ''PET run result has no feedback'')
       (Option.bind (Option.bind (as_object value) (\<lambda>object. bt_get object ''feedback'')) as_array)) (\<lambda>feedback.
     result_bind (collect_results parse_feedback_item feedback) (\<lambda>items.
     Inr (join [CHR 0x0A] (map snd (filter (\<lambda>(level, message). level \<noteq> HINT_SEVERITY) items)))))"

text \<open>An optional string member: absent or null is \<open>None\<close>, anything but a string an error.\<close>

definition optional_str :: "pet_error \<Rightarrow> json option \<Rightarrow> pet_error + string option" where
  "optional_str e v =
     (case v of None \<Rightarrow> Inr None | Some JNull \<Rightarrow> Inr None | Some (JString s) \<Rightarrow> Inr (Some s)
      | Some _ \<Rightarrow> Inl e)"

definition parse_hypothesis :: "json \<Rightarrow> pet_error + pet_hypothesis" where
  "parse_hypothesis value =
     result_bind (ok_or (Protocol ''PET hypothesis is not an object'') (as_object value)) (\<lambda>object.
     result_bind (ok_or (Protocol ''PET hypothesis has no names'')
       (Option.bind (bt_get object ''names'') as_array)) (\<lambda>names.
     result_bind (collect_results
       (\<lambda>v. ok_or (Protocol ''PET hypothesis name is invalid'') (as_str v)) names) (\<lambda>names.
     result_bind (optional_str (Protocol ''PET hypothesis definition is invalid'') (bt_get object ''def'')) (\<lambda>d.
     result_bind (ok_or (Protocol ''PET hypothesis has no type'')
       (Option.bind (bt_get object ''ty'') as_str)) (\<lambda>ty.
     Inr \<lparr>ph_names = names, ph_definition = d, ph_ty = ty\<rparr>)))))"

definition parse_goal :: "json \<Rightarrow> pet_error + pet_goal" where
  "parse_goal value =
     result_bind (ok_or (Protocol ''PET goal is not an object'') (as_object value)) (\<lambda>object.
     result_bind (ok_or (Protocol ''PET goal has no info'')
       (Option.bind (bt_get object ''info'') as_object)) (\<lambda>info.
     result_bind (ok_or (Protocol ''PET goal has no evar'')
       (Option.bind (bt_get info ''evar'') as_array)) (\<lambda>evar.
     if evar = [] then Inl (Protocol ''PET goal has an empty evar id'') else
     result_bind (optional_str (Protocol ''PET goal name is invalid'') (bt_get info ''name'')) (\<lambda>name.
     result_bind (ok_or (Protocol ''PET goal has no hypotheses'')
       (Option.bind (bt_get object ''hyps'') as_array)) (\<lambda>hyps.
     result_bind (collect_results parse_hypothesis hyps) (\<lambda>hypotheses.
     result_bind (ok_or (Protocol ''PET goal has no type'')
       (Option.bind (bt_get object ''ty'') as_str)) (\<lambda>ty.
     Inr \<lparr>pg_evar = evar, pg_name = name, pg_hypotheses = hypotheses, pg_ty = ty\<rparr>)))))))"

definition parse_goal_collection :: "json option \<Rightarrow> pet_error + pet_goal list" where
  "parse_goal_collection value =
     (case value of
        None \<Rightarrow> Inl (Protocol ''PET goals result omits a goal collection'')
      | Some v \<Rightarrow>
          (case as_array v of
             None \<Rightarrow> Inl (Protocol ''PET goal collection is not an array'')
           | Some values \<Rightarrow> collect_results parse_goal values))"

definition parse_frame :: "json \<Rightarrow> pet_error + pet_goal_stack_frame" where
  "parse_frame frame =
     result_bind (ok_or (Protocol ''PET proof-stack frame is not a pair'') (as_array frame)) (\<lambda>pair.
     if length pair \<noteq> 2
     then Inl (Protocol ''PET proof-stack frame does not contain two goal lists'')
     else
       result_bind (parse_goal_collection (Some (pair ! 0))) (\<lambda>left.
       result_bind (parse_goal_collection (Some (pair ! 1))) (\<lambda>right.
       Inr \<lparr>pf_left = left, pf_right = right\<rparr>)))"

definition parse_goal_stack :: "json option \<Rightarrow> pet_error + pet_goal_stack_frame list" where
  "parse_goal_stack value =
     (case value of
        None \<Rightarrow> Inl (Protocol ''PET goals result omits the proof stack'')
      | Some v \<Rightarrow>
          (case as_array v of
             None \<Rightarrow> Inl (Protocol ''PET proof stack is not an array'')
           | Some frames \<Rightarrow> collect_results parse_frame frames))"

definition parse_goals :: "json \<Rightarrow> bool \<Rightarrow> pet_error + pet_goals" where
  "parse_goals value proof_mode =
     result_bind (ok_or (Protocol ''PET goals result is not an object'') (as_object value)) (\<lambda>object.
     result_bind (parse_goal_collection (bt_get object ''goals'')) (\<lambda>focused.
     result_bind (parse_goal_stack (bt_get object ''stack'')) (\<lambda>stack.
     result_bind (parse_goal_collection (bt_get object ''shelf'')) (\<lambda>shelved.
     result_bind (parse_goal_collection (bt_get object ''given_up'')) (\<lambda>given_up.
     result_bind (optional_str (Protocol ''PET goal bullet is invalid'') (bt_get object ''bullet'')) (\<lambda>bullet.
     Inr \<lparr>pgs_focused = focused, pgs_stack = stack, pgs_shelved = shelved, pgs_given_up = given_up,
       pgs_bullet = bullet, pgs_proof_mode = proof_mode\<rparr>))))))"

definition decode_goals :: "json \<Rightarrow> pet_error + pet_goals" where
  "decode_goals value = (if is_null value then Inr outside_proof else parse_goals value True)"

section \<open>Rewriting of texts\<close>

text \<open>
  Both \<open>str::replace\<close> and the redaction loop scan from the left, replace what matches by a fixed
  text and copy the rest. The locale is that contract; its lemma says when such a scan leaves no
  occurrence of a word: the inserted text must not overlap the word.
\<close>

definition borderless :: "string \<Rightarrow> string \<Rightarrow> bool" where
  "borderless r q \<longleftrightarrow>
     (\<forall>b \<in> set (suffixes q). b \<noteq> [] \<longrightarrow> \<not> prefix b r \<and> \<not> prefix r b)
     \<and> (\<forall>t \<in> set (suffixes r). t \<noteq> [] \<longrightarrow> \<not> prefix t q)
     \<and> \<not> sublist q r"

lemma borderless_disjoint:
  assumes "set r \<inter> set q = {}" "r \<noteq> []" "q \<noteq> []"
  shows "borderless r q"
proof -
  have "\<not> prefix b r \<and> \<not> prefix r b" if "suffix b q" "b \<noteq> []" for b
    using that assms by (cases r; cases b) (auto dest!: set_mono_suffix)
  moreover have "\<not> prefix t q" if "suffix t r" "t \<noteq> []" for t
    using that assms by (cases t; cases q) (auto dest!: set_mono_suffix)
  moreover have "\<not> sublist q r"
    using assms set_mono_sublist [of q r] by (cases q) auto
  ultimately show ?thesis by (simp add: borderless_def)
qed

locale text_rewriter =
  fixes f :: "string \<Rightarrow> string" and r :: string and match_len :: "string \<Rightarrow> nat option"
  assumes f_nil: "f [] = []"
    and f_cons: "f (c # s) =
      (case match_len (c # s) of Some k \<Rightarrow> r @ f (drop k (c # s)) | None \<Rightarrow> c # f s)"
    and match_pos: "match_len s = Some k \<Longrightarrow> 0 < k"
begin

lemma prefix_copied:
  assumes "borderless r q" "suffix q' q" "prefix q' (f s)"
  shows "prefix q' s"
  using assms(2,3)
proof (induction s arbitrary: q' rule: length_induct)
  case (1 s)
  show ?case
  proof (cases s)
    case Nil
    with 1 show ?thesis by (simp add: f_nil)
  next
    case (Cons c t)
    show ?thesis
    proof (cases "match_len (c # t)")
      case None
      with 1 Cons have pre: "prefix q' (c # f t)" by (simp add: f_cons)
      show ?thesis
      proof (cases q')
        case q': (Cons d q'')
        with pre have "prefix q'' (f t)" "d = c" by auto
        moreover have "suffix q'' q" using 1(2) q' by (metis suffix_ConsD)
        ultimately show ?thesis using 1 Cons q' by auto
      qed simp
    next
      case (Some k)
      with 1 Cons have "prefix q' (r @ f (drop k (c # t)))" by (simp add: f_cons)
      then have "prefix q' r \<or> prefix r q'" by (auto simp: prefix_append)
      with assms(1) 1(2) have "q' = []" by (auto simp: borderless_def)
      then show ?thesis by simp
    qed
  qed
qed

lemma word_gone:
  assumes border: "borderless r q" and q: "q \<noteq> []"
    and clean: "\<And>u. suffix u s \<Longrightarrow> match_len u = None \<Longrightarrow> \<not> prefix q u"
  shows "\<not> sublist q (f s)"
  using clean
proof (induction s rule: length_induct)
  case (1 s)
  show ?case
  proof (cases s)
    case Nil
    with q show ?thesis by (simp add: f_nil)
  next
    case (Cons c t)
    show ?thesis
    proof (cases "match_len (c # t)")
      case None
      have "\<not> sublist q (f t)" using 1 Cons by (simp add: suffix_ConsI)
      moreover have "\<not> prefix q (c # t)" using 1(2) [of "c # t"] Cons None by simp
      then have "\<not> prefix q (f (c # t))" using prefix_copied [OF border, of q "c # t"] by auto
      ultimately show ?thesis using Cons None by (simp add: f_cons sublist_Cons_right)
    next
      case (Some k)
      let ?u = "drop k (c # t)"
      have "length ?u < length s" using match_pos [OF Some] Cons by simp
      moreover have "suffix u s" if "suffix u ?u" for u
        using that Cons suffix_drop suffix_order.trans by blast
      ultimately have no: "\<not> sublist q (f ?u)" using 1 by blast
      show ?thesis
      proof
        assume "sublist q (f s)"
        then have "sublist q (r @ f ?u)" using Cons Some by (simp add: f_cons)
        then consider "sublist q r" | "sublist q (f ?u)"
          | xs ys where "q = xs @ ys" "suffix xs r" "prefix ys (f ?u)"
          by (auto simp: sublist_append)
        then show False
        proof cases
          case (3 xs ys)
          with border have "xs = []" by (auto simp: borderless_def)
          with 3 no show ?thesis by (simp add: prefix_imp_sublist)
        qed (use border no in \<open>simp_all add: borderless_def\<close>)
      qed
    qed
  qed
qed

lemma word_absent:
  assumes "borderless r q" "q \<noteq> []" "\<not> sublist q s"
  shows "\<not> sublist q (f s)"
  using assms(1,2)
proof (rule word_gone)
  fix u assume "suffix u s"
  then show "\<not> prefix q u"
    using assms(3) by (auto simp: sublist_def prefix_def suffix_def)
qed

end

definition match_word :: "string \<Rightarrow> string \<Rightarrow> nat option" where
  "match_word p s = (if prefix p s then Some (length p) else None)"

definition match_code :: "string \<Rightarrow> nat option" where
  "match_code s = (if 6 \<le> length s \<and> hd s = CHR ''-'' \<and> list_all is_ascii_digit (take 5 (tl s))
     then Some 6 else None)"

lemma str_replace_rewrites:
  "p \<noteq> [] \<Longrightarrow> text_rewriter (str_replace p r) r (match_word p)"
  by unfold_locales (auto simp: str_replace.simps(2) match_word_def split: if_splits)

interpretation petanque: text_rewriter
  "str_replace ''petanque'' ''prover protocol''" "''prover protocol''" "match_word ''petanque''"
  by (rule str_replace_rewrites) simp

interpretation product: text_rewriter "str_replace ''PET'' ''prover''" "''prover''" "match_word ''PET''"
  by (rule str_replace_rewrites) simp

interpretation codes: text_rewriter redact_codes "''(internal error code)''" match_code
  by unfold_locales (auto simp: redact_codes.simps(2) match_code_def split: if_splits)

section \<open>What public messages reveal\<close>

lemma neutralize_no_product: "\<not> sublist ''PET'' (neutralize_transport_detail m)"
proof -
  let ?s = "str_replace ''petanque'' ''prover protocol'' m"
  have "borderless ''prover'' ''PET''" by (rule borderless_disjoint) auto
  then have "\<not> sublist ''PET'' (str_replace ''PET'' ''prover'' ?s)"
    by (rule product.word_gone) (auto simp: match_word_def split: if_splits)
  moreover have "borderless ''(internal error code)'' ''PET''" by (rule borderless_disjoint) auto
  ultimately show ?thesis
    unfolding neutralize_transport_detail_def by (intro codes.word_absent) simp_all
qed

lemma neutralize_no_petanque: "\<not> sublist ''petanque'' (neutralize_transport_detail m)"
proof -
  have "borderless ''prover protocol'' ''petanque''" by code_simp
  then have "\<not> sublist ''petanque'' (str_replace ''petanque'' ''prover protocol'' m)"
    by (rule petanque.word_gone) (auto simp: match_word_def split: if_splits)
  moreover have "borderless ''prover'' ''petanque''" by code_simp
  ultimately have "\<not> sublist ''petanque''
      (str_replace ''PET'' ''prover'' (str_replace ''petanque'' ''prover protocol'' m))"
    by (intro product.word_absent) simp_all
  moreover have "borderless ''(internal error code)'' ''petanque''" by code_simp
  ultimately show ?thesis
    unfolding neutralize_transport_detail_def by (intro codes.word_absent) simp_all
qed

lemma neutralize_no_code:
  assumes "length ds = 5" "list_all is_ascii_digit ds"
  shows "\<not> sublist (CHR ''-'' # ds) (neutralize_transport_detail m)"
  unfolding neutralize_transport_detail_def
proof (rule codes.word_gone)
  have "set ds \<inter> set ''(internal error code)'' = {}"
    using assms(2) by (auto simp: list_all_iff is_ascii_digit_def between_def byte_def)
  then show "borderless ''(internal error code)'' (CHR ''-'' # ds)"
    by (intro borderless_disjoint) auto
next
  fix u assume "match_code u = None"
  then show "\<not> prefix (CHR ''-'' # ds) u"
    using assms by (auto simp: match_code_def prefix_def split: if_splits)
qed simp

lemma show_nat_digits: "list_all is_ascii_digit (show_nat n)"
proof (induction n rule: show_nat.induct)
  case (1 n)
  have "is_ascii_digit (char_of (48 + d))" if "d < 10" for d :: nat
    using that by (simp add: is_ascii_digit_def between_def byte_def)
  with 1 show ?case by (subst show_nat.simps) auto
qed

definition neutral_text :: "string \<Rightarrow> bool" where
  "neutral_text s \<longleftrightarrow> \<not> sublist ''PET'' s \<and> \<not> sublist ''petanque'' s
     \<and> (\<forall>ds. length ds = 5 \<and> list_all is_ascii_digit ds \<longrightarrow> \<not> sublist (CHR ''-'' # ds) s)"

lemma neutralize_neutral: "neutral_text (neutralize_transport_detail m)"
  by (simp add: neutral_text_def neutralize_no_product neutralize_no_petanque neutralize_no_code)

lemma neutral_by_chars:
  "CHR ''P'' \<notin> set s \<Longrightarrow> CHR ''-'' \<notin> set s \<Longrightarrow> \<not> sublist ''petanque'' s \<Longrightarrow> neutral_text s"
  unfolding neutral_text_def by (auto dest!: set_mono_sublist)

lemma neutral_constants:
  "neutral_text ''a required operation is not supported''"
  "neutral_text ''internal proof execution anomaly''"
  "neutral_text ''proof execution system failure''"
  "neutral_text ''unrecognized proof execution failure''"
  "neutral_text ''received an invalid response''"
  "neutral_text ''request cancelled''"
  "neutral_text ''response exceeded the output limit''"
  by (rule neutral_by_chars; code_simp)+

lemma neutral_deadline: "neutral_text (''proof fragment exceeded '' @ show_nat n @ '' ms'')"
proof -
  let ?s = "''proof fragment exceeded '' @ show_nat n @ '' ms''"
  have "c \<notin> set (show_nat n)" if "c \<in> {CHR ''P'', CHR ''q'', CHR ''-''}" for c
    using that show_nat_digits [of n]
    by (auto simp: list_all_iff is_ascii_digit_def between_def byte_def)
  then have "CHR ''P'' \<notin> set ?s" "CHR ''-'' \<notin> set ?s" "CHR ''q'' \<notin> set ?s" by simp_all
  moreover from this(3) have "\<not> sublist ''petanque'' ?s"
    using set_mono_sublist [of "''petanque''" ?s] by (metis insert_subset list.simps(15))
  ultimately show ?thesis by (intro neutral_by_chars)
qed

lemma remote_public_message:
  "public_message (Remote code k m d) =
     (if kind_is_semantic k then m else public_message (Remote code k [] d))"
  by (cases k) simp_all

lemma remote_public_neutral:
  "\<not> kind_is_semantic k \<Longrightarrow> neutral_text (public_message (Remote code k m d))"
  by (cases k) (simp_all only: public_message.simps neutral_constants kind_is_semantic.simps not_True_eq_False)

text \<open>
  What a public message reveals. The message of a semantic rejection is Rocq's text, verbatim;
  the message of every other failure names neither the prover's product nor its protocol, and has
  no five-digit JSON-RPC code, whatever text the transport produced.
\<close>

theorem public_message_neutral:
  "(\<forall>code k m d. e = Remote code k m d \<and> kind_is_semantic k \<longrightarrow> public_message e = m)
   \<and> (\<not> pet_is_semantic e \<longrightarrow> neutral_text (public_message e))"
proof (cases e)
  case (Remote code k m d)
  then show ?thesis
    using remote_public_message [of code k m d] remote_public_neutral [of k code m d]
    by (simp add: pet_is_semantic_def)
qed (simp_all add: neutralize_neutral neutral_constants neutral_deadline del: append_Cons)

theorem public_message_neutral_witness:
  "\<not> pet_is_semantic (ProcessLost ''PET petanque connection failed: Broken pipe (-32008)'')
   \<and> neutral_text (public_message (ProcessLost ''PET petanque connection failed: Broken pipe (-32008)''))
   \<and> public_message (Remote (-32003) Coq ''No such goal.'' None) = ''No such goal.''"
proof -
  have "\<not> pet_is_semantic (ProcessLost ''PET petanque connection failed: Broken pipe (-32008)'')"
    by (simp add: pet_is_semantic_def)
  moreover from this public_message_neutral
  have "neutral_text (public_message (ProcessLost ''PET petanque connection failed: Broken pipe (-32008)''))"
    by blast
  moreover have "kind_is_semantic Coq" by simp
  then have "public_message (Remote (-32003) Coq ''No such goal.'' None) = ''No such goal.''"
    using public_message_neutral [of "Remote (-32003) Coq ''No such goal.'' None"] by blast
  ultimately show ?thesis by blast
qed

section \<open>Goal responses\<close>

text \<open>The wire form of PET's goals, as the decoder documents it.\<close>

definition encode_hypothesis :: "pet_hypothesis \<Rightarrow> json" where
  "encode_hypothesis h = json_obj [(''names'', JArray (map JString (ph_names h))),
     (''def'', json_opt JString (ph_definition h)), (''ty'', JString (ph_ty h))]"

definition encode_goal :: "pet_goal \<Rightarrow> json" where
  "encode_goal g = json_obj
     [(''info'', json_obj [(''evar'', JArray (pg_evar g)), (''name'', json_opt JString (pg_name g))]),
      (''hyps'', JArray (map encode_hypothesis (pg_hypotheses g))), (''ty'', JString (pg_ty g))]"

definition encode_frame :: "pet_goal_stack_frame \<Rightarrow> json" where
  "encode_frame f = JArray [JArray (map encode_goal (pf_left f)), JArray (map encode_goal (pf_right f))]"

definition encode_goals :: "pet_goals \<Rightarrow> json" where
  "encode_goals g = json_obj
     [(''goals'', JArray (map encode_goal (pgs_focused g))),
      (''stack'', JArray (map encode_frame (pgs_stack g))),
      (''shelf'', JArray (map encode_goal (pgs_shelved g))),
      (''given_up'', JArray (map encode_goal (pgs_given_up g))),
      (''bullet'', json_opt JString (pgs_bullet g))]"

definition all_goals :: "pet_goals \<Rightarrow> pet_goal list" where
  "all_goals g = pgs_focused g @ concat (map (\<lambda>f. pf_left f @ pf_right f) (pgs_stack g))
     @ pgs_shelved g @ pgs_given_up g"

lemma optional_str_opt [simp]: "optional_str e (Some (json_opt JString x)) = Inr x"
  by (cases x) (simp_all add: optional_str_def json_opt_def)

lemma parse_hypothesis_encode: "parse_hypothesis (encode_hypothesis h) = Inr h"
  by (simp add: parse_hypothesis_def encode_hypothesis_def collect_results_map)

lemma parse_goal_encode: "pg_evar g \<noteq> [] \<Longrightarrow> parse_goal (encode_goal g) = Inr g"
  by (simp add: parse_goal_def encode_goal_def collect_results_map parse_hypothesis_encode)

lemma parse_goal_collection_encode:
  "\<forall>g \<in> set gs. pg_evar g \<noteq> [] \<Longrightarrow> parse_goal_collection (Some (JArray (map encode_goal gs))) = Inr gs"
  by (simp add: parse_goal_collection_def collect_results_map parse_goal_encode)

lemma parse_frame_encode:
  "\<forall>g \<in> set (pf_left f @ pf_right f). pg_evar g \<noteq> [] \<Longrightarrow> parse_frame (encode_frame f) = Inr f"
  by (simp add: parse_frame_def encode_frame_def parse_goal_collection_encode)

lemma parse_goal_stack_encode:
  "\<forall>f \<in> set fs. \<forall>g \<in> set (pf_left f @ pf_right f). pg_evar g \<noteq> [] \<Longrightarrow>
   parse_goal_stack (Some (JArray (map encode_frame fs))) = Inr fs"
  unfolding parse_goal_stack_def by (simp add: collect_results_map parse_frame_encode)

text \<open>Decoding fails closed: every failure is a protocol error.\<close>

definition fails_closed :: "pet_error + 'a \<Rightarrow> bool" where
  "fails_closed r \<longleftrightarrow> (\<forall>e. r = Inl e \<longrightarrow> (\<exists>m. e = Protocol m))"

lemma fails_closed_bind:
  "fails_closed r \<Longrightarrow> (\<And>x. r = Inr x \<Longrightarrow> fails_closed (f x)) \<Longrightarrow> fails_closed (result_bind r f)"
  by (cases r) (auto simp: fails_closed_def)

lemma fails_closed_simps [simp]:
  "fails_closed (Inr x)" "fails_closed (Inl (Protocol m))" "fails_closed (ok_or (Protocol m) v)"
  "fails_closed (optional_str (Protocol m) w)"
  by (auto simp: fails_closed_def optional_str_def split: option.splits json.splits)

lemma fails_closed_collect: "(\<And>x. fails_closed (f x)) \<Longrightarrow> fails_closed (collect_results f xs)"
  using collect_results_Inl by (fastforce simp: fails_closed_def)

lemmas closed_rules = fails_closed_bind fails_closed_collect fails_closed_simps

lemma parse_hypothesis_closed: "fails_closed (parse_hypothesis v)"
  unfolding parse_hypothesis_def by (intro closed_rules)

lemma parse_goal_closed: "fails_closed (parse_goal v)"
  unfolding parse_goal_def
  by (intro closed_rules parse_hypothesis_closed) (auto intro!: closed_rules parse_hypothesis_closed)

lemma parse_goal_collection_closed: "fails_closed (parse_goal_collection v)"
  unfolding parse_goal_collection_def
  by (auto split: option.splits intro!: fails_closed_collect parse_goal_closed)

lemma parse_goal_stack_closed: "fails_closed (parse_goal_stack v)"
  unfolding parse_goal_stack_def parse_frame_def
  by (auto split: option.splits intro!: closed_rules parse_goal_collection_closed)

lemma decode_goals_closed: "fails_closed (decode_goals v)"
  unfolding decode_goals_def parse_goals_def
  by (auto intro!: closed_rules parse_goal_collection_closed parse_goal_stack_closed)

lemma parse_goal_evar: "parse_goal v = Inr g \<Longrightarrow> pg_evar g \<noteq> []"
  by (auto simp: parse_goal_def split: if_splits)

lemma parse_goal_collection_evar:
  "parse_goal_collection v = Inr gs \<Longrightarrow> g \<in> set gs \<Longrightarrow> pg_evar g \<noteq> []"
  unfolding parse_goal_collection_def
  by (auto split: option.splits dest!: collect_results_in dest: parse_goal_evar)

lemma parse_frame_evar:
  "parse_frame v = Inr f \<Longrightarrow> g \<in> set (pf_left f @ pf_right f) \<Longrightarrow> pg_evar g \<noteq> []"
  unfolding parse_frame_def by (auto split: if_splits dest: parse_goal_collection_evar)

lemma parse_goal_stack_evar:
  "parse_goal_stack v = Inr fs \<Longrightarrow> f \<in> set fs \<Longrightarrow> g \<in> set (pf_left f @ pf_right f) \<Longrightarrow> pg_evar g \<noteq> []"
proof -
  assume "parse_goal_stack v = Inr fs" "f \<in> set fs" and g: "g \<in> set (pf_left f @ pf_right f)"
  then obtain w where "parse_frame w = Inr f"
    unfolding parse_goal_stack_def
    by (auto split: option.splits dest: collect_results_in)
  from parse_frame_evar [OF this g] show ?thesis .
qed

lemma decode_goals_evar: "decode_goals v = Inr g \<Longrightarrow> x \<in> set (all_goals g) \<Longrightarrow> pg_evar x \<noteq> []"
  unfolding decode_goals_def parse_goals_def all_goals_def
  by (auto simp: outside_proof_def split: if_splits
      dest: parse_goal_collection_evar parse_goal_stack_evar)

text \<open>
  C32. Goal responses are decoded exactly. Decoding the wire form of a goal view gives back that
  view, frame boundaries of the proof stack included; whatever the response, a failure is a protocol
  error (so the process is discarded) and a success has only goals with an evar identity; \<open>null\<close> is
  the view outside a proof.
\<close>

theorem goals_roundtrip:
  "(pgs_proof_mode g \<and> (\<forall>x \<in> set (all_goals g). pg_evar x \<noteq> []) \<longrightarrow>
      decode_goals (encode_goals g) = Inr g)
   \<and> (case decode_goals v of
        Inl e \<Rightarrow> invalidates_process e \<and> is_transport_loss e
      | Inr h \<Rightarrow> (\<forall>x \<in> set (all_goals h). pg_evar x \<noteq> []) \<and> (pgs_proof_mode h \<longleftrightarrow> v \<noteq> JNull))"
proof -
  have "decode_goals (encode_goals g) = Inr g"
    if "pgs_proof_mode g" "\<forall>x \<in> set (all_goals g). pg_evar x \<noteq> []"
    using that unfolding decode_goals_def parse_goals_def encode_goals_def all_goals_def
    by (subst parse_goal_stack_encode | simp add: parse_goal_collection_encode ball_Un)+
  moreover have "pgs_proof_mode h \<longleftrightarrow> v \<noteq> JNull" if "decode_goals v = Inr h" for h
    using that by (auto simp: decode_goals_def parse_goals_def outside_proof_def is_null_def split: if_splits)
  ultimately show ?thesis
    using decode_goals_evar [of v] decode_goals_closed [of v]
    by (auto simp: fails_closed_def invalidates_process_def split: sum.splits)
qed

theorem goals_roundtrip_witness:
  "decode_goals (encode_goals \<lparr>pgs_focused = [\<lparr>pg_evar = [JNull], pg_name = None,
       pg_hypotheses = [\<lparr>ph_names = [''n''], ph_definition = None, ph_ty = ''nat''\<rparr>], pg_ty = ''n = n''\<rparr>],
       pgs_stack = [], pgs_shelved = [], pgs_given_up = [], pgs_bullet = Some ''-'', pgs_proof_mode = True\<rparr>)
   = Inr \<lparr>pgs_focused = [\<lparr>pg_evar = [JNull], pg_name = None,
       pg_hypotheses = [\<lparr>ph_names = [''n''], ph_definition = None, ph_ty = ''nat''\<rparr>], pg_ty = ''n = n''\<rparr>],
       pgs_stack = [], pgs_shelved = [], pgs_given_up = [], pgs_bullet = Some ''-'', pgs_proof_mode = True\<rparr>"
  by (rule goals_roundtrip [THEN conjunct1, THEN mp]) (simp add: all_goals_def)

end
