(* ===== verification/Request.thy ===== *)
theory Request
  imports Rust_Prelude
begin

text \<open>
  \<open>rocq-engine/src/request.rs\<close>: the cancellation signal of one admitted request, an \<open>AtomicU8\<close>
  that the async layer (\<open>cancel\<close>, \<open>timeout\<close>) and the blocking worker (\<open>commit\<close>) race on, and the
  thread-local scope through which the engine reads it. The value is kept as a byte, so that the
  \<open>unreachable!\<close> branch of \<open>commit\<close> is a branch of the model (\<open>None\<close>) and its absence a theorem.
  A run is any interleaving of the atomic operations of both sides.
\<close>

type_synonym u8 = "8 word"

definition ACTIVE :: u8 where "ACTIVE = 0"
definition CANCELLED :: u8 where "CANCELLED = 1"
definition COMMITTED :: u8 where "COMMITTED = 2"
definition TIMED_OUT :: u8 where "TIMED_OUT = 3"

lemmas signal_defs [rust_defs] = ACTIVE_def CANCELLED_def COMMITTED_def TIMED_OUT_def

lemma signal_distinct [simp]:
  "ACTIVE \<noteq> CANCELLED" "ACTIVE \<noteq> COMMITTED" "ACTIVE \<noteq> TIMED_OUT" "CANCELLED \<noteq> ACTIVE"
  "CANCELLED \<noteq> COMMITTED" "CANCELLED \<noteq> TIMED_OUT" "COMMITTED \<noteq> ACTIVE" "COMMITTED \<noteq> CANCELLED"
  "COMMITTED \<noteq> TIMED_OUT" "TIMED_OUT \<noteq> ACTIVE" "TIMED_OUT \<noteq> CANCELLED" "TIMED_OUT \<noteq> COMMITTED"
  by (simp_all add: signal_defs)

section \<open>The signal\<close>

text \<open>\<open>AtomicU8::compare_exchange\<close>: \<open>Inr\<close> with the old value when it was the expected one.\<close>

definition compare_exchange :: "u8 \<Rightarrow> u8 \<Rightarrow> u8 \<Rightarrow> (u8 + u8) \<times> u8" where
  "compare_exchange expected new state =
     (if state = expected then (Inr state, new) else (Inl state, state))"

definition new_signal :: u8 where
  "new_signal = 0"

definition cancel :: "u8 \<Rightarrow> u8" where
  "cancel state = snd (compare_exchange ACTIVE CANCELLED state)"

definition timeout :: "u8 \<Rightarrow> u8" where
  "timeout state = snd (compare_exchange ACTIVE TIMED_OUT state)"

definition is_cancelled :: "u8 \<Rightarrow> bool" where
  "is_cancelled state \<longleftrightarrow> state = CANCELLED \<or> state = TIMED_OUT"

definition is_timed_out :: "u8 \<Rightarrow> bool" where
  "is_timed_out state \<longleftrightarrow> state = TIMED_OUT"

definition commit_signal :: "u8 \<Rightarrow> bool option \<times> u8" where
  "commit_signal state =
     (case compare_exchange ACTIVE COMMITTED state of
        (Inr _, state') \<Rightarrow> (Some True, state')
      | (Inl old, state') \<Rightarrow>
          (if old = COMMITTED then (Some True, state')
           else if old = CANCELLED \<or> old = TIMED_OUT then (Some False, state')
           else (None, state')))"

text \<open>The atomic operations of a run, with what each one observes.\<close>

datatype signal_op = OpCancel | OpTimeout | OpCommit | OpIsCancelled | OpIsTimedOut

fun apply_op :: "signal_op \<Rightarrow> u8 \<Rightarrow> bool option \<times> u8" where
  "apply_op OpCancel state = (Some True, cancel state)"
| "apply_op OpTimeout state = (Some True, timeout state)"
| "apply_op OpCommit state = commit_signal state"
| "apply_op OpIsCancelled state = (Some (is_cancelled state), state)"
| "apply_op OpIsTimedOut state = (Some (is_timed_out state), state)"

inductive signal_run :: "u8 \<Rightarrow> (signal_op \<times> bool option) list \<Rightarrow> u8 \<Rightarrow> bool" where
  run_nil: "signal_run s [] s"
| run_step: "signal_run s tr s' \<Longrightarrow> apply_op p s' = (r, s'') \<Longrightarrow> signal_run s (tr @ [(p, r)]) s''"

inductive_cases signal_run_snocE: "signal_run s (tr @ [x]) s'"

section \<open>What the signal promises\<close>

text \<open>The specification: the first claim of a run, if any, decides the signal for good.\<close>

definition claims :: "signal_op \<Rightarrow> bool" where
  "claims p \<longleftrightarrow> p = OpCancel \<or> p = OpTimeout \<or> p = OpCommit"

definition winner :: "(signal_op \<times> bool option) list \<Rightarrow> signal_op option" where
  "winner tr = find claims (map fst tr)"

fun signal_of :: "signal_op option \<Rightarrow> u8" where
  "signal_of (Some OpCancel) = CANCELLED"
| "signal_of (Some OpTimeout) = TIMED_OUT"
| "signal_of (Some OpCommit) = COMMITTED"
| "signal_of _ = ACTIVE"

text \<open>What the operation must observe when the winner so far is \<open>w\<close>.\<close>

fun observes :: "signal_op \<Rightarrow> signal_op option \<Rightarrow> bool" where
  "observes OpCommit w \<longleftrightarrow> w = Some OpCommit"
| "observes OpIsCancelled w \<longleftrightarrow> w = Some OpCancel \<or> w = Some OpTimeout"
| "observes OpIsTimedOut w \<longleftrightarrow> w = Some OpTimeout"
| "observes _ w \<longleftrightarrow> True"

lemma find_snoc:
  "find P (xs @ [x]) = (case find P xs of Some y \<Rightarrow> Some y | None \<Rightarrow> if P x then Some x else None)"
  by (induction xs) auto

lemma winner_snoc:
  "winner (tr @ [(p, r)]) =
     (case winner tr of Some w \<Rightarrow> Some w | None \<Rightarrow> if claims p then Some p else None)"
  by (simp add: winner_def find_snoc)

lemma winner_claims: "winner tr = Some w \<Longrightarrow> claims w"
  by (auto simp: winner_def find_Some_iff)

text \<open>A claim is a winner only if it is one of the three claiming operations.\<close>

lemma apply_op_winner:
  assumes "winner tr = w" and "apply_op p (signal_of w) = (r, s')"
  shows "r = Some (observes p (winner (tr @ [(p, r)]))) \<and> s' = signal_of (winner (tr @ [(p, r)]))"
proof (cases w)
  case None
  with assms show ?thesis
    by (cases p)
       (auto simp: winner_snoc claims_def cancel_def timeout_def commit_signal_def compare_exchange_def
          is_cancelled_def is_timed_out_def)
next
  case (Some v)
  then have "v = OpCancel \<or> v = OpTimeout \<or> v = OpCommit"
    using assms(1) winner_claims by (auto simp: claims_def)
  with assms Some show ?thesis
    by (cases p)
       (auto simp: winner_snoc cancel_def timeout_def commit_signal_def compare_exchange_def
          is_cancelled_def is_timed_out_def)
qed

lemma signal_run_winner:
  "signal_run s tr s' \<Longrightarrow> s = new_signal \<Longrightarrow>
     s' = signal_of (winner tr)
     \<and> (\<forall>i < length tr. snd (tr ! i) = Some (observes (fst (tr ! i)) (winner (take (Suc i) tr))))"
proof (induction rule: signal_run.induct)
  case (run_nil s)
  then show ?case by (simp add: winner_def new_signal_def ACTIVE_def)
next
  case (run_step s tr s' p r s'')
  then have "apply_op p (signal_of (winner tr)) = (r, s'')" by simp
  from apply_op_winner [OF refl this] run_step show ?case
    by (auto simp: nth_append less_Suc_eq)
qed

lemma signal_run_exists: "\<exists>tr s'. map fst tr = ops \<and> signal_run s tr s'"
proof (induction ops rule: rev_induct)
  case Nil
  then show ?case using run_nil by auto
next
  case (snoc p ops)
  then obtain tr s' where "map fst tr = ops" "signal_run s tr s'" by blast
  moreover obtain r s'' where "apply_op p s' = (r, s'')" by fastforce
  ultimately show ?case
    by (intro exI [of _ "tr @ [(p, r)]"] exI [of _ s'']) (auto intro: run_step)
qed

text \<open>
  C21. Cancellation and commit have one atomic winner. For every interleaving of the atomic
  operations on a fresh signal: the signal ends as the first claim of the run left it; every
  \<open>commit\<close> answers (no \<open>unreachable!\<close>) and answers true exactly when the first claim up to it is a
  commit; \<open>is_cancelled\<close> and \<open>is_timed_out\<close> report exactly that the first claim was a cancellation
  or a deadline, or the deadline.
\<close>

theorem signal_single_winner:
  assumes "signal_run new_signal tr s"
  shows "s = signal_of (winner tr)
    \<and> (\<forall>i < length tr. snd (tr ! i) = Some (observes (fst (tr ! i)) (winner (take (Suc i) tr))))"
  using signal_run_winner [OF assms refl] .

theorem signal_single_winner_witness:
  "signal_run new_signal [(OpIsCancelled, Some False), (OpCommit, Some True), (OpCancel, Some True),
      (OpIsCancelled, Some False), (OpCommit, Some True)] COMMITTED
   \<and> COMMITTED = signal_of (winner [(OpIsCancelled, Some False), (OpCommit, Some True),
      (OpCancel, Some True), (OpIsCancelled, Some False), (OpCommit, Some True)])"
proof -
  note eval = new_signal_def signal_defs is_cancelled_def commit_signal_def cancel_def
    compare_exchange_def
  have "signal_run new_signal ([] @ [(OpIsCancelled, Some False)]) ACTIVE"
    by (rule run_step [OF run_nil]) (simp add: eval)
  then have "signal_run new_signal (([] @ [(OpIsCancelled, Some False)]) @ [(OpCommit, Some True)]) COMMITTED"
    by (rule run_step) (simp add: eval)
  then have "signal_run new_signal ((([] @ [(OpIsCancelled, Some False)]) @ [(OpCommit, Some True)])
      @ [(OpCancel, Some True)]) COMMITTED"
    by (rule run_step) (simp add: eval)
  then have "signal_run new_signal (((([] @ [(OpIsCancelled, Some False)]) @ [(OpCommit, Some True)])
      @ [(OpCancel, Some True)]) @ [(OpIsCancelled, Some False)]) COMMITTED"
    by (rule run_step) (simp add: eval)
  then have run: "signal_run new_signal ((((([] @ [(OpIsCancelled, Some False)]) @ [(OpCommit, Some True)])
      @ [(OpCancel, Some True)]) @ [(OpIsCancelled, Some False)]) @ [(OpCommit, Some True)]) COMMITTED"
    by (rule run_step) (simp add: eval)
  from signal_single_winner [OF run] run show ?thesis by simp
qed

section \<open>The request scope of a thread\<close>

text \<open>
  Signals live behind \<open>Arc\<close>s: the thread state has the store of signals by address, and
  \<open>CURRENT\<close>, the address the running operation sees. \<open>Restore\<close> puts the previous one back when the
  operation returns or unwinds; an operation that unwinds is one whose result says so, so that both
  are the same transition here.
\<close>

record thread =
  current_request :: "nat option"
  signals :: "nat \<Rightarrow> u8"

definition with_request_cancellation :: "nat \<Rightarrow> (thread \<Rightarrow> 'r \<times> thread) \<Rightarrow> thread \<Rightarrow> 'r \<times> thread" where
  "with_request_cancellation cancellation operation t =
     (let previous = current_request t;
          (r, t') = operation (t\<lparr>current_request := Some cancellation\<rparr>)
      in (r, t'\<lparr>current_request := previous\<rparr>))"

text \<open>The value of the signal in scope; \<open>None\<close> outside every request.\<close>

definition scope_signal :: "thread \<Rightarrow> u8 option" where
  "scope_signal t = map_option (signals t) (current_request t)"

definition request_cancelled :: "u8 option \<Rightarrow> bool" where
  "request_cancelled c \<longleftrightarrow> (case c of None \<Rightarrow> False | Some s \<Rightarrow> is_cancelled s)"

definition request_timed_out :: "u8 option \<Rightarrow> bool" where
  "request_timed_out c \<longleftrightarrow> (case c of None \<Rightarrow> False | Some s \<Rightarrow> is_timed_out s)"

definition commit_request :: "u8 option \<Rightarrow> bool option \<times> u8 option" where
  "commit_request c =
     (case c of None \<Rightarrow> (Some True, None)
      | Some s \<Rightarrow> (case commit_signal s of (r, s') \<Rightarrow> (r, Some s')))"

definition request_scope_active :: "u8 option \<Rightarrow> bool" where
  "request_scope_active c \<longleftrightarrow> c \<noteq> None"

definition signal_ok :: "u8 option \<Rightarrow> bool" where
  "signal_ok c \<longleftrightarrow> (case c of None \<Rightarrow> True | Some s \<Rightarrow> s \<in> {ACTIVE, CANCELLED, COMMITTED, TIMED_OUT})"

lemma signal_ok_steps [simp]:
  "signal_ok (Some s) \<Longrightarrow> signal_ok (Some (cancel s))"
  "signal_ok (Some s) \<Longrightarrow> signal_ok (Some (timeout s))"
  "signal_ok c \<Longrightarrow> signal_ok (snd (commit_request c))"
  by (auto simp: signal_ok_def cancel_def timeout_def commit_request_def commit_signal_def
      compare_exchange_def split: option.splits prod.splits)

lemma commit_request_answers:
  "signal_ok c \<Longrightarrow> fst (commit_request c) = Some (\<not> request_cancelled c)"
  by (auto simp: commit_request_def commit_signal_def compare_exchange_def signal_ok_def
      request_cancelled_def is_cancelled_def split: option.splits prod.splits)

text \<open>
  Request scopes. Nested scopes restore the signal of the enclosing one, whatever the operation
  did and however it ended; inside the scope the operation reads the signal it was given; outside
  every scope there is no cancellation owner, so nothing is cancelled and a commit is granted.
\<close>

theorem request_scope_restored:
  "current_request (snd (with_request_cancellation a f t)) = current_request t
   \<and> fst (with_request_cancellation a (\<lambda>u. (scope_signal u, u)) t) = Some (signals t a)
   \<and> (current_request t = None \<longrightarrow>
        \<not> request_cancelled (scope_signal t) \<and> \<not> request_timed_out (scope_signal t)
        \<and> commit_request (scope_signal t) = (Some True, scope_signal t))"
  by (simp add: with_request_cancellation_def scope_signal_def request_cancelled_def
      request_timed_out_def commit_request_def Let_def split: prod.splits)

theorem request_scope_restored_witness:
  "current_request \<lparr>current_request = None, signals = (\<lambda>_. ACTIVE)\<rparr> = None
   \<and> commit_request (scope_signal \<lparr>current_request = None, signals = (\<lambda>_. ACTIVE)\<rparr>) = (Some True, None)"
  using request_scope_restored [of 0 "\<lambda>u. ((), u)" "\<lparr>current_request = None, signals = (\<lambda>_. ACTIVE)\<rparr>"]
  by (simp add: scope_signal_def)

end
