(* ===== verification/Pet_Transport.thy ===== *)
theory Pet_Transport
  imports Pet_Results Request
begin

text \<open>
  The framed JSON-RPC transport of \<open>rocq-engine/src/pet/mod.rs\<close>: waiting for output, exact reads
  through a \<open>BufReader\<close>, header parsing, the response envelope, diagnostics, URIs and positions.

  What the operating system does is a script: \<open>rd_polls\<close> lists the outcomes of the successive
  \<open>poll\<close> calls, each with the clock reading and a cancellation or deadline that the async side may
  raise just before it; \<open>rd_reads\<close> lists the outcomes of the successive \<open>read\<close> calls, in chunks of
  any size. After its script the pipe is at its end (\<open>read\<close> returns no bytes) and \<open>poll\<close> reports
  it readable. So every behaviour of a child that answers, stalls until it is interrupted, or
  exits is covered; a child that stays silent forever in an uncancelled request is not, and there
  the source does not return either. JSON text is read by \<open>serde_json\<close>, a parameter \<open>json_de\<close>.
\<close>

section \<open>Limits and deadlines\<close>

definition MAX_REQUEST_BYTES :: nat where "MAX_REQUEST_BYTES = 8 * 1024 * 1024"
definition MAX_RESPONSE_BYTES :: nat where "MAX_RESPONSE_BYTES = 8 * 1024 * 1024"
definition MAX_HEADER_BYTES :: nat where "MAX_HEADER_BYTES = 8192"

text \<open>Times are nanoseconds; an \<open>Instant\<close> counts seconds in an \<open>i64\<close>.\<close>

record response_deadline =
  at :: nat
  timeout_ms :: u64

definition deadline_new :: "nat \<Rightarrow> nat \<Rightarrow> pet_error + response_deadline" where
  "deadline_new now dur =
     (if dur = 0 then Inl (Invalid ''timeout must be positive'')
      else if 2 ^ 64 \<le> dur div 10 ^ 6 then Inl (Invalid ''timeout is too large'')
      else if dur div 10 ^ 6 = 0 then Inl (Invalid ''timeout must be at least one millisecond'')
      else if 2 ^ 63 * 10 ^ 9 \<le> now + dur then Inl (Invalid ''timeout is too large'')
      else Inr \<lparr>at = now + dur, timeout_ms = of_nat (dur div 10 ^ 6)\<rparr>)"

definition deadline_error :: "response_deadline \<Rightarrow> pet_error" where
  "deadline_error d = TimedOut (timeout_ms d)"

section \<open>Waiting and reading\<close>

datatype async_event = NoSignal | AsyncCancel | AsyncTimeout

fun async_apply :: "async_event \<Rightarrow> u8 option \<Rightarrow> u8 option" where
  "async_apply NoSignal c = c"
| "async_apply AsyncCancel c = map_option cancel c"
| "async_apply AsyncTimeout c = map_option timeout c"

datatype poll_outcome = PollReady | PollTimeout | PollInterrupted | PollFailed string

record poll_event =
  pe_async :: async_event
  pe_now :: nat
  pe_outcome :: poll_outcome

datatype read_event = ReadBytes string | ReadInterrupted | ReadFailed string

record reader =
  rd_signal :: "u8 option"
  rd_buffer :: string
  rd_polls :: "poll_event list"
  rd_reads :: "read_event list"

fun wait_loop ::
  "response_deadline option \<Rightarrow> poll_event list \<Rightarrow> u8 option \<Rightarrow> (pet_error + unit) \<times> poll_event list \<times> u8 option" where
  "wait_loop d [] c = (if request_cancelled c then Inl Cancelled else Inr (), [], c)"
| "wait_loop d (p # ps) c =
     (let c' = async_apply (pe_async p) c in
      if request_cancelled c' then (Inl Cancelled, ps, c')
      else
        (case d of
           Some dl \<Rightarrow> if at dl \<le> pe_now p then (Inl (deadline_error dl), ps, c')
             else (case pe_outcome p of
                PollReady \<Rightarrow> (Inr (), ps, c')
              | PollTimeout \<Rightarrow> wait_loop d ps c'
              | PollInterrupted \<Rightarrow> wait_loop d ps c'
              | PollFailed m \<Rightarrow> (Inl (ProcessLost (''output readiness wait failed: '' @ m)), ps, c'))
         | None \<Rightarrow>
             (case pe_outcome p of
                PollReady \<Rightarrow> (Inr (), ps, c')
              | PollTimeout \<Rightarrow> wait_loop d ps c'
              | PollInterrupted \<Rightarrow> wait_loop d ps c'
              | PollFailed m \<Rightarrow> (Inl (ProcessLost (''output readiness wait failed: '' @ m)), ps, c'))))"

definition wait_for_pet_output :: "response_deadline option \<Rightarrow> (reader, pet_error, unit) eff" where
  "wait_for_pet_output d r =
     (if \<not> request_scope_active (rd_signal r) \<and> d = None then (Inr (), r)
      else case wait_loop d (rd_polls r) (rd_signal r) of
        (res, ps, c) \<Rightarrow> (res, r\<lparr>rd_polls := ps, rd_signal := c\<rparr>))"

text \<open>\<open>BufReader::read\<close> into \<open>n\<close> bytes: from the buffer, or from one system read when it is empty.
  \<open>Inl None\<close> is an interrupted call, \<open>Inl (Some m)\<close> another error.\<close>

definition reader_read :: "nat \<Rightarrow> reader \<Rightarrow> (string option + string) \<times> reader" where
  "reader_read n r =
     (if rd_buffer r \<noteq> [] then (Inr (take n (rd_buffer r)), r\<lparr>rd_buffer := drop n (rd_buffer r)\<rparr>)
      else case rd_reads r of
        [] \<Rightarrow> (Inr [], r)
      | ReadBytes c # rs \<Rightarrow> (Inr (take n c), r\<lparr>rd_buffer := drop n c, rd_reads := rs\<rparr>)
      | ReadInterrupted # rs \<Rightarrow> (Inl None, r\<lparr>rd_reads := rs\<rparr>)
      | ReadFailed m # rs \<Rightarrow> (Inl (Some m), r\<lparr>rd_reads := rs\<rparr>))"

lemma wait_reads: "wait_for_pet_output d r = (res, r') \<Longrightarrow> rd_reads r' = rd_reads r \<and> rd_buffer r' = rd_buffer r"
  by (auto simp: wait_for_pet_output_def split: if_splits prod.splits)

lemma reader_read_Inr: "reader_read n r = (Inr c, r') \<Longrightarrow> length c \<le> n \<and> length (rd_reads r') \<le> length (rd_reads r)"
  by (auto simp: reader_read_def split: if_splits list.splits read_event.splits)

lemma reader_read_Inl: "reader_read n r = (Inl x, r') \<Longrightarrow> length (rd_reads r') < length (rd_reads r)"
  by (auto simp: reader_read_def split: if_splits list.splits read_event.splits)

text \<open>
  The loop of \<open>read_exact_interruptible\<close>: \<open>need\<close> bytes are missing, \<open>got\<close> are there.
\<close>

function read_exact_loop ::
  "string \<Rightarrow> response_deadline option \<Rightarrow> nat \<Rightarrow> string \<Rightarrow> (reader, pet_error, string) eff" where
  "read_exact_loop operation d need got r =
     (if need = 0 then (Inr got, r)
      else case (if rd_buffer r = [] then wait_for_pet_output d r else (Inr (), r)) of
        (Inl e, r') \<Rightarrow> (Inl e, r')
      | (Inr _, r') \<Rightarrow>
          (case reader_read need r' of
             (Inr c, r'') \<Rightarrow>
               (if c = [] then (Inl (ProcessLost (operation @ '': failed to fill whole buffer'')), r'')
                else read_exact_loop operation d (need - length c) (got @ c) r'')
           | (Inl None, r'') \<Rightarrow> read_exact_loop operation d need got r''
           | (Inl (Some m), r'') \<Rightarrow> (Inl (ProcessLost (operation @ '': '' @ m)), r'')))"
  by pat_completeness auto
termination
proof (relation "measure (\<lambda>(operation, d, need, got, r). need + length (rd_reads r))", goal_cases)
  case 2
  then show ?case
    by (auto dest!: wait_reads [OF sym] reader_read_Inl [OF sym] split: if_splits)
next
  case (3 operation d need got r x y u xa ya c)
  then have "length c \<le> need" "c \<noteq> []" "length (rd_reads ya) \<le> length (rd_reads r)"
    by (auto dest!: wait_reads [OF sym] reader_read_Inr [OF sym] split: if_splits)
  with 3 show ?case by (cases c) auto
qed simp

declare read_exact_loop.simps [simp del]

definition read_exact_interruptible ::
  "nat \<Rightarrow> response_deadline option \<Rightarrow> string \<Rightarrow> (reader, pet_error, string) eff" where
  "read_exact_interruptible n d operation = read_exact_loop operation d n []"

text \<open>The bytes that the reader will still deliver; a successful exact read consumes its length.\<close>

fun read_bytes :: "read_event \<Rightarrow> string" where
  "read_bytes (ReadBytes c) = c"
| "read_bytes _ = []"

definition stream :: "reader \<Rightarrow> string" where
  "stream r = rd_buffer r @ concat (map read_bytes (rd_reads r))"

lemma wait_stream: "wait_for_pet_output d r = (res, r') \<Longrightarrow> stream r' = stream r"
  by (simp add: stream_def wait_reads)

lemma reader_read_stream:
  "reader_read n r = (Inr c, r') \<Longrightarrow> 0 < n \<Longrightarrow> stream r = c @ stream r' \<and> length c \<le> n"
  by (auto simp: reader_read_def stream_def split: if_splits list.splits read_event.splits)

lemma reader_read_stream_Inl: "reader_read n r = (Inl x, r') \<Longrightarrow> stream r' = stream r"
  by (auto simp: reader_read_def stream_def split: if_splits list.splits read_event.splits)

lemma read_exact_stream:
  "read_exact_loop operation d need got r = (Inr out, r') \<Longrightarrow>
     \<exists>c. out = got @ c \<and> length c = need \<and> stream r = c @ stream r'"
proof (induction operation d need got r rule: read_exact_loop.induct)
  case (1 operation d need got r)
  show ?case
  proof (cases "need = 0")
    case True
    with 1(3) show ?thesis by (simp add: read_exact_loop.simps)
  next
    case False
    let ?w = "if rd_buffer r = [] then wait_for_pet_output d r else (Inr (), r)"
    obtain r1 where w: "?w = (Inr (), r1)"
      using 1(3) False
      by (subst (asm) read_exact_loop.simps) (auto split: prod.splits sum.splits if_splits)
    have s1: "stream r1 = stream r" using w by (auto split: if_splits dest: wait_stream)
    obtain q r2 where q: "reader_read need r1 = (q, r2)" by fastforce
    show ?thesis
    proof (cases q)
      case (Inr c)
      then have c: "stream r1 = c @ stream r2" "length c \<le> need"
        using q False reader_read_stream by auto
      have "c \<noteq> []" and rec: "read_exact_loop operation d (need - length c) (got @ c) r2 = (Inr out, r')"
        using 1(3) False w q Inr
        by (subst (asm) read_exact_loop.simps; auto split: if_splits)+
      from 1(2) [OF False w [symmetric] refl q [symmetric]] rec \<open>c \<noteq> []\<close> Inr obtain c' where
        "out = (got @ c) @ c'" "length c' = need - length c" "stream r2 = c' @ stream r'" by blast
      with c s1 show ?thesis by (intro exI [of _ "c @ c'"]) auto
    next
      case (Inl m)
      with 1(3) False w q have m: "m = None"
        and rec: "read_exact_loop operation d need got r2 = (Inr out, r')"
        by (subst (asm) read_exact_loop.simps; auto split: option.splits)+
      from 1(1) [OF False w [symmetric] refl q [symmetric]] rec m Inl reader_read_stream_Inl s1 q
      show ?thesis by metis
    qed
  qed
qed

lemma read_exact_interruptible_stream:
  "read_exact_interruptible n d operation r = (Inr out, r') \<Longrightarrow>
     length out = n \<and> stream r = out @ stream r'"
  unfolding read_exact_interruptible_def using read_exact_stream by fastforce

function read_line_loop :: "response_deadline option \<Rightarrow> string \<Rightarrow> (reader, pet_error, string) eff" where
  "read_line_loop d line r =
     (case read_exact_interruptible 1 d ''output header read failed'' r of
        (Inl e, r') \<Rightarrow> (Inl e, r')
      | (Inr b, r') \<Rightarrow>
          (let line' = line @ b in
           if hd b = CHR 0x0A then (Inr line', r')
           else if MAX_HEADER_BYTES < length line' then (Inl OutputOverflow, r')
           else read_line_loop d line' r'))"
  by pat_completeness auto
termination
  by (relation "measure (\<lambda>(d, line, r). Suc MAX_HEADER_BYTES - length line)")
     (auto dest!: read_exact_interruptible_stream [OF sym])

declare read_line_loop.simps [simp del]

definition read_line_bounded :: "response_deadline option \<Rightarrow> (reader, pet_error, string) eff" where
  "read_line_bounded d = read_line_loop d []"

lemma read_line_stream:
  "read_line_loop d line r = (Inr out, r') \<Longrightarrow> \<exists>c. out = line @ c \<and> c \<noteq> [] \<and> stream r = c @ stream r'"
proof (induction d line r rule: read_line_loop.induct)
  case (1 d line r)
  obtain b r1 where b: "read_exact_interruptible 1 d ''output header read failed'' r = (Inr b, r1)"
    using 1(2) by (subst (asm) read_line_loop.simps) (auto split: prod.splits sum.splits)
  then have b1: "length b = 1" "stream r = b @ stream r1"
    by (auto dest: read_exact_interruptible_stream)
  show ?case
  proof (cases "hd b = CHR 0x0A")
    case True
    with 1(2) b b1 show ?thesis
      by (subst (asm) read_line_loop.simps) (auto simp: Let_def)
  next
    case False
    with 1(2) b have le: "\<not> MAX_HEADER_BYTES < length (line @ b)"
      and rec: "read_line_loop d (line @ b) r1 = (Inr out, r')"
      by (subst (asm) read_line_loop.simps; auto simp: Let_def split: if_splits)+
    from 1(1) [OF b [symmetric] refl refl False le rec] b1 show ?thesis by auto
  qed
qed

text \<open>The header loop of \<open>read_response\<close>: blank lines before the header are skipped.\<close>

definition blank_line :: "string \<Rightarrow> bool" where
  "blank_line line \<longleftrightarrow> line = [CHR 0x0A] \<or> line = [CHR 0x0D, CHR 0x0A]"

function read_header :: "response_deadline option \<Rightarrow> string \<Rightarrow> (reader, pet_error, string) eff" where
  "read_header d header r =
     (case read_line_bounded d r of
        (Inl e, r') \<Rightarrow> (Inl e, r')
      | (Inr line, r') \<Rightarrow>
          (if blank_line line
           then (if header = [] then read_header d header r' else (Inr header, r'))
           else if MAX_HEADER_BYTES < length (header @ line) then (Inl OutputOverflow, r')
           else read_header d (header @ line) r'))"
  by pat_completeness auto
termination
  by (relation "measure (\<lambda>(d, header, r). length (stream r))")
     (auto simp: read_line_bounded_def dest!: read_line_stream [OF sym])

declare read_header.simps [simp del]

section \<open>Headers\<close>

definition ascii_space :: "char \<Rightarrow> bool" where
  "ascii_space c \<longleftrightarrow> c = CHR 0x20 \<or> c = CHR 0x09"

definition trim_ascii_space :: "string \<Rightarrow> string" where
  "trim_ascii_space v = rev (dropWhile ascii_space (rev (dropWhile ascii_space v)))"

definition ascii_lower :: "char \<Rightarrow> char" where
  "ascii_lower c = (if between 65 90 c then char_of (byte c + 32) else c)"

definition eq_ignore_ascii_case :: "string \<Rightarrow> string \<Rightarrow> bool" where
  "eq_ignore_ascii_case a b \<longleftrightarrow> map ascii_lower a = map ascii_lower b"

fun split_on :: "(char \<Rightarrow> bool) \<Rightarrow> string \<Rightarrow> string list" where
  "split_on P [] = [[]]"
| "split_on P (c # s) =
     (if P c then [] # split_on P s
      else (case split_on P s of [] \<Rightarrow> [[c]] | w # ws \<Rightarrow> (c # w) # ws))"

text \<open>\<open>str::parse::<usize>\<close>: an optional plus sign and digits, below \<open>2 ^ 64\<close>.\<close>

definition digit_value :: "char \<Rightarrow> nat" where
  "digit_value c = byte c - 48"

definition decimal :: "string \<Rightarrow> nat" where
  "decimal s = foldl (\<lambda>n c. 10 * n + digit_value c) 0 s"

definition parse_usize :: "string \<Rightarrow> nat option" where
  "parse_usize s =
     (let ds = (case s of CHR ''+'' # t \<Rightarrow> t | _ \<Rightarrow> s) in
      if ds \<noteq> [] \<and> list_all is_ascii_digit ds \<and> decimal ds < 2 ^ 64 then Some (decimal ds) else None)"

fun content_length :: "nat option \<Rightarrow> string list \<Rightarrow> pet_error + nat option" where
  "content_length found [] = Inr found"
| "content_length found (line # lines) =
     (if CHR '':'' \<notin> set line then content_length found lines
      else
        (let name = takeWhile (\<lambda>c. c \<noteq> CHR '':'') line;
             text = trim_ascii_space (tl (dropWhile (\<lambda>c. c \<noteq> CHR '':'') line)) in
         if \<not> eq_ignore_ascii_case (trim_ascii_space name) ''Content-Length''
         then content_length found lines
         else case (if utf8 text then parse_usize text else None) of
           None \<Rightarrow> Inl (Protocol ''PET Content-Length is invalid'')
         | Some v \<Rightarrow>
             (case found of
                Some old \<Rightarrow>
                  (if old \<noteq> v then Inl (Protocol ''PET response has conflicting Content-Length headers'')
                   else content_length (Some v) lines)
              | None \<Rightarrow> content_length (Some v) lines)))"

definition header_lines :: "string \<Rightarrow> string list" where
  "header_lines header = split_on (\<lambda>b. b = CHR 0x0A \<or> b = CHR 0x0D) header"

section \<open>The response envelope\<close>

definition json_to_usize :: "json option \<Rightarrow> nat option" where
  "json_to_usize v = map_option unat (Option.bind v as_u64)"

fun parse_diagnostic_entries :: "json list \<Rightarrow> pet_error + proof_diagnostic option" where
  "parse_diagnostic_entries [] = Inr None"
| "parse_diagnostic_entries (entry # entries) =
     (case json_get entry ''range'' of
        None \<Rightarrow> parse_diagnostic_entries entries
      | Some rng \<Rightarrow>
          (if is_null rng then parse_diagnostic_entries entries
           else
             (case json_to_usize (Option.bind (json_get rng ''start'') (\<lambda>p. json_get p ''offset'')) of
                None \<Rightarrow> Inl (Protocol ''PET diagnostic start offset is invalid'')
              | Some start \<Rightarrow>
                  (case json_to_usize (Option.bind
                       (case json_get rng ''end'' of Some v \<Rightarrow> Some v | None \<Rightarrow> json_get rng ''end_'')
                       (\<lambda>p. json_get p ''offset'')) of
                     None \<Rightarrow> Inl (Protocol ''PET diagnostic end offset is invalid'')
                   | Some stop \<Rightarrow>
                       (if stop < start then Inl (Protocol ''PET diagnostic range is reversed'')
                        else Inr (Some \<lparr>byte_start = start, byte_end = stop\<rparr>))))))"

definition parse_pet_diagnostic :: "json \<Rightarrow> pet_error + proof_diagnostic option" where
  "parse_pet_diagnostic v =
     parse_diagnostic_entries (case as_array v of Some es \<Rightarrow> es | None \<Rightarrow> [v])"

definition decode_error :: "json \<Rightarrow> pet_error" where
  "decode_error e =
     (case Option.bind (json_get e ''code'') as_i64 of
        None \<Rightarrow> Protocol ''PET error has no code''
      | Some code \<Rightarrow>
          (case Option.bind (json_get e ''message'') as_str of
             None \<Rightarrow> Protocol ''PET error has no message''
           | Some m \<Rightarrow>
               (if trim m = [] then Protocol ''PET error message is empty''
                else
                  (case json_get e ''data'' of
                     None \<Rightarrow> Remote code (from_code code) m None
                   | Some d \<Rightarrow>
                       (case parse_pet_diagnostic d of
                          Inl err \<Rightarrow> err
                        | Inr diag \<Rightarrow> Remote code (from_code code) m diag)))))"

definition decode_response :: "u64 \<Rightarrow> json \<Rightarrow> pet_error + json" where
  "decode_response request_id v =
     (case as_object v of
        None \<Rightarrow> Inl (Protocol ''PET response is not an object'')
      | Some object \<Rightarrow>
          (if Option.bind (bt_get object ''jsonrpc'') as_str \<noteq> Some ''2.0''
           then Inl (Protocol ''PET response has an invalid JSON-RPC version'')
           else if Option.bind (bt_get object ''id'') as_u64 \<noteq> Some request_id
           then Inl (Protocol ''PET response id does not match request'')
           else
             (case bt_get object ''error'' of
                Some e \<Rightarrow>
                  (if as_object e = None \<or> bt_get object ''result'' \<noteq> None
                   then Inl (Protocol ''PET response has an invalid result/error pair'')
                   else Inl (decode_error e))
              | None \<Rightarrow> ok_or (Protocol ''PET response has no result'') (bt_get object ''result''))))"

definition read_response ::
  "(string \<Rightarrow> string + json) \<Rightarrow> u64 \<Rightarrow> response_deadline option \<Rightarrow> (reader, pet_error, json) eff" where
  "read_response json_de request_id d =
     and_then (read_header d []) (\<lambda>header.
     and_then (lift_result (content_length None (header_lines header))) (\<lambda>found.
     and_then (lift_result (ok_or (Protocol ''PET response has no Content-Length'') found)) (\<lambda>n.
     and_then (when_err (MAX_RESPONSE_BYTES < n) OutputOverflow) (\<lambda>_.
     and_then (read_exact_interruptible n d
       (''output body read failed after Content-Length '' @ show_nat n)) (\<lambda>body.
     and_then (lift_result (case json_de body of
         Inl m \<Rightarrow> Inl (Protocol (''PET response JSON is invalid: '' @ m)) | Inr v \<Rightarrow> Inr v)) (\<lambda>v.
     lift_result (decode_response request_id v)))))))"

text \<open>\<open>write_frame\<close>: the bytes of one framed body.\<close>

definition frame_bytes :: "string \<Rightarrow> string" where
  "frame_bytes body =
     ''Content-Length: '' @ show_nat (length body) @ [CHR 0x0D, CHR 0x0A, CHR 0x0D, CHR 0x0A] @ body"

section \<open>Framing is lossless\<close>

text \<open>
  A calm reader: the request is not cancelled while it reads, its deadline does not pass, and the
  pipe neither fails nor ends. Interrupted calls, timed-out polls and any chunking are allowed.
\<close>

definition calm :: "response_deadline option \<Rightarrow> reader \<Rightarrow> bool" where
  "calm d r \<longleftrightarrow>
     \<not> request_cancelled (rd_signal r)
     \<and> (\<forall>p \<in> set (rd_polls r). async_apply (pe_async p) (rd_signal r) = rd_signal r
          \<and> (case d of None \<Rightarrow> True | Some dl \<Rightarrow> pe_now p < at dl)
          \<and> (case pe_outcome p of PollFailed m \<Rightarrow> False | _ \<Rightarrow> True))
     \<and> (\<forall>e \<in> set (rd_reads r). case e of ReadBytes c \<Rightarrow> c \<noteq> [] | ReadInterrupted \<Rightarrow> True | ReadFailed m \<Rightarrow> False)"

lemma wait_loop_calm:
  "\<not> request_cancelled c \<Longrightarrow>
   \<forall>p \<in> set ps. async_apply (pe_async p) c = c
      \<and> (case d of None \<Rightarrow> True | Some dl \<Rightarrow> pe_now p < at dl)
      \<and> (case pe_outcome p of PollFailed m \<Rightarrow> False | _ \<Rightarrow> True) \<Longrightarrow>
   \<exists>ps'. wait_loop d ps c = (Inr (), ps', c) \<and> set ps' \<subseteq> set ps"
  by (induction d ps c rule: wait_loop.induct)
     (fastforce simp: Let_def split: option.splits poll_outcome.splits)+

lemma wait_calm:
  assumes "calm d r"
  shows "\<exists>r'. wait_for_pet_output d r = (Inr (), r') \<and> calm d r' \<and> stream r' = stream r"
proof (cases "\<not> request_scope_active (rd_signal r) \<and> d = None")
  case True
  with assms show ?thesis by (simp add: wait_for_pet_output_def)
next
  case False
  obtain ps' where "wait_loop d (rd_polls r) (rd_signal r) = (Inr (), ps', rd_signal r)"
    "set ps' \<subseteq> set (rd_polls r)"
    using wait_loop_calm [of "rd_signal r" "rd_polls r" d] assms by (auto simp: calm_def)
  with False assms show ?thesis
    by (auto simp: wait_for_pet_output_def calm_def stream_def)
qed

lemma reader_read_calm:
  assumes "calm d r" "0 < n" "stream r \<noteq> []"
  shows "(\<exists>c r'. reader_read n r = (Inr c, r') \<and> c \<noteq> [] \<and> calm d r')
    \<or> (\<exists>r'. reader_read n r = (Inl None, r') \<and> calm d r')"
  using assms by (cases "rd_reads r")
    (auto simp: reader_read_def calm_def stream_def split: read_event.splits)

lemma read_exact_calm:
  "calm d r \<Longrightarrow> need \<le> length (stream r) \<Longrightarrow>
   \<exists>out r'. read_exact_loop operation d need got r = (Inr out, r') \<and> calm d r'"
proof (induction operation d need got r rule: read_exact_loop.induct)
  case (1 operation d need got r)
  show ?case
  proof (cases "need = 0")
    case True
    with 1(3) show ?thesis by (simp add: read_exact_loop.simps)
  next
    case False
    let ?w = "if rd_buffer r = [] then wait_for_pet_output d r else (Inr (), r)"
    obtain r1 where w: "?w = (Inr (), r1)" and c1: "calm d r1" and s1: "stream r1 = stream r"
      using wait_calm [OF 1(3)] 1(3) by (cases "rd_buffer r = []") auto
    have ne: "stream r1 \<noteq> []" using s1 1(4) False by auto
    consider (bytes) c r2 where "reader_read need r1 = (Inr c, r2)" "c \<noteq> []" "calm d r2"
      | (again) r2 where "reader_read need r1 = (Inl None, r2)" "calm d r2"
      using reader_read_calm [OF c1 _ ne] False by blast
    then show ?thesis
    proof cases
      case (bytes c r2)
      then have "need - length c \<le> length (stream r2)"
        using reader_read_stream [of need r1 c r2] False s1 1(4) by auto
      with 1(2) [OF False w [symmetric] refl bytes(1) [symmetric] refl bytes(2) bytes(3)]
      obtain out r' where "read_exact_loop operation d (need - length c) (got @ c) r2 = (Inr out, r')"
        "calm d r'" by blast
      with False w bytes show ?thesis by (subst read_exact_loop.simps) auto
    next
      case (again r2)
      then have "need \<le> length (stream r2)"
        using reader_read_stream_Inl s1 1(4) by simp
      with 1(1) [OF False w [symmetric] refl again(1) [symmetric] refl refl again(2)]
      obtain out r' where "read_exact_loop operation d need got r2 = (Inr out, r')" "calm d r'" by blast
      with False w again show ?thesis by (subst read_exact_loop.simps) auto
    qed
  qed
qed

lemma read_exact_delivers:
  assumes "calm d r" and "stream r = w @ rest"
  shows "\<exists>r'. read_exact_interruptible (length w) d operation r = (Inr w, r') \<and> calm d r' \<and> stream r' = rest"
proof -
  obtain out r' where out: "read_exact_interruptible (length w) d operation r = (Inr out, r')" "calm d r'"
    using read_exact_calm [OF assms(1), of "length w" operation "[]"] assms(2)
    by (auto simp: read_exact_interruptible_def)
  then have "length out = length w" "w @ rest = out @ stream r'"
    using read_exact_interruptible_stream [OF out(1)] assms(2) by simp_all
  then have "out = w \<and> stream r' = rest" by simp
  with out show ?thesis by blast
qed

lemma read_line_delivers:
  "calm d r \<Longrightarrow> stream r = w @ CHR 0x0A # rest \<Longrightarrow> CHR 0x0A \<notin> set w \<Longrightarrow>
   length line + length w \<le> MAX_HEADER_BYTES \<Longrightarrow>
   \<exists>r'. read_line_loop d line r = (Inr (line @ w @ [CHR 0x0A]), r') \<and> calm d r' \<and> stream r' = rest"
proof (induction w arbitrary: line r)
  case Nil
  then obtain r' where "read_exact_interruptible 1 d ''output header read failed'' r = (Inr [CHR 0x0A], r')"
    "calm d r'" "stream r' = rest"
    using read_exact_delivers [of d r "[CHR 0x0A]" rest "''output header read failed''"] by auto
  then show ?case by (subst read_line_loop.simps) auto
next
  case (Cons c w)
  then obtain r1 where r1: "read_exact_interruptible 1 d ''output header read failed'' r = (Inr [c], r1)"
    "calm d r1" "stream r1 = w @ CHR 0x0A # rest"
    using read_exact_delivers [of d r "[c]" "w @ CHR 0x0A # rest" "''output header read failed''"] by auto
  have "length (line @ [c]) + length w \<le> MAX_HEADER_BYTES" "CHR 0x0A \<notin> set w" using Cons.prems by simp_all
  from Cons.IH [OF r1(2,3) this(2,1)] obtain r' where
    "read_line_loop d (line @ [c]) r1 = (Inr ((line @ [c]) @ w @ [CHR 0x0A]), r')" "calm d r'" "stream r' = rest"
    by blast
  with r1 Cons.prems show ?case by (subst read_line_loop.simps) auto
qed

lemma decimal_snoc: "decimal (s @ [c]) = 10 * decimal s + digit_value c"
  by (simp add: decimal_def)

lemma decimal_show_nat: "decimal (show_nat n) = n"
proof (induction n rule: show_nat.induct)
  case (1 n)
  have "digit_value (char_of (48 + d)) = d" if "d < 10" for d :: nat
    using that by (simp add: digit_value_def byte_def)
  with 1 show ?case
    by (subst show_nat.simps) (auto simp: decimal_snoc decimal_def [of "[_]"])
qed

lemma show_nat_not_Nil: "show_nat n \<noteq> []"
  by (subst show_nat.simps) simp

lemma show_nat_length: "0 < k \<Longrightarrow> n < 10 ^ k \<Longrightarrow> length (show_nat n) \<le> k"
proof (induction k arbitrary: n)
  case (Suc k)
  show ?case
  proof (cases "n < 10")
    case True
    then show ?thesis by (subst show_nat.simps) simp
  next
    case False
    then have "0 < k" using Suc.prems by (cases k) auto
    moreover have "n div 10 < 10 ^ k" using Suc.prems by (simp add: less_mult_imp_div_less)
    ultimately have "length (show_nat (n div 10)) \<le> k" by (rule Suc.IH)
    with False show ?thesis by (subst show_nat.simps) simp
  qed
qed simp

lemma digit_char: "is_ascii_digit c \<Longrightarrow> byte c < 128 \<and> c \<noteq> CHR ''+'' \<and> c \<noteq> CHR '':'' \<and> c \<noteq> CHR 0x0A
   \<and> c \<noteq> CHR 0x0D \<and> \<not> ascii_space c"
  by (auto simp: is_ascii_digit_def between_def byte_def ascii_space_def)

lemma digits_utf8: "list_all is_ascii_digit s \<Longrightarrow> utf8 s"
  by (induction s) (auto simp: utf8.simps(2) utf8_tail_def dest: digit_char)

lemma parse_usize_show: "n < 2 ^ 64 \<Longrightarrow> parse_usize (show_nat n) = Some n"
proof -
  assume "n < 2 ^ 64"
  obtain c t where ct: "show_nat n = c # t" using show_nat_not_Nil by (metis list.exhaust)
  then have "is_ascii_digit c" using show_nat_digits [of n] by simp
  then have "c \<noteq> CHR ''+''" by (simp add: digit_char)
  then have "(case show_nat n of CHR ''+'' # t \<Rightarrow> t | _ \<Rightarrow> show_nat n) = show_nat n"
    using ct by (auto split: char.splits bool.splits)
  then show ?thesis
    using \<open>n < 2 ^ 64\<close> show_nat_digits [of n] show_nat_not_Nil [of n]
    by (simp add: parse_usize_def Let_def decimal_show_nat)
qed

lemma dropWhile_digits: "list_all is_ascii_digit s \<Longrightarrow> dropWhile ascii_space s = s"
  by (cases s) (auto dest: digit_char)

lemma split_on_append: "\<forall>c \<in> set w. \<not> P c \<Longrightarrow> P d \<Longrightarrow> split_on P (w @ d # s) = w # split_on P s"
  by (induction w) auto

lemma content_length_header:
  assumes "n < 2 ^ 64"
  shows "content_length None (header_lines (''Content-Length: '' @ show_nat n @ [CHR 0x0D, CHR 0x0A])) = Inr (Some n)"
proof -
  let ?line = "''Content-Length: '' @ show_nat n"
  have digits: "list_all is_ascii_digit (show_nat n)" by (rule show_nat_digits)
  then have "\<forall>c \<in> set (show_nat n). c \<noteq> CHR 0x0A \<and> c \<noteq> CHR 0x0D"
    by (auto simp: list_all_iff dest: digit_char)
  then have no_break: "\<forall>c \<in> set ?line. \<not> (c = CHR 0x0A \<or> c = CHR 0x0D)" by auto
  have "header_lines (?line @ [CHR 0x0D, CHR 0x0A]) = [?line, [], []]"
    unfolding header_lines_def using split_on_append [OF no_break, of "CHR 0x0D" "[CHR 0x0A]"] by simp
  moreover have "trim_ascii_space (CHR 0x20 # show_nat n) = show_nat n"
    using digits by (simp add: trim_ascii_space_def ascii_space_def dropWhile_digits list_all_rev)
  moreover have "trim_ascii_space ''Content-Length'' = ''Content-Length''" by code_simp
  ultimately show ?thesis
    using assms digits by (simp add: digits_utf8 parse_usize_show eq_ignore_ascii_case_def)
qed

lemma read_header_delivers:
  assumes "calm d r" and "stream r = ''Content-Length: '' @ show_nat n @ [CHR 0x0D, CHR 0x0A, CHR 0x0D, CHR 0x0A] @ rest"
    and "n < 10 ^ 20"
  shows "\<exists>r'. read_header d [] r = (Inr (''Content-Length: '' @ show_nat n @ [CHR 0x0D, CHR 0x0A]), r')
    \<and> calm d r' \<and> stream r' = rest"
proof -
  let ?w = "''Content-Length: '' @ show_nat n @ [CHR 0x0D]"
  have len: "length (show_nat n) \<le> 20" using show_nat_length [of 20 n] assms(3) by simp
  have no_nl: "CHR 0x0A \<notin> set ?w"
    using show_nat_digits [of n] by (auto simp: list_all_iff dest: digit_char)
  have "stream r = ?w @ CHR 0x0A # ([CHR 0x0D, CHR 0x0A] @ rest)" using assms(2) by simp
  from read_line_delivers [OF assms(1) this no_nl, of "[]"] len obtain r1 where
    r1: "read_line_bounded d r = (Inr (?w @ [CHR 0x0A]), r1)" "calm d r1"
      "stream r1 = [CHR 0x0D] @ CHR 0x0A # rest"
    by (auto simp: read_line_bounded_def MAX_HEADER_BYTES_def)
  from read_line_delivers [OF r1(2,3), of "[]"] obtain r2 where
    r2: "read_line_bounded d r1 = (Inr ([CHR 0x0D] @ [CHR 0x0A]), r2)" "calm d r2" "stream r2 = rest"
    by (auto simp: read_line_bounded_def MAX_HEADER_BYTES_def)
  have "read_header d (?w @ [CHR 0x0A]) r1 = (Inr (?w @ [CHR 0x0A]), r2)"
    using r2 by (subst read_header.simps) (simp add: blank_line_def)
  then have "read_header d [] r = (Inr (?w @ [CHR 0x0A]), r2)"
    using r1 len by (subst read_header.simps) (simp add: blank_line_def MAX_HEADER_BYTES_def)
  with r2 show ?thesis by auto
qed

lemma frame_delivered:
  assumes "calm d r" and "stream r = frame_bytes body @ rest"
    and "length body \<le> MAX_RESPONSE_BYTES" and "json_de body = Inr v"
  shows "\<exists>r'. read_response json_de i d r = (decode_response i v, r') \<and> calm d r' \<and> stream r' = rest"
proof -
  let ?n = "length body"
  have n: "?n < 2 ^ 64" "?n < 10 ^ 20" using assms(3) by (simp_all add: MAX_RESPONSE_BYTES_def)
  from read_header_delivers [OF assms(1) _ n(2), of "body @ rest"] assms(2) obtain r1 where
    r1: "read_header d [] r = (Inr (''Content-Length: '' @ show_nat ?n @ [CHR 0x0D, CHR 0x0A]), r1)"
      "calm d r1" "stream r1 = body @ rest"
    by (auto simp: frame_bytes_def)
  from read_exact_delivers [OF r1(2,3)] obtain r2 where
    "read_exact_interruptible ?n d (''output body read failed after Content-Length '' @ show_nat ?n) r1 = (Inr body, r2)"
    "calm d r2" "stream r2 = rest" by blast
  with r1 assms(3,4) n show ?thesis
    unfolding read_response_def and_then_def lift_result_def when_err_def
    by (simp add: content_length_header [simplified] ret_def)
qed

text \<open>
  C19. Framing is lossless. When the pipe delivers the frame of a body, in chunks of any size and
  with any number of interrupted calls, timed-out polls and later bytes, and the request is neither
  cancelled nor past its deadline, \<open>read_response\<close> reads exactly that body, answers what the
  envelope in it says, and leaves the following bytes for the next response.
\<close>

theorem frame_roundtrip:
  assumes "calm d r" and "stream r = frame_bytes body @ rest"
    and "length body \<le> MAX_RESPONSE_BYTES" and "json_de body = Inr v"
  shows "\<exists>r'. read_response json_de i d r = (decode_response i v, r') \<and> calm d r' \<and> stream r' = rest"
  using assms by (rule frame_delivered)

definition sample_response :: json where
  "sample_response = json_obj [(''jsonrpc'', JString ''2.0''), (''id'', JNumber (PosInt 1)), (''result'', JNull)]"

definition sample_reader :: reader where
  "sample_reader = \<lparr>rd_signal = Some COMMITTED, rd_buffer = [],
     rd_polls = [\<lparr>pe_async = AsyncCancel, pe_now = 0, pe_outcome = PollTimeout\<rparr>],
     rd_reads = [ReadInterrupted, ReadBytes (take 5 (frame_bytes ''{}'')),
       ReadBytes (drop 5 (frame_bytes ''{}'' @ ''x''))]\<rparr>"

theorem frame_roundtrip_witness:
  "calm None sample_reader
   \<and> (\<exists>r'. read_response (\<lambda>_. Inr sample_response) 1 None sample_reader = (Inr JNull, r')
        \<and> calm None r' \<and> stream r' = ''x'')"
proof -
  have frame: "frame_bytes ''{}'' = ''Content-Length: 2'' @ [CHR 0x0D, CHR 0x0A, CHR 0x0D, CHR 0x0A] @ ''{}''"
    by code_simp
  have "calm None sample_reader"
    by (simp add: calm_def sample_reader_def frame request_cancelled_def is_cancelled_def cancel_def
        compare_exchange_def)
  moreover have "stream sample_reader = frame_bytes ''{}'' @ ''x''"
    by (simp add: stream_def sample_reader_def frame)
  moreover have "decode_response 1 sample_response = Inr JNull"
    by (simp add: decode_response_def sample_response_def)
  ultimately show ?thesis
    using frame_roundtrip [of None sample_reader "''{}''" "''x''" "\<lambda>_. Inr sample_response" sample_response 1]
    by (simp add: MAX_RESPONSE_BYTES_def)
qed



section \<open>Positions, URIs and the diagnostic tail\<close>

definition hex :: "nat \<Rightarrow> char" where
  "hex v = (if v \<le> 9 then char_of (48 + v) else char_of (65 + v - 10))"

definition uri_plain :: "char \<Rightarrow> bool" where
  "uri_plain c \<longleftrightarrow> between 48 57 c \<or> between 65 90 c \<or> between 97 122 c
     \<or> c \<in> {CHR ''/'', CHR ''_'', CHR ''-'', CHR ''.'', CHR ''~''}"

definition uri_byte :: "char \<Rightarrow> string" where
  "uri_byte c =
     (if uri_plain c then [c] else [CHR 0x25, hex (byte c div 16), hex (byte c mod 16)])"

definition file_uri :: "path \<Rightarrow> string" where
  "file_uri p = ''file://'' @ concat (map uri_byte (path_str p))"

text \<open>Percent decoding, the inverse of the encoding.\<close>

definition unhex :: "char \<Rightarrow> nat" where
  "unhex c = (if between 48 57 c then byte c - 48 else byte c - 55)"

fun percent_decode :: "string \<Rightarrow> string" where
  "percent_decode [] = []"
| "percent_decode (c # s) =
     (if c = CHR 0x25 then
        (case s of a # b # t \<Rightarrow> char_of (16 * unhex a + unhex b) # percent_decode t | _ \<Rightarrow> c # percent_decode s)
      else c # percent_decode s)"

lemma unhex_hex: "v < 16 \<Longrightarrow> unhex (hex v) = v"
  by (auto simp: unhex_def hex_def between_def byte_def)

lemma byte_div: "byte c div 16 < 16"
  using byte_less_256 [of c] by (simp add: less_mult_imp_div_less del: byte_less_256)

lemma percent_decode_byte: "percent_decode (uri_byte c @ s) = c # percent_decode s"
proof (cases "uri_plain c")
  case True
  then have "c \<noteq> CHR 0x25" by (auto simp: uri_plain_def between_def byte_def)
  with True show ?thesis by (simp add: uri_byte_def)
next
  case False
  have "char_of (16 * (byte c div 16) + byte c mod 16) = c"
    by (simp add: byte_def)
  moreover have "byte c div 16 < 16" by (rule byte_div)
  ultimately show ?thesis using False by (simp add: uri_byte_def unhex_hex)
qed

text \<open>
  File URIs are unambiguous: percent-decoding what follows \<open>file://\<close> gives back the exact
  path text, byte for byte, and the encoded part has only unreserved characters and escapes.
\<close>

theorem file_uri_roundtrip:
  "\<exists>enc. file_uri p = ''file://'' @ enc \<and> percent_decode enc = path_str p
     \<and> list_all (\<lambda>c. uri_plain c \<or> c = CHR 0x25) enc"
proof -
  have dec: "percent_decode (concat (map uri_byte s)) = s" for s
    by (induction s) (simp_all add: percent_decode_byte)
  have "uri_plain (hex v)" if "v < 16" for v
    using that by (auto simp: hex_def uri_plain_def between_def byte_def)
  then have "list_all (\<lambda>c. uri_plain c \<or> c = CHR 0x25) (uri_byte c)" for c
    by (simp add: uri_byte_def byte_div)
  then have "list_all (\<lambda>c. uri_plain c \<or> c = CHR 0x25) (concat (map uri_byte s))" for s
    by (induction s) simp_all
  with dec show ?thesis by (auto simp: file_uri_def)
qed

text \<open>\<open>encode_utf16().count()\<close> of well-formed UTF-8: one unit per character, two above the BMP.\<close>

definition utf16_units :: "string \<Rightarrow> nat" where
  "utf16_units s = sum_list (map (\<lambda>c. if is_cont c then 0 else if 240 \<le> byte c then 2 else 1) s)"

definition last_line :: "string \<Rightarrow> string" where
  "last_line s = rev (takeWhile (\<lambda>c. c \<noteq> CHR 0x0A) (rev s))"

definition source_position :: "string \<Rightarrow> nat \<Rightarrow> pet_error + json" where
  "source_position source offset =
     (case str_get source 0 offset of
        None \<Rightarrow> Inl (Invalid ''source position is no longer valid'')
      | Some pre \<Rightarrow>
          Inr (json_obj
            [(''line'', json_nat (length (filter (\<lambda>b. b = CHR 0x0A) pre))),
             (''character'', json_nat (utf16_units (last_line pre)))]))"

lemma last_line_append: "CHR 0x0A \<notin> set u \<Longrightarrow> last_line (s @ u) = last_line s @ u"
  by (simp add: last_line_def takeWhile_append)

lemma utf16_units_append: "utf16_units (s @ t) = utf16_units s + utf16_units t"
  by (simp add: utf16_units_def)

lemma utf16_units_le: "utf16_units s \<le> 2 * length s"
  by (induction s) (auto simp: utf16_units_def)

lemma json_nat_inj: "json_nat a = json_nat b \<Longrightarrow> a < 2 ^ 64 \<Longrightarrow> b < 2 ^ 64 \<Longrightarrow> a = b"
  by (simp add: json_nat_def word_of_nat_eq_iff take_bit_nat_eq_self)

lemma source_position_Inr:
  "source_position s a = Inr p \<longleftrightarrow>
     a \<le> length s \<and> is_char_boundary s a \<and> p = json_obj
       [(''line'', json_nat (length (filter (\<lambda>b. b = CHR 0x0A) (take a s)))),
        (''character'', json_nat (utf16_units (last_line (take a s))))]"
  by (auto simp: source_position_def str_get_def split: option.splits if_splits)

lemma last_line_length: "length (last_line s) \<le> length s"
  using length_takeWhile_le [of _ "rev s"] by (simp add: last_line_def)

lemma source_position_less:
  assumes "a < b" "source_position s a = Inr p" "source_position s b = Inr q" "2 * length s < 2 ^ 64" "utf8 s"
  shows "p \<noteq> q"
proof
  assume "p = q"
  let ?nl = "\<lambda>t. length (filter (\<lambda>b. b = CHR 0x0A) t)"
  define u where "u = take (b - a) (drop a s)"
  have b: "b \<le> length s" "is_char_boundary s a" using assms by (auto simp: source_position_Inr)
  have take_b: "take b s = take a s @ u"
    using assms(1) by (simp add: u_def take_add [symmetric])
  have short: "length (take c s) < 2 ^ 64" for c using assms(4) by simp
  have get: "json_get w ''line'' = Some (json_nat (?nl (take c s)))"
    "json_get w ''character'' = Some (json_nat (utf16_units (last_line (take c s))))"
    if "source_position s c = Inr w" for c w
    using that by (simp_all add: source_position_Inr)
  have "json_nat (?nl (take a s)) = json_nat (?nl (take b s))"
    "json_nat (utf16_units (last_line (take a s))) = json_nat (utf16_units (last_line (take b s)))"
    using get [OF assms(2)] get [OF assms(3)] \<open>p = q\<close> by auto
  moreover have "?nl (take c s) < 2 ^ 64" for c
    using short [of c] length_filter_le le_less_trans by blast
  moreover have "utf16_units (last_line (take c s)) < 2 ^ 64" for c
    using utf16_units_le [of "last_line (take c s)"] last_line_length [of "take c s"] assms(4)
    by (auto intro: le_less_trans)
  ultimately have same: "?nl (take a s) = ?nl (take b s)"
    "utf16_units (last_line (take a s)) = utf16_units (last_line (take b s))"
    by (auto dest: json_nat_inj)
  from same(1) have "CHR 0x0A \<notin> set u" by (auto simp: take_b filter_empty_conv)
  then have "utf16_units u = 0" using same(2) by (simp add: take_b last_line_append utf16_units_append)
  moreover have "u \<noteq> []" "hd u = s ! a"
    using assms(1) b by (auto simp: u_def hd_drop_conv_nth)
  moreover have "\<not> is_cont (s ! a)"
  proof (cases "a = 0")
    case True
    obtain c t where "s = c # t" using assms(1) b by (cases s) auto
    with True assms(5) utf8_step show ?thesis by fastforce
  next
    case False
    with b assms(1) show ?thesis by (auto simp: is_char_boundary_def split: if_splits)
  qed
  ultimately show False by (cases u) (auto simp: utf16_units_def split: if_splits)
qed

text \<open>
  Source positions identify anchors: in one source text, two byte offsets that PET is asked
  about as the same line and UTF-16 column are the same offset; every character boundary has a
  position, and an offset that is not one is refused.
\<close>

theorem source_position_injective:
  assumes "utf8 s" and "2 * length s < 2 ^ 64"
  shows "(\<forall>a b p. source_position s a = Inr p \<and> source_position s b = Inr p \<longrightarrow> a = b)
    \<and> (\<forall>a. (\<exists>p. source_position s a = Inr p) \<longleftrightarrow> a \<le> length s \<and> is_char_boundary s a)"
  using source_position_less [OF _ _ _ assms(2,1)] by (metis nat_neq_iff source_position_Inr)

theorem source_position_injective_witness:
  "utf8 [CHR ''a'', CHR 0xC3, CHR 0xA9, CHR 0x0A]
   \<and> (\<exists>p. source_position [CHR ''a'', CHR 0xC3, CHR 0xA9, CHR 0x0A] 3 = Inr p)
   \<and> \<not> (\<exists>p. source_position [CHR ''a'', CHR 0xC3, CHR 0xA9, CHR 0x0A] 2 = Inr p)"
proof -
  let ?s = "[CHR ''a'', CHR 0xC3, CHR 0xA9, CHR 0x0A]"
  have u: "utf8 ?s" by code_simp
  have b: "is_char_boundary ?s 3" "\<not> is_char_boundary ?s 2" by code_simp+
  have "(\<exists>p. source_position ?s a = Inr p) \<longleftrightarrow> a \<le> length ?s \<and> is_char_boundary ?s a" for a
    using source_position_injective [OF u] by simp
  with u b show ?thesis by simp
qed

definition MAX_STDERR_BYTES :: nat where "MAX_STDERR_BYTES = 16 * 1024"

text \<open>\<open>StderrTail\<close>: a deque of the last bytes of the child's standard error.\<close>

definition tail_push :: "string \<Rightarrow> char \<Rightarrow> string" where
  "tail_push t b = (if length t = MAX_STDERR_BYTES then tl t else t) @ [b]"

definition stderr_append :: "string \<Rightarrow> string \<Rightarrow> string" where
  "stderr_append t bytes =
     (let keep = min MAX_STDERR_BYTES (length bytes) in
      foldl tail_push (if keep < length bytes then [] else t) (drop (length bytes - keep) bytes))"

definition last_bytes :: "string \<Rightarrow> string" where
  "last_bytes s = drop (length s - MAX_STDERR_BYTES) s"

lemma tail_push_last: "tail_push (last_bytes s) b = last_bytes (s @ [b])"
proof (cases "length s < MAX_STDERR_BYTES")
  case True
  then show ?thesis by (auto simp: tail_push_def last_bytes_def)
next
  case False
  then have "Suc (length s) - MAX_STDERR_BYTES = Suc (length s - MAX_STDERR_BYTES)" by simp
  with False show ?thesis
    by (auto simp: tail_push_def last_bytes_def tl_drop drop_Suc MAX_STDERR_BYTES_def)
qed

lemma tail_push_fold: "foldl tail_push (last_bytes s) bs = last_bytes (s @ bs)"
  by (induction bs arbitrary: s) (simp_all add: tail_push_last)

lemma stderr_append_last: "stderr_append (last_bytes s) bytes = last_bytes (s @ bytes)"
proof (cases "length bytes \<le> MAX_STDERR_BYTES")
  case True
  then show ?thesis by (simp add: stderr_append_def Let_def min_def tail_push_fold)
next
  case False
  let ?k = "length bytes - MAX_STDERR_BYTES"
  have "stderr_append (last_bytes s) bytes = foldl tail_push (last_bytes []) (drop ?k bytes)"
    using False by (simp add: stderr_append_def Let_def min_def last_bytes_def)
  also have "\<dots> = last_bytes (drop ?k bytes)" by (simp add: tail_push_fold)
  also have "\<dots> = last_bytes (s @ bytes)" using False by (simp add: last_bytes_def)
  finally show ?thesis .
qed

text \<open>
  The diagnostic tail is exact and bounded: whatever chunks the child writes to its standard
  error, the tail is the last 16 KiB of their concatenation.
\<close>

theorem stderr_tail_exact:
  "foldl stderr_append [] chunks = last_bytes (concat chunks)
   \<and> length (foldl stderr_append [] chunks) \<le> 16384"
proof -
  have "foldl stderr_append (last_bytes s) chunks = last_bytes (s @ concat chunks)" for s
    by (induction chunks arbitrary: s) (simp_all add: stderr_append_last)
  from this [of "[]"] have "foldl stderr_append [] chunks = last_bytes (concat chunks)"
    by (simp add: last_bytes_def)
  then show ?thesis by (simp add: last_bytes_def MAX_STDERR_BYTES_def)
qed

end
