(* ===== verification/Pet_Actor.thy ===== *)
theory Pet_Actor
  imports Pet_Transport
begin

text \<open>
  The PET actor of \<open>rocq-engine/src/pet/mod.rs\<close>: the owner of at most one PET process and of the
  workspace that process was configured for. The actor's state is a record that the outer layers
  extend. What is outside the program is a parameter record \<open>pet_env\<close> over a world \<open>'w\<close> that every
  call may change: spawning, the clock, file reads, the async side of the request, \<open>serde_json\<close>.
  A spawned process carries the script of its pipes (see \<open>Pet_Transport\<close>). The trace lists what the
  actor did to processes: spawned, sent a request to, terminated.
\<close>

section \<open>State and environment\<close>

datatype child_status = ChildExited string | ChildRunning | StatusUnavailable string

text \<open>One observation of \<open>process_diagnostic\<close>: the child's status and the decoded tail of its
  standard error.\<close>

record pet_process =
  handle :: nat
  next_id :: u64
  out_buffer :: string
  polls :: "poll_event list"
  reads :: "read_event list"
  writes :: "string option list"
  diagnoses :: "(child_status \<times> string) list"

datatype spawn_failure = SpawnError string | NoStdin | NoStdout | NoStderr | NoStderrReader string

datatype actor_event = Spawned nat | Sent nat u64 string | Terminated nat

record 'w actor =
  signal :: "u8 option"
  process :: "pet_process option"
  actor_ws :: "pet_workspace option"
  world :: 'w
  trace :: "actor_event list"

record 'w pet_env =
  pet_spawn :: "path \<Rightarrow> 'w \<Rightarrow> (spawn_failure + pet_process) \<times> 'w"
  async_signal :: "'w \<Rightarrow> async_event \<times> 'w"
  clock :: "'w \<Rightarrow> nat \<times> 'w"
  read_file :: "path \<Rightarrow> 'w \<Rightarrow> string option \<times> 'w"
  json_ser :: "json \<Rightarrow> string option"
  json_de :: "string \<Rightarrow> string + json"
  de_error :: "string \<Rightarrow> json \<Rightarrow> string"

text \<open>An external call and a step of the async side.\<close>

definition external :: "('w \<Rightarrow> 'a \<times> 'w) \<Rightarrow> (('w, 's) actor_scheme, 'e, 'a) eff" where
  "external f = (\<lambda>a. case f (world a) of (x, w) \<Rightarrow> (Inr x, a\<lparr>world := w\<rparr>))"

definition observe_signal :: "('w, 'z) pet_env_scheme \<Rightarrow> (('w, 's) actor_scheme, 'e, u8 option) eff" where
  "observe_signal env =
     and_then (external (async_signal env)) (\<lambda>ev.
     and_then (modify (\<lambda>a. a\<lparr>signal := async_apply ev (signal a)\<rparr>)) (\<lambda>_. gets signal))"

definition log_event :: "actor_event \<Rightarrow> (('w, 's) actor_scheme, 'e, unit) eff" where
  "log_event ev = modify (\<lambda>a. a\<lparr>trace := trace a @ [ev]\<rparr>)"

text \<open>\<open>state.process.take(); state.workspace.take();\<close>: dropping a process terminates the child.\<close>

definition take_process :: "(('w, 's) actor_scheme, 'e, unit) eff" where
  "take_process = modify (\<lambda>a. a\<lparr>process := None, actor_ws := None,
     trace := trace a @ (case process a of None \<Rightarrow> [] | Some p \<Rightarrow> [Terminated (handle p)])\<rparr>)"

definition poison_if_invalidated :: "pet_error \<Rightarrow> (('w, 's) actor_scheme, 'e, unit) eff" where
  "poison_if_invalidated e = (if invalidates_process e then take_process else ret ())"

text \<open>\<open>return Err(error)\<close> after \<open>poison_if_invalidated(&error)\<close>, the pattern of every decoder.\<close>

definition fail_poisoned :: "pet_error \<Rightarrow> (('w, 's) actor_scheme, pet_error, 'a) eff" where
  "fail_poisoned e = and_then (poison_if_invalidated e) (\<lambda>_. throw e)"

definition checked :: "pet_error + 'a \<Rightarrow> (('w, 's) actor_scheme, pet_error, 'a) eff" where
  "checked r = (case r of Inl e \<Rightarrow> fail_poisoned e | Inr x \<Rightarrow> ret x)"

section \<open>One request\<close>

fun status_text :: "child_status \<Rightarrow> string" where
  "status_text (ChildExited m) = ''child exited with '' @ m"
| "status_text ChildRunning = ''child is still running''"
| "status_text (StatusUnavailable m) = ''child status unavailable: '' @ m"

definition process_diagnostic :: "pet_process \<Rightarrow> string \<times> pet_process" where
  "process_diagnostic p =
     (case diagnoses p of
        [] \<Rightarrow> (status_text ChildRunning, p)
      | (status, stderr) # ds \<Rightarrow>
          (if trim stderr = [] then status_text status
           else status_text status @ ''; stderr: '' @ trim stderr, p\<lparr>diagnoses := ds\<rparr>))"

definition annotate_transport :: "pet_error \<Rightarrow> pet_process \<Rightarrow> pet_error \<times> pet_process" where
  "annotate_transport e p =
     (if \<not> is_transport_loss e then (e, p)
      else case process_diagnostic p of (detail, p') \<Rightarrow>
        (case e of
           ProcessLost m \<Rightarrow> ProcessLost (m @ ''; '' @ detail)
         | Protocol m \<Rightarrow> Protocol (m @ ''; '' @ detail)
         | OutputOverflow \<Rightarrow> Protocol (''response exceeded the output limit; '' @ detail)
         | other \<Rightarrow> other, p'))"

definition transport_error :: "string \<Rightarrow> string \<Rightarrow> pet_process \<Rightarrow> pet_error \<times> pet_process" where
  "transport_error operation m p =
     (case process_diagnostic p of (detail, p') \<Rightarrow>
        (ProcessLost (''connection '' @ operation @ '' failed: '' @ m @ ''; '' @ detail), p'))"

definition request_json :: "u64 \<Rightarrow> string \<Rightarrow> json \<Rightarrow> json" where
  "request_json i meth params = json_obj
     [(''jsonrpc'', JString ''2.0''), (''id'', JNumber (PosInt i)), (''method'', JString meth),
      (''params'', params)]"

definition opt_deadline :: "('w, 'z) pet_env_scheme \<Rightarrow> nat option
    \<Rightarrow> (('w, 's) actor_scheme, pet_error, response_deadline option) eff" where
  "opt_deadline env dur =
     (case dur of
        None \<Rightarrow> ret None
      | Some t \<Rightarrow> and_then (external (clock env)) (\<lambda>now.
          lift_result (case deadline_new now t of Inl e \<Rightarrow> Inl e | Inr d \<Rightarrow> Inr (Some d))))"

text \<open>
  The exchange on the pipes: write the frame, read the response, terminate on an interruption,
  annotate a transport loss. The result is a value, since the process is returned with it.
\<close>

definition exchange ::
  "('w, 'z) pet_env_scheme \<Rightarrow> u64 \<Rightarrow> string \<Rightarrow> string \<Rightarrow> response_deadline option \<Rightarrow> pet_process
   \<Rightarrow> ('w, 's) actor_scheme \<Rightarrow> ((pet_error + json) \<times> pet_process) \<times> ('w, 's) actor_scheme" where
  "exchange env i meth request d p a =
     (let a1 = a\<lparr>trace := trace a @ [Sent (handle p) i meth]\<rparr> in
      case writes p of
        Some m # ws \<Rightarrow>
          (case transport_error ''stdin write'' m (p\<lparr>writes := ws\<rparr>) of (e, p') \<Rightarrow> ((Inl e, p'), a1))
      | ws \<Rightarrow>
          (case read_response (json_de env) i d
              \<lparr>rd_signal = signal a1, rd_buffer = out_buffer p, rd_polls = polls p, rd_reads = reads p\<rparr> of
             (res, r) \<Rightarrow>
               (let p1 = p\<lparr>writes := tl ws, out_buffer := rd_buffer r, polls := rd_polls r, reads := rd_reads r\<rparr>;
                    a2 = a1\<lparr>signal := rd_signal r\<rparr>
                in case res of
                     Inr v \<Rightarrow> ((Inr v, p1), a2)
                   | Inl e \<Rightarrow>
                       (case annotate_transport e p1 of (e', p2) \<Rightarrow>
                          ((Inl e', p2),
                           (case e of
                              Cancelled \<Rightarrow> a2\<lparr>trace := trace a2 @ [Terminated (handle p)]\<rparr>
                            | TimedOut _ \<Rightarrow> a2\<lparr>trace := trace a2 @ [Terminated (handle p)]\<rparr>
                            | _ \<Rightarrow> a2))))))"

definition rpc_with_timeout ::
  "('w, 'z) pet_env_scheme \<Rightarrow> string \<Rightarrow> json \<Rightarrow> nat option \<Rightarrow> pet_process
   \<Rightarrow> ('w, 's) actor_scheme \<Rightarrow> ((pet_error + json) \<times> pet_process) \<times> ('w, 's) actor_scheme" where
  "rpc_with_timeout env meth params dur p a =
     (case checked_add (next_id p) 1 of
        None \<Rightarrow> ((Inl (Protocol ''PET request id space exhausted''), p), a)
      | Some n \<Rightarrow>
          (let p1 = p\<lparr>next_id := n\<rparr> in
           case json_ser env (request_json (next_id p) meth params) of
             None \<Rightarrow> ((Inl (Invalid ''request encoding failed''), p1), a)
           | Some request \<Rightarrow>
               (if MAX_REQUEST_BYTES < length request
                then ((Inl (Invalid ''request is oversized''), p1), a)
                else case opt_deadline env dur a of
                  (Inl e, a1) \<Rightarrow> ((Inl e, p1), a1)
                | (Inr d, a1) \<Rightarrow>
                    (case observe_signal env a1 of
                       (Inl e, a2) \<Rightarrow> ((Inl e, p1), a2)
                     | (Inr c, a2) \<Rightarrow>
                         (if request_cancelled c
                          then ((Inl Cancelled, p1), a2\<lparr>trace := trace a2 @ [Terminated (handle p1)]\<rparr>)
                          else exchange env (next_id p) meth request d p1 a2)))))"

definition rpc ::
  "('w, 'z) pet_env_scheme \<Rightarrow> string \<Rightarrow> json \<Rightarrow> pet_process
   \<Rightarrow> ('w, 's) actor_scheme \<Rightarrow> ((pet_error + json) \<times> pet_process) \<times> ('w, 's) actor_scheme" where
  "rpc env meth params p a = rpc_with_timeout env meth params None p a"

section \<open>Typed responses\<close>

record pet_execution =
  px_state :: pet_state_id
  px_proof_finished :: bool
  px_goals :: pet_goals

record pet_trace_step =
  ts_sentence_index :: nat
  ts_byte_start :: nat
  ts_byte_end :: nat
  ts_command :: string

record pet_trace_failure =
  tf_error :: pet_error
  tf_sentence_index :: nat
  tf_sentence_range :: proof_diagnostic
  tf_before_state :: pet_state_id
  tf_before_goals :: pet_goals
  tf_trace :: "pet_trace_step list"

datatype pet_trace_outcome = OutcomeSuccess pet_execution | OutcomeFailure pet_trace_failure

record raw_trace_failure =
  rf_code :: int
  rf_message :: string
  rf_sentence_index :: nat
  rf_sentence_start :: nat
  rf_sentence_end :: nat
  rf_diagnostic_start :: "nat option"
  rf_diagnostic_end :: "nat option"
  rf_before :: u64
  rf_trace :: "pet_trace_step list"

record raw_trace_response =
  rt_st :: "u64 option"
  rt_proof_finished :: bool
  rt_failure :: "raw_trace_failure option"

record pet_declaration =
  pd_qualified_path :: "string list"
  pd_kind :: string
  pd_range :: pet_range
  pd_declaration_range :: pet_range
  pd_proof_finished :: bool
  pd_statement :: string

datatype pet_assumption_kind =
  AxiomAssumption | Positive | Guarded | TypeInType | Uip | SectionVariable | Opaque | Transparent

record pet_assumption =
  pa_kind :: pet_assumption_kind
  pa_qualified_path :: "string list"

record pet_theory_assumptions =
  rewrite_rules :: bool
  impredicative_set :: bool
  type_in_type :: bool

record pet_assumption_report =
  assumptions_list :: "pet_assumption list"
  theory_flags :: pet_theory_assumptions

text \<open>A required field of a derived \<open>Deserialize\<close>.\<close>

definition field :: "(string \<Rightarrow> json option) \<Rightarrow> string \<Rightarrow> (json \<Rightarrow> 'a option) \<Rightarrow> 'a option" where
  "field fs k f = Option.bind (fs k) f"

definition de_trace_step :: "json \<Rightarrow> pet_trace_step option" where
  "de_trace_step v =
     Option.bind (struct_fields [''sentence_index'', ''byte_start'', ''byte_end'', ''command''] v) (\<lambda>fs.
     Option.bind (field fs ''sentence_index'' as_usize) (\<lambda>i.
     Option.bind (field fs ''byte_start'' as_usize) (\<lambda>b.
     Option.bind (field fs ''byte_end'' as_usize) (\<lambda>e.
     Option.bind (field fs ''command'' as_str) (\<lambda>c.
     Some \<lparr>ts_sentence_index = i, ts_byte_start = b, ts_byte_end = e, ts_command = c\<rparr>)))))"

definition de_trace_failure :: "json \<Rightarrow> raw_trace_failure option" where
  "de_trace_failure v =
     Option.bind (struct_fields [''code'', ''message'', ''sentence_index'', ''sentence_start'',
        ''sentence_end'', ''diagnostic_start'', ''diagnostic_end'', ''before'', ''trace''] v) (\<lambda>fs.
     Option.bind (field fs ''code'' as_i64) (\<lambda>code.
     Option.bind (field fs ''message'' as_str) (\<lambda>m.
     Option.bind (field fs ''sentence_index'' as_usize) (\<lambda>i.
     Option.bind (field fs ''sentence_start'' as_usize) (\<lambda>b.
     Option.bind (field fs ''sentence_end'' as_usize) (\<lambda>e.
     Option.bind (de_option as_usize (fs ''diagnostic_start'')) (\<lambda>db.
     Option.bind (de_option as_usize (fs ''diagnostic_end'')) (\<lambda>de.
     Option.bind (field fs ''before'' as_u64) (\<lambda>before.
     Option.bind (field fs ''trace'' (de_list de_trace_step)) (\<lambda>tr.
     Some \<lparr>rf_code = code, rf_message = m, rf_sentence_index = i, rf_sentence_start = b,
       rf_sentence_end = e, rf_diagnostic_start = db, rf_diagnostic_end = de, rf_before = before,
       rf_trace = tr\<rparr>))))))))))"

definition de_trace_response :: "json \<Rightarrow> raw_trace_response option" where
  "de_trace_response v =
     Option.bind (struct_fields [''st'', ''proof_finished'', ''failure''] v) (\<lambda>fs.
     Option.bind (de_option as_u64 (fs ''st'')) (\<lambda>st.
     Option.bind (field fs ''proof_finished'' as_bool) (\<lambda>fin.
     Option.bind (de_option de_trace_failure (fs ''failure'')) (\<lambda>fl.
     Some \<lparr>rt_st = st, rt_proof_finished = fin, rt_failure = fl\<rparr>))))"

definition de_range :: "json \<Rightarrow> pet_range option" where
  "de_range v =
     Option.bind (struct_fields [''start'', ''end''] v) (\<lambda>fs.
     Option.bind (field fs ''start'' as_usize) (\<lambda>b.
     Option.bind (field fs ''end'' as_usize) (\<lambda>e.
     Some \<lparr>pr_start = b, pr_end = e\<rparr>)))"

definition de_declaration :: "json \<Rightarrow> pet_declaration option" where
  "de_declaration v =
     Option.bind (struct_fields [''qualified_path'', ''kind'', ''range'', ''declaration_range'',
        ''proof_finished'', ''statement''] v) (\<lambda>fs.
     Option.bind (field fs ''qualified_path'' (de_list as_str)) (\<lambda>q.
     Option.bind (field fs ''kind'' as_str) (\<lambda>k.
     Option.bind (field fs ''range'' de_range) (\<lambda>rng.
     Option.bind (field fs ''declaration_range'' de_range) (\<lambda>drng.
     Option.bind (field fs ''proof_finished'' as_bool) (\<lambda>fin.
     Option.bind (field fs ''statement'' as_str) (\<lambda>st.
     Some \<lparr>pd_qualified_path = q, pd_kind = k, pd_range = rng, pd_declaration_range = drng,
       pd_proof_finished = fin, pd_statement = st\<rparr>)))))))"

text \<open>A unit variant is its name, or an object with the name as only key and \<open>null\<close>.\<close>

definition de_variant :: "json \<Rightarrow> string option" where
  "de_variant v = (case v of JString s \<Rightarrow> Some s | JObject [(k, JNull)] \<Rightarrow> Some k | _ \<Rightarrow> None)"

definition de_assumption_kind :: "json \<Rightarrow> pet_assumption_kind option" where
  "de_assumption_kind v =
     Option.bind (de_variant v) (\<lambda>s.
       map_of [(''axiom'', AxiomAssumption), (''positive'', Positive), (''guarded'', Guarded),
         (''type_in_type'', TypeInType), (''uip'', Uip), (''section_variable'', SectionVariable),
         (''opaque'', Opaque), (''transparent'', Transparent)] s)"

definition de_assumption :: "json \<Rightarrow> pet_assumption option" where
  "de_assumption v =
     Option.bind (struct_fields [''kind'', ''qualified_path''] v) (\<lambda>fs.
     Option.bind (field fs ''kind'' de_assumption_kind) (\<lambda>k.
     Option.bind (field fs ''qualified_path'' (de_list as_str)) (\<lambda>q.
     Some \<lparr>pa_kind = k, pa_qualified_path = q\<rparr>)))"

definition de_theory :: "json \<Rightarrow> pet_theory_assumptions option" where
  "de_theory v =
     Option.bind (struct_fields [''rewrite_rules'', ''impredicative_set'', ''type_in_type''] v) (\<lambda>fs.
     Option.bind (field fs ''rewrite_rules'' as_bool) (\<lambda>r.
     Option.bind (field fs ''impredicative_set'' as_bool) (\<lambda>i.
     Option.bind (field fs ''type_in_type'' as_bool) (\<lambda>t.
     Some \<lparr>rewrite_rules = r, impredicative_set = i, type_in_type = t\<rparr>))))"

definition de_assumption_report :: "json \<Rightarrow> pet_assumption_report option" where
  "de_assumption_report v =
     Option.bind (struct_fields [''assumptions'', ''theory''] v) (\<lambda>fs.
     Option.bind (field fs ''assumptions'' (de_list de_assumption)) (\<lambda>as.
     Option.bind (field fs ''theory'' de_theory) (\<lambda>t.
     Some \<lparr>assumptions_list = as, theory_flags = t\<rparr>)))"

definition de_release_response :: "json \<Rightarrow> (u64 list \<times> u64 list) option" where
  "de_release_response v =
     Option.bind (struct_fields [''released'', ''missing''] v) (\<lambda>fs.
     Option.bind (field fs ''released'' (de_list as_u64)) (\<lambda>r.
     Option.bind (field fs ''missing'' (de_list as_u64)) (\<lambda>m. Some (r, m))))"

section \<open>Process lifecycle\<close>

definition REQUIRED_CAPABILITIES :: "string list" where
  "REQUIRED_CAPABILITIES =
     [''document_declarations_v2'', ''dune_workspace_v1'', ''insertion_point_v1'', ''atomic_run_v1'',
      ''release_states_v1'', ''refresh_workspace_v1'', ''structured_assumptions_v1'',
      ''typed_errors_v1'', ''diagnostic_ranges_v1'', ''traced_run_v1'']"

fun spawn_error :: "spawn_failure \<Rightarrow> pet_error" where
  "spawn_error (SpawnError m) = Environment (''executable is unavailable: '' @ m)"
| "spawn_error NoStdin = ProcessLost ''input channel is unavailable''"
| "spawn_error NoStdout = ProcessLost ''output channel is unavailable''"
| "spawn_error NoStderr = ProcessLost ''diagnostic channel is unavailable''"
| "spawn_error (NoStderrReader m) = Environment (''diagnostic reader is unavailable: '' @ m)"

definition spawn :: "('w, 'z) pet_env_scheme \<Rightarrow> path \<Rightarrow> (('w, 's) actor_scheme, pet_error, pet_process) eff" where
  "spawn env root =
     and_then (external (pet_spawn env root)) (\<lambda>res.
     (case res of
        Inl f \<Rightarrow> throw (spawn_error f)
      | Inr p \<Rightarrow>
          and_then (log_event (Spawned (handle p))) (\<lambda>_. ret (p\<lparr>next_id := 1, out_buffer := []\<rparr>))))"

definition check_capabilities :: "json \<Rightarrow> pet_error + unit" where
  "check_capabilities v =
     (case de_list as_str v of
        None \<Rightarrow> Inl (Protocol ''PET capabilities response is invalid'')
      | Some caps \<Rightarrow>
          (let missing = filter (\<lambda>c. c \<notin> set caps) REQUIRED_CAPABILITIES in
           if missing = [] then Inr ()
           else Inl (Environment (''required capabilities are missing: '' @ join '', '' missing))))"

text \<open>A handshake that fails drops the process, which is not the actor's yet.\<close>

definition handshake ::
  "('w, 'z) pet_env_scheme \<Rightarrow> pet_process \<Rightarrow> (('w, 's) actor_scheme, pet_error, pet_process) eff" where
  "handshake env p a =
     (case rpc env ''petanque/capabilities'' (json_obj []) p a of
        ((res, p'), a') \<Rightarrow>
          (case result_bind res check_capabilities of
             Inl e \<Rightarrow> (Inl e, a'\<lparr>trace := trace a' @ [Terminated (handle p')]\<rparr>)
           | Inr _ \<Rightarrow> (Inr p', a')))"

text \<open>One request on the actor's process; an error that invalidates it takes it.\<close>

definition actor_rpc ::
  "('w, 'z) pet_env_scheme \<Rightarrow> string \<Rightarrow> json \<Rightarrow> nat option \<Rightarrow> pet_process \<Rightarrow> (('w, 's) actor_scheme, pet_error, json) eff" where
  "actor_rpc env meth params dur p a =
     (case rpc_with_timeout env meth params dur p a of
        ((Inr v, p'), a') \<Rightarrow> (Inr v, a'\<lparr>process := Some p'\<rparr>)
      | ((Inl e, p'), a') \<Rightarrow>
          and_then (poison_if_invalidated e) (\<lambda>_. throw e) (a'\<lparr>process := Some p'\<rparr>))"

definition load_path_json :: "pet_load_path \<Rightarrow> json" where
  "load_path_json m = json_obj [(''physical'', JString (path_str (physical m))),
     (''logical'', JString (join ''.'' (logical m))), (''implicit'', JBool (implicit m))]"

definition set_workspace_params :: "pet_workspace \<Rightarrow> json" where
  "set_workspace_params ws = json_obj [(''debug'', JBool False), (''root'', JString (file_uri (ws_root ws))),
     (''load_paths'', JArray (map load_path_json (load_paths ws)))]"

definition start_process :: "('w, 'z) pet_env_scheme \<Rightarrow> pet_workspace \<Rightarrow> (('w, 's) actor_scheme, pet_error, unit) eff" where
  "start_process env ws =
     and_then (spawn env (ws_root ws)) (\<lambda>p.
     and_then (handshake env p) (\<lambda>p'.
     modify (\<lambda>a. a\<lparr>process := Some p', actor_ws := None\<rparr>)))"

definition configure_workspace :: "('w, 'z) pet_env_scheme \<Rightarrow> pet_workspace \<Rightarrow> pet_process \<Rightarrow> (('w, 's) actor_scheme, pet_error, unit) eff" where
  "configure_workspace env ws p =
     and_then (actor_rpc env ''petanque/setWorkspace'' (set_workspace_params ws) None p) (\<lambda>v.
     if \<not> is_null v
     then and_then take_process (\<lambda>_. throw (Protocol ''setWorkspace returned a non-null result''))
     else modify (\<lambda>a. a\<lparr>actor_ws := Some ws\<rparr>))"

text \<open>The source \<open>expect\<close>s a process after the first part of \<open>ensure_process\<close>; the branch without one
  is that panic, and \<open>ensure_process_ok\<close> below shows that it is not taken.\<close>

definition ensure_process :: "('w, 'z) pet_env_scheme \<Rightarrow> pet_workspace \<Rightarrow> (('w, 's) actor_scheme, pet_error, unit) eff" where
  "ensure_process env ws =
     and_then (\<lambda>a. if process a = None then start_process env ws a else (Inr (), a)) (\<lambda>_.
     (\<lambda>a. if actor_ws a \<noteq> Some ws
          then (case process a of
                  None \<Rightarrow> (Inl (ProcessLost ''PET exists''), a)
                | Some p \<Rightarrow> configure_workspace env ws p a)
          else (Inr (), a)))"

definition replace_locked :: "('w, 'z) pet_env_scheme \<Rightarrow> pet_workspace \<Rightarrow> (('w, 's) actor_scheme, pet_error, unit) eff" where
  "replace_locked env ws = and_then take_process (\<lambda>_. ensure_process env ws)"

definition restart :: "(('w, 's) actor_scheme, 'e, unit) eff" where
  "restart = take_process"

definition call_in_workspace ::
  "('w, 'z) pet_env_scheme \<Rightarrow> pet_workspace \<Rightarrow> string \<Rightarrow> json \<Rightarrow> (('w, 's) actor_scheme, pet_error, json) eff" where
  "call_in_workspace env ws meth params =
     and_then (ensure_process env ws) (\<lambda>_.
     (\<lambda>a. case process a of
        None \<Rightarrow> (Inl (ProcessLost ''PET exists''), a)
      | Some p \<Rightarrow> actor_rpc env meth params None p a))"

definition call_live_with_timeout ::
  "('w, 'z) pet_env_scheme \<Rightarrow> string \<Rightarrow> json \<Rightarrow> nat option \<Rightarrow> (('w, 's) actor_scheme, pet_error, json) eff" where
  "call_live_with_timeout env meth params dur a =
     (case process a of
        None \<Rightarrow> (Inl (ProcessLost ''process is not running''), a)
      | Some p \<Rightarrow> actor_rpc env meth params dur p a)"

definition call_live ::
  "('w, 'z) pet_env_scheme \<Rightarrow> string \<Rightarrow> json \<Rightarrow> (('w, 's) actor_scheme, pet_error, json) eff" where
  "call_live env meth params = call_live_with_timeout env meth params None"

section \<open>Operations\<close>

definition document_declarations ::
  "('w, 'z) pet_env_scheme \<Rightarrow> pet_workspace \<Rightarrow> path \<Rightarrow> (('w, 's) actor_scheme, pet_error, pet_declaration list) eff" where
  "document_declarations env ws source =
     and_then (call_in_workspace env ws ''petanque/document_declarations''
       (json_obj [(''uri'', JString (file_uri source))])) (\<lambda>v.
     checked (ok_or (Protocol (''invalid PET declaration response: '' @ de_error env ''Vec<PetDeclaration>'' v))
       (de_list de_declaration v)))"

definition insertion_point ::
  "('w, 'z) pet_env_scheme \<Rightarrow> pet_workspace \<Rightarrow> path \<Rightarrow> string list \<Rightarrow> (('w, 's) actor_scheme, pet_error, nat) eff" where
  "insertion_point env ws source modules =
     and_then (call_in_workspace env ws ''petanque/insertion_point''
       (json_obj [(''uri'', JString (file_uri source)), (''modules'', JArray (map JString modules))])) (\<lambda>v.
     checked (ok_or (Protocol ''PET insertion point is invalid'') (as_usize v)))"

definition state_json :: "pet_state_id \<Rightarrow> json" where
  "state_json st = JNumber (PosInt st)"

definition goals_of :: "('w, 'z) pet_env_scheme \<Rightarrow> pet_state_id \<Rightarrow> (('w, 's) actor_scheme, pet_error, pet_goals) eff" where
  "goals_of env st =
     and_then (call_live env ''petanque/goals'' (json_obj [(''st'', state_json st)])) (\<lambda>v.
     checked (decode_goals v))"

definition release_states :: "('w, 'z) pet_env_scheme \<Rightarrow> pet_state_id list \<Rightarrow> (('w, 's) actor_scheme, pet_error, unit) eff" where
  "release_states env states =
     (if states = [] then ret ()
      else
        and_then (call_live env ''petanque/release_states'' (json_obj [(''states'', JArray (map state_json states))])) (\<lambda>v.
        and_then (checked (ok_or (Protocol ''PET release response is invalid'') (de_release_response v))) (\<lambda>(released, missing).
        if length released + length missing \<noteq> length states
        then fail_poisoned (Protocol ''PET release response has the wrong cardinality'')
        else ret ())))"

text \<open>Goals of a state that was just exported; when they fail the state is released, best effort.\<close>

definition goals_or_release :: "('w, 'z) pet_env_scheme \<Rightarrow> pet_state_id \<Rightarrow> (('w, 's) actor_scheme, pet_error, pet_goals) eff" where
  "goals_or_release env st =
     and_then (attempt (goals_of env st)) (\<lambda>res.
     (case res of
        Inr g \<Rightarrow> ret g
      | Inl e \<Rightarrow> and_then (attempt (release_states env [st])) (\<lambda>_ :: pet_error + unit. throw e)))"

definition materialize_run :: "('w, 'z) pet_env_scheme \<Rightarrow> json \<Rightarrow> (('w, 's) actor_scheme, pet_error, pet_execution) eff" where
  "materialize_run env v =
     and_then (checked (parse_run_result v)) (\<lambda>run.
     and_then (goals_or_release env (rr_st run)) (\<lambda>g.
     ret \<lparr>px_state = rr_st run, px_proof_finished = rr_proof_finished run, px_goals = g\<rparr>))"

text \<open>\<open>fs::read_to_string\<close> on the bytes that \<open>fs::read\<close> gives: they must be UTF-8.\<close>

definition utf8_text :: "string option \<Rightarrow> string option" where
  "utf8_text bytes = Option.bind bytes (\<lambda>t. if utf8 t then Some t else None)"

definition state_at ::
  "('w, 'z) pet_env_scheme \<Rightarrow> pet_workspace \<Rightarrow> path \<Rightarrow> nat \<Rightarrow> (('w, 's) actor_scheme, pet_error, pet_execution) eff" where
  "state_at env ws source offset =
     and_then (external (read_file env source)) (\<lambda>bytes.
     and_then (lift_result (ok_or (Environment ''source is unavailable'') (utf8_text bytes))) (\<lambda>text.
     and_then (lift_result (source_position text offset)) (\<lambda>position.
     and_then (call_in_workspace env ws ''petanque/get_state_at_pos''
       (json_obj [(''uri'', JString (file_uri source)), (''position'', position)])) (\<lambda>v.
     materialize_run env v))))"

definition range_outside :: "string \<Rightarrow> proof_diagnostic \<Rightarrow> bool" where
  "range_outside fragment d \<longleftrightarrow>
     length fragment < byte_end d \<or> \<not> is_char_boundary fragment (byte_start d)
     \<or> \<not> is_char_boundary fragment (byte_end d)"

definition run_with_timeout ::
  "('w, 'z) pet_env_scheme \<Rightarrow> pet_state_id \<Rightarrow> string \<Rightarrow> nat option \<Rightarrow> (('w, 's) actor_scheme, pet_error, pet_execution) eff" where
  "run_with_timeout env st fragment dur =
     and_then (when_err (MAX_REQUEST_BYTES div 2 < length fragment) (Invalid ''proof fragment is oversized'')) (\<lambda>_.
     and_then (attempt (call_live_with_timeout env ''petanque/run''
       (json_obj [(''st'', state_json st), (''tac'', JString fragment)]) dur)) (\<lambda>res.
     (case res of
        Inl (Remote code k m (Some d)) \<Rightarrow>
          (if range_outside fragment d
           then fail_poisoned (Protocol ''PET diagnostic range is outside the submitted fragment'')
           else throw (Remote code k m (Some d)))
      | Inl e \<Rightarrow> throw e
      | Inr v \<Rightarrow> materialize_run env v)))"

definition pet_run :: "('w, 'z) pet_env_scheme \<Rightarrow> pet_state_id \<Rightarrow> string \<Rightarrow> (('w, 's) actor_scheme, pet_error, pet_execution) eff" where
  "pet_run env st fragment = run_with_timeout env st fragment None"

definition range_invalid :: "string \<Rightarrow> nat \<Rightarrow> nat \<Rightarrow> bool" where
  "range_invalid fragment b e \<longleftrightarrow>
     e < b \<or> length fragment < e \<or> \<not> is_char_boundary fragment b \<or> \<not> is_char_boundary fragment e"

definition trace_failure_invalid :: "string \<Rightarrow> raw_trace_failure \<Rightarrow> bool" where
  "trace_failure_invalid fragment f \<longleftrightarrow>
     range_invalid fragment (rf_sentence_start f) (rf_sentence_end f)
     \<or> 64 < length (rf_trace f)
     \<or> list_ex (\<lambda>step. range_invalid fragment (ts_byte_start step) (ts_byte_end step)
          \<or> 4096 < length (ts_command step)) (rf_trace f)"

definition trace_diagnostic :: "string \<Rightarrow> raw_trace_failure \<Rightarrow> pet_error + proof_diagnostic option" where
  "trace_diagnostic fragment f =
     (case (rf_diagnostic_start f, rf_diagnostic_end f) of
        (Some b, Some e) \<Rightarrow>
          (if range_invalid fragment b e then Inl (Protocol ''PET traced-run diagnostic range is invalid'')
           else Inr (Some \<lparr>byte_start = b, byte_end = e\<rparr>))
      | (None, None) \<Rightarrow> Inr None
      | _ \<Rightarrow> Inl (Protocol ''PET traced-run diagnostic range is invalid''))"

definition traced_failure ::
  "('w, 'z) pet_env_scheme \<Rightarrow> string \<Rightarrow> raw_trace_failure \<Rightarrow> (('w, 's) actor_scheme, pet_error, pet_trace_outcome) eff" where
  "traced_failure env fragment f =
     (if trace_failure_invalid fragment f
      then fail_poisoned (Protocol ''PET traced-run range is outside the submitted fragment'')
      else
        and_then (checked (trace_diagnostic fragment f)) (\<lambda>diagnostic.
        and_then (goals_or_release env (rf_before f)) (\<lambda>before_goals.
        ret (OutcomeFailure
          \<lparr>tf_error = Remote (rf_code f) (from_code (rf_code f)) (rf_message f) diagnostic,
           tf_sentence_index = rf_sentence_index f,
           tf_sentence_range = \<lparr>byte_start = rf_sentence_start f, byte_end = rf_sentence_end f\<rparr>,
           tf_before_state = rf_before f, tf_before_goals = before_goals, tf_trace = rf_trace f\<rparr>))))"

definition run_traced_with_timeout ::
  "('w, 'z) pet_env_scheme \<Rightarrow> pet_state_id \<Rightarrow> string \<Rightarrow> bool \<Rightarrow> nat option
   \<Rightarrow> (('w, 's) actor_scheme, pet_error, pet_trace_outcome) eff" where
  "run_traced_with_timeout env st fragment include_trace dur =
     and_then (when_err (MAX_REQUEST_BYTES div 2 < length fragment) (Invalid ''proof fragment is oversized'')) (\<lambda>_.
     and_then (call_live_with_timeout env ''petanque/run_trace''
       (json_obj [(''st'', state_json st), (''tac'', JString fragment), (''include_trace'', JBool include_trace)]) dur) (\<lambda>v.
     and_then (checked (ok_or (Protocol (''invalid PET traced-run response: '' @ de_error env ''RawTraceResponse'' v))
       (de_trace_response v))) (\<lambda>raw.
     (case (rt_st raw, rt_failure raw) of
        (Some st', None) \<Rightarrow>
          and_then (materialize_run env
            (json_obj [(''st'', state_json st'), (''proof_finished'', JBool (rt_proof_finished raw))])) (\<lambda>x.
          ret (OutcomeSuccess x))
      | (None, Some f) \<Rightarrow>
          (if rt_proof_finished raw
           then fail_poisoned (Protocol ''PET traced-run success/failure fields are inconsistent'')
           else traced_failure env fragment f)
      | _ \<Rightarrow> fail_poisoned (Protocol ''PET traced-run success/failure fields are inconsistent'')))))"

definition validate_report :: "pet_assumption_report \<Rightarrow> pet_error + pet_assumption_report" where
  "validate_report report =
     (if list_ex (\<lambda>x. pa_qualified_path x = [] \<or> list_ex (\<lambda>c. c = []) (pa_qualified_path x)) (assumptions_list report)
      then Inl (Protocol ''PET assumption response contains an invalid path'') else Inr report)"

definition assumptions ::
  "('w, 'z) pet_env_scheme \<Rightarrow> pet_state_id \<Rightarrow> string list \<Rightarrow> (('w, 's) actor_scheme, pet_error, pet_assumption_report) eff" where
  "assumptions env st q =
     and_then (call_live env ''petanque/assumptions''
       (json_obj [(''st'', state_json st), (''qualified_path'', JArray (map JString q))])) (\<lambda>v.
     checked (result_bind
       (ok_or (Protocol (''invalid PET assumption response: '' @ de_error env ''PetAssumptionReport'' v))
         (de_assumption_report v)) validate_report))"

fun query_command :: "pet_query \<Rightarrow> string" where
  "query_command (Search p) = ''Search '' @ p @ ''.''"
| "query_command (About n) = ''About '' @ n @ ''.''"
| "query_command (Print n) = ''Print '' @ n @ ''.''"
| "query_command (Assumptions n) = ''Print Assumptions '' @ n @ ''.''"
| "query_command (Dependencies n) = ''Print All Dependencies '' @ n @ ''.''"
| "query_command (ExpressionType e) = ''Check ('' @ e @ '').''"
| "query_command (Notation e) = ''Lemma __rocq_mcp_notation_probe : '' @ e @ ''.''"

definition run_query :: "('w, 'z) pet_env_scheme \<Rightarrow> pet_state_id \<Rightarrow> pet_query \<Rightarrow> (('w, 's) actor_scheme, pet_error, string) eff" where
  "run_query env st q =
     (case q of
        Notation _ \<Rightarrow>
          and_then (call_live env ''petanque/list_notations_in_statement''
            (json_obj [(''st'', state_json st), (''statement'', JString (query_command q))])) (\<lambda>v.
          checked (ok_or (Protocol ''PET notation response is invalid'') (json_ser env v)))
      | _ \<Rightarrow>
          and_then (call_live env ''petanque/run''
            (json_obj [(''st'', state_json st), (''tac'', JString (query_command q))])) (\<lambda>v.
          and_then (checked (parse_run_result v)) (\<lambda>run.
          and_then (attempt (checked (parse_feedback v))) (\<lambda>feedback.
          and_then (attempt (release_states env [rr_st run])) (\<lambda>release.
          (case feedback of
             Inl e \<Rightarrow> throw e
           | Inr text \<Rightarrow> (case release of Inl e \<Rightarrow> throw e | Inr _ \<Rightarrow> ret text)))))))"

definition diagnostic_state_count :: "('w, 'z) pet_env_scheme \<Rightarrow> (('w, 's) actor_scheme, pet_error, nat) eff" where
  "diagnostic_state_count env =
     and_then (call_live env ''petanque/state_count'' (json_obj [])) (\<lambda>v.
     checked (ok_or (Protocol ''PET state count is invalid'') (as_usize v)))"

text \<open>
  The refresh request itself does not poison: every answer but \<open>null\<close> leads to a replacement.
\<close>

definition refresh_workspace :: "('w, 'z) pet_env_scheme \<Rightarrow> pet_workspace \<Rightarrow> (('w, 's) actor_scheme, pet_error, unit) eff" where
  "refresh_workspace env ws =
     and_then (ensure_process env ws) (\<lambda>_.
     (\<lambda>a. case process a of
        None \<Rightarrow> (Inl (ProcessLost ''ensure_process installs PET''), a)
      | Some p \<Rightarrow>
          (case rpc env ''petanque/refresh_workspace'' (json_obj []) p a of
             ((res, p'), a') \<Rightarrow>
               (if res = Inr JNull then (Inr (), a'\<lparr>process := Some p'\<rparr>)
                else replace_locked env ws (a'\<lparr>process := Some p'\<rparr>)))))"

section \<open>What a request does to the actor\<close>

definition spawned :: "actor_event list \<Rightarrow> nat list" where
  "spawned tr = concat (map (\<lambda>ev. case ev of Spawned h \<Rightarrow> [h] | _ \<Rightarrow> []) tr)"

definition sent_ids :: "nat \<Rightarrow> actor_event list \<Rightarrow> u64 list" where
  "sent_ids h tr = concat (map (\<lambda>ev. case ev of Sent h' i m \<Rightarrow> if h' = h then [i] else [] | _ \<Rightarrow> []) tr)"

lemma spawned_simps [simp]:
  "spawned [] = []" "spawned (tr @ tr') = spawned tr @ spawned tr'" "spawned [Spawned h] = [h]"
  "spawned [Sent h i m] = []" "spawned [Terminated h] = []"
  by (simp_all add: spawned_def)

lemma sent_ids_simps [simp]:
  "sent_ids h [] = []" "sent_ids h (tr @ tr') = sent_ids h tr @ sent_ids h tr'"
  "sent_ids h (Sent h' i m # tr) = (if h' = h then i # sent_ids h tr else sent_ids h tr)"
  "sent_ids h (Spawned h' # tr) = sent_ids h tr" "sent_ids h (Terminated h' # tr) = sent_ids h tr"
  by (simp_all add: sent_ids_def)

lemma spawned_Sent [simp]: "spawned (Sent h i m # tr) = spawned tr"
  by (simp add: spawned_def)

lemma external_frame:
  "external f a = (r, a') \<Longrightarrow> process a' = process a \<and> actor_ws a' = actor_ws a \<and> trace a' = trace a
     \<and> signal a' = signal a"
  by (auto simp: external_def split: prod.splits)

lemma observe_signal_frame:
  "observe_signal env a = (r, a') \<Longrightarrow> process a' = process a \<and> actor_ws a' = actor_ws a \<and> trace a' = trace a"
  by (auto simp: observe_signal_def and_then_def external_def modify_def gets_def split: prod.splits)

lemma opt_deadline_frame:
  "opt_deadline env dur a = (r, a') \<Longrightarrow> process a' = process a \<and> actor_ws a' = actor_ws a \<and> trace a' = trace a"
  by (auto simp: opt_deadline_def and_then_def external_def ret_def lift_result_def
      split: option.splits prod.splits sum.splits)

lemma process_diagnostic_handle: "process_diagnostic p = (m, p') \<Longrightarrow> handle p' = handle p \<and> next_id p' = next_id p"
  by (auto simp: process_diagnostic_def split: list.splits prod.splits)

lemma annotate_transport_frame:
  "annotate_transport e p = (e', p') \<Longrightarrow> handle p' = handle p \<and> next_id p' = next_id p
     \<and> is_transport_loss e' = is_transport_loss e
     \<and> (\<not> is_transport_loss e \<longrightarrow> e' = e)"
  by (auto simp: annotate_transport_def dest: process_diagnostic_handle split: if_splits prod.splits pet_error.splits)

lemma exchange_frame:
  "exchange env i meth request d p a = ((res, p'), a') \<Longrightarrow>
     handle p' = handle p \<and> next_id p' = next_id p \<and> process a' = process a \<and> actor_ws a' = actor_ws a
     \<and> (\<exists>k. trace a' = trace a @ Sent (handle p) i meth # k \<and> set k \<subseteq> {Terminated (handle p)})"
  unfolding exchange_def Let_def transport_error_def
  by (auto split: list.splits option.splits prod.splits sum.splits pet_error.splits
      dest!: process_diagnostic_handle annotate_transport_frame)

lemma rpc_frame:
  assumes "rpc_with_timeout env meth params dur p a = ((res, p'), a')"
  shows "handle p' = handle p \<and> process a' = process a \<and> actor_ws a' = actor_ws a
    \<and> (\<exists>k. trace a' = trace a @ k \<and> spawned k = [] \<and> set (sent_ids (handle p) k) \<subseteq> {next_id p})"
proof -
  have tail: "spawned k = [] \<and> sent_ids (handle p) k = []" if "set k \<subseteq> {Terminated (handle p)}" for k
    using that by (induction k) (auto simp: spawned_def sent_ids_def)
  show ?thesis
    using assms unfolding rpc_with_timeout_def Let_def
    by (auto split: option.splits if_splits prod.splits sum.splits
        dest!: opt_deadline_frame observe_signal_frame exchange_frame tail
        simp: spawned_Sent)
qed

section \<open>Epochs\<close>

text \<open>
  \<open>actor_ok\<close>: without a process there is no configured workspace. \<open>epoch_safe m\<close>: the operation
  keeps that, and an error that invalidates the process leaves none.
\<close>

definition actor_ok :: "('w, 's) actor_scheme \<Rightarrow> bool" where
  "actor_ok a \<longleftrightarrow> (process a = None \<longrightarrow> actor_ws a = None)"

definition epoch_err :: "pet_error \<Rightarrow> ('w, 's) actor_scheme \<Rightarrow> bool" where
  "epoch_err e a \<longleftrightarrow> actor_ok a \<and> (invalidates_process e \<longrightarrow> process a = None)"

definition epoch_safe :: "(('w, 's) actor_scheme, pet_error, 'a) eff \<Rightarrow> bool" where
  "epoch_safe m \<longleftrightarrow> triple actor_ok m (\<lambda>_. actor_ok) epoch_err"

text \<open>A live operation stays in its epoch: the process is the one it had or is gone, and nothing is
  spawned.\<close>

definition within :: "nat set \<Rightarrow> nat list \<Rightarrow> ('w, 's) actor_scheme \<Rightarrow> bool" where
  "within E hs a \<longleftrightarrow>
     (case process a of None \<Rightarrow> True | Some p \<Rightarrow> handle p \<in> E) \<and> spawned (trace a) = hs"

lemma epoch_safe_ret [simp]: "epoch_safe (ret x)"
  by (simp add: epoch_safe_def triple_def ret_def)

lemma epoch_safe_throw: "\<not> invalidates_process e \<Longrightarrow> epoch_safe (throw e)"
  by (simp add: epoch_safe_def triple_def throw_def epoch_err_def)

lemma epoch_safe_and_then: "epoch_safe m \<Longrightarrow> (\<And>x. epoch_safe (f x)) \<Longrightarrow> epoch_safe (and_then m f)"
  unfolding epoch_safe_def by (rule triple_and_then)

lemma epoch_safe_fail_poisoned [simp]: "epoch_safe (fail_poisoned e)"
  by (auto simp: epoch_safe_def triple_def fail_poisoned_def poison_if_invalidated_def take_process_def
      and_then_def modify_def throw_def ret_def epoch_err_def actor_ok_def)

lemma epoch_safe_checked [simp]: "epoch_safe (checked r)"
  by (simp add: checked_def split: sum.splits)

lemma epoch_safe_actor_rpc: "epoch_safe (actor_rpc env meth params dur p)"
  unfolding epoch_safe_def triple_def actor_rpc_def
  by (auto simp: poison_if_invalidated_def take_process_def and_then_def modify_def throw_def ret_def
      epoch_err_def actor_ok_def dest!: rpc_frame split: prod.splits sum.splits)

lemma epoch_safe_call_live: "epoch_safe (call_live_with_timeout env meth params dur)"
  unfolding epoch_safe_def
proof (rule tripleI, goal_cases)
  case (1 a)
  then show ?case
    using tripleD [OF epoch_safe_actor_rpc [unfolded epoch_safe_def] 1]
    by (cases "process a") (simp_all add: call_live_with_timeout_def epoch_err_def)
qed

lemma within_external: "keeps (within E hs) (external f)"
  by (auto simp: keeps_def external_def within_def split: prod.splits)

lemma within_take_process [simp]: "keeps (within E hs) take_process"
  by (auto simp: keeps_def take_process_def modify_def within_def split: option.splits)

lemma within_fail_poisoned [simp]: "keeps (within E hs) (fail_poisoned e)"
  by (auto simp: fail_poisoned_def poison_if_invalidated_def intro!: hoare within_take_process)

lemma within_checked [simp]: "keeps (within E hs) (checked r)"
  by (simp add: checked_def split: sum.splits)

lemma within_actor_rpc:
  assumes "within E hs a" and "process a = Some p"
  shows "within E hs (snd (actor_rpc env meth params dur p a))"
  using assms unfolding actor_rpc_def within_def
  by (auto simp: poison_if_invalidated_def take_process_def and_then_def modify_def throw_def ret_def
      dest!: rpc_frame split: prod.splits sum.splits)

lemma within_call_live: "keeps (within E hs) (call_live_with_timeout env meth params dur)"
  unfolding call_live_with_timeout_def
  by (rule keepsI) (auto split: option.splits intro: within_actor_rpc)

lemmas live_rules = epoch_safe_and_then epoch_safe_call_live epoch_safe_ret epoch_safe_checked
  epoch_safe_fail_poisoned
lemmas within_rules = keeps_and_then within_call_live keeps_ret keeps_throw keeps_attempt keeps_if
  keeps_when_err within_checked within_fail_poisoned

text \<open>The contract of the operations on the live process, and what clients take from it.\<close>

locale live_operation =
  fixes m :: "(('w, 's) actor_scheme, pet_error, 'a) eff"
  assumes safe: "epoch_safe m" and stays: "keeps (within E hs) m"
begin

lemma lost_drops_process:
  "actor_ok a \<Longrightarrow> m a = (Inl e, a') \<Longrightarrow> invalidates_process e \<Longrightarrow> process a' = None \<and> actor_ws a' = None"
  using triple_errD [OF safe [unfolded epoch_safe_def], of a e a'] by (simp add: epoch_err_def actor_ok_def)

lemma keeps_ok: "actor_ok a \<Longrightarrow> m a = (r, a') \<Longrightarrow> actor_ok a'"
  using safe unfolding epoch_safe_def
  by (cases r) (auto dest: triple_errD triple_okD simp: epoch_err_def)

lemma same_epoch_or_none:
  "m a = (r, a') \<Longrightarrow> spawned (trace a') = spawned (trace a)
     \<and> (process a' = None \<or> map_option handle (process a') = map_option handle (process a))"
  using keepsD [OF stays [of "set_option (map_option handle (process a))" "spawned (trace a)"], of a r a']
  by (cases "process a") (auto simp: within_def split: option.splits)

lemma dead_stays_dead: "process a = None \<Longrightarrow> m a = (r, a') \<Longrightarrow> process a' = None"
  using same_epoch_or_none by fastforce

lemma keeps_epoch_err: "keeps (epoch_err e) m"
proof (rule keepsI)
  fix a :: "('w, 's) actor_scheme"
  assume a: "epoch_err e a"
  obtain r a' where m: "m a = (r, a')" by (cases "m a")
  have "actor_ok a'" using a keeps_ok [OF _ m] by (simp add: epoch_err_def)
  moreover have "invalidates_process e \<longrightarrow> process a' = None"
    using a dead_stays_dead [OF _ m] by (simp add: epoch_err_def)
  ultimately show "epoch_err e (snd (m a))" by (simp add: m epoch_err_def)
qed

end

lemma epoch_err_throw: "triple (epoch_err e) (throw e) Q epoch_err"
  by (simp add: triple_def throw_def)

lemma epoch_err_throw_after:
  "keeps (epoch_err e) m \<Longrightarrow> triple (epoch_err e) (and_then (attempt m) (\<lambda>_. throw e)) Q epoch_err"
  by (auto simp: triple_def keeps_def and_then_def attempt_def throw_def split: prod.splits)

lemma epoch_safe_attempt:
  assumes "epoch_safe m" and "\<And>x. epoch_safe (f (Inr x))"
    and "\<And>e. triple (epoch_err e) (f (Inl e)) (\<lambda>_. actor_ok) epoch_err"
  shows "epoch_safe (and_then (attempt m) f)"
  unfolding epoch_safe_def
proof (rule triple_and_then)
  let ?R = "\<lambda>r a. case r of Inr x \<Rightarrow> actor_ok a | Inl e \<Rightarrow> epoch_err e a"
  show "triple actor_ok (attempt m) ?R epoch_err"
    using assms(1) unfolding epoch_safe_def by (intro triple_attempt) simp
  show "triple (?R r) (f r) (\<lambda>_. actor_ok) epoch_err" for r
    using assms(2,3) by (cases r) (simp_all add: epoch_safe_def)
qed

interpretation goals: live_operation "goals_of env st" for env st
  unfolding goals_of_def call_live_def
  by unfold_locales (intro live_rules, intro within_rules)

interpretation release: live_operation "release_states env sts" for env sts
proof
  show "epoch_safe (release_states env sts)"
    unfolding release_states_def call_live_def by (auto intro!: live_rules split: prod.splits)
  show "keeps (within E hs) (release_states env sts)" for E hs
    unfolding release_states_def call_live_def
    by (auto intro!: within_rules simp del: within_call_live split: prod.splits)
qed

interpretation goals_release: live_operation "goals_or_release env st" for env st
proof
  show "epoch_safe (goals_or_release env st)"
    unfolding goals_or_release_def
    by (rule epoch_safe_attempt) (auto intro: goals.safe epoch_err_throw_after release.keeps_epoch_err)
  show "keeps (within E hs) (goals_or_release env st)" for E hs
    unfolding goals_or_release_def
    by (intro within_rules goals.stays)
       (auto split: sum.splits intro!: within_rules release.stays)
qed

interpretation materialize: live_operation "materialize_run env v" for env v
  unfolding materialize_run_def
  by unfold_locales
     (intro live_rules goals_release.safe, intro within_rules goals_release.stays)

lemma throw_not_invalidating: "\<not> invalidates_process (Remote c k m d)" "\<not> invalidates_process (Invalid m)"
  "\<not> invalidates_process (Environment m)"
  by (simp_all add: invalidates_process_def)

lemma epoch_safe_when_err: "\<not> invalidates_process e \<Longrightarrow> epoch_safe (when_err b e)"
  by (simp add: when_err_def epoch_safe_throw)

interpretation run: live_operation "run_with_timeout env st fragment dur" for env st fragment dur
proof
  show "epoch_safe (run_with_timeout env st fragment dur)"
    unfolding run_with_timeout_def
    by (intro epoch_safe_and_then epoch_safe_attempt epoch_safe_call_live epoch_safe_when_err throw_not_invalidating)
       (auto simp: throw_not_invalidating materialize.safe epoch_err_throw epoch_safe_def [symmetric]
          split: pet_error.splits option.splits
          intro: triple_pre [OF epoch_safe_fail_poisoned [unfolded epoch_safe_def]] simp: epoch_err_def)
  show "keeps (within E hs) (run_with_timeout env st fragment dur)" for E hs
    unfolding run_with_timeout_def
    by (intro within_rules)
       (auto split: sum.splits pet_error.splits option.splits intro!: within_rules materialize.stays)
qed

interpretation traced: live_operation "run_traced_with_timeout env st fragment inc dur" for env st fragment inc dur
proof
  have "epoch_safe (traced_failure env fragment f)" for f
    unfolding traced_failure_def by (auto intro!: live_rules goals_release.safe)
  then show "epoch_safe (run_traced_with_timeout env st fragment inc dur)"
    unfolding run_traced_with_timeout_def
    by (intro live_rules epoch_safe_when_err throw_not_invalidating)
       (auto split: option.splits intro!: live_rules materialize.safe)
  have "keeps (within E hs) (traced_failure env fragment f)" for E hs f
    unfolding traced_failure_def by (auto intro!: within_rules goals_release.stays)
  then show "keeps (within E hs) (run_traced_with_timeout env st fragment inc dur)" for E hs
    unfolding run_traced_with_timeout_def
    by (intro within_rules) (auto split: option.splits intro!: within_rules materialize.stays)
qed

interpretation trust: live_operation "assumptions env st q" for env st q
  unfolding assumptions_def call_live_def
  by unfold_locales (intro live_rules, intro within_rules)

lemma query_tail_safe:
  "epoch_safe (and_then (attempt (checked (parse_feedback v))) (\<lambda>feedback.
     and_then (attempt (release_states env [st])) (\<lambda>release.
     (case feedback of
        Inl e \<Rightarrow> throw e
      | Inr text \<Rightarrow> (case release of Inl e \<Rightarrow> throw e | Inr _ \<Rightarrow> ret text)))))"
proof (rule epoch_safe_attempt)
  show "epoch_safe (checked (parse_feedback v))" by simp
  show "epoch_safe (and_then (attempt (release_states env [st])) (\<lambda>release.
     (case Inr x of Inl e \<Rightarrow> throw e
      | Inr text \<Rightarrow> (case release of Inl e \<Rightarrow> throw e | Inr _ \<Rightarrow> ret text))))" for x
    by (rule epoch_safe_attempt) (simp_all add: release.safe epoch_err_throw)
  show "triple (epoch_err e) (and_then (attempt (release_states env [st])) (\<lambda>release.
     (case Inl e of Inl e \<Rightarrow> throw e
      | Inr text \<Rightarrow> (case release of Inl e \<Rightarrow> throw e | Inr _ \<Rightarrow> ret text)))) (\<lambda>_. actor_ok) epoch_err" for e
    by (simp add: epoch_err_throw_after release.keeps_epoch_err)
qed

interpretation querying: live_operation "run_query env st q" for env st q
proof
  show "epoch_safe (run_query env st q)"
    unfolding run_query_def call_live_def
    by (cases q) (auto intro!: live_rules query_tail_safe)
  show "keeps (within E hs) (run_query env st q)" for E hs
    unfolding run_query_def call_live_def
    by (cases q) (auto intro!: within_rules release.stays split: sum.splits)
qed

section \<open>Starting, configuring and refreshing\<close>

lemma rpc_sent_frame: "rpc env meth params p a = ((res, p'), a') \<Longrightarrow>
   handle p' = handle p \<and> process a' = process a \<and> actor_ws a' = actor_ws a \<and> spawned (trace a') = spawned (trace a)"
  unfolding rpc_def by (drule rpc_frame) auto

lemma start_process_cases:
  assumes "start_process env ws a = (r, a')"
  shows "(case r of
      Inl e \<Rightarrow> process a' = process a \<and> actor_ws a' = actor_ws a
    | Inr _ \<Rightarrow> actor_ws a' = None \<and> (\<exists>p. process a' = Some p \<and> spawned (trace a') = spawned (trace a) @ [handle p]))"
  using assms unfolding start_process_def spawn_def handshake_def and_then_def log_event_def modify_def
    external_def throw_def ret_def
  by (auto split: prod.splits sum.splits dest!: rpc_sent_frame)

lemma configure_workspace_cases:
  assumes "configure_workspace env ws p a = (r, a')" "process a = Some p"
  shows "spawned (trace a') = spawned (trace a) \<and>
    (case r of
      Inl e \<Rightarrow> (invalidates_process e \<longrightarrow> process a' = None \<and> actor_ws a' = None)
        \<and> (process a' = None \<longrightarrow> actor_ws a' = None)
        \<and> (process a' = None \<or> map_option handle (process a') = Some (handle p))
    | Inr _ \<Rightarrow> actor_ws a' = Some ws \<and> (\<exists>p'. process a' = Some p' \<and> handle p' = handle p))"
  using assms unfolding configure_workspace_def actor_rpc_def and_then_def modify_def throw_def
    take_process_def poison_if_invalidated_def ret_def
  by (auto split: prod.splits sum.splits if_splits option.splits dest!: rpc_frame)

definition started_from :: "('w, 's) actor_scheme \<Rightarrow> ('w, 's) actor_scheme \<Rightarrow> bool" where
  "started_from a a' \<longleftrightarrow> (\<exists>p'. process a' = Some p' \<and>
     (case process a of
        Some p \<Rightarrow> handle p' = handle p \<and> spawned (trace a') = spawned (trace a)
      | None \<Rightarrow> spawned (trace a') = spawned (trace a) @ [handle p']))"

lemma ensure_process_ok:
  assumes ok: "actor_ok a" and ens: "ensure_process env ws a = (r, a')"
  shows "case r of Inl e \<Rightarrow> epoch_err e a' | Inr _ \<Rightarrow> actor_ws a' = Some ws \<and> started_from a a'"
proof -
  obtain r1 a1 where first: "(if process a = None then start_process env ws a else (Inr (), a)) = (r1, a1)"
    by (meson surj_pair)
  show ?thesis
  proof (cases r1)
    case (Inl e)
    with first have "process a = None" "process a1 = None" "actor_ws a1 = actor_ws a"
      using start_process_cases [of env ws a r1 a1] by (auto split: if_splits)
    with ens first Inl ok show ?thesis
      by (auto simp: ensure_process_def and_then_def epoch_err_def actor_ok_def)
  next
    case (Inr u)
    with first have st: "started_from a a1"
      using start_process_cases [of env ws a r1 a1]
      by (cases "process a") (auto simp: started_from_def)
    then obtain p where p: "process a1 = Some p" by (auto simp: started_from_def)
    show ?thesis
    proof (cases "actor_ws a1 = Some ws")
      case True
      with ens first Inr st show ?thesis by (auto simp: ensure_process_def and_then_def)
    next
      case False
      with ens first Inr p have "configure_workspace env ws p a1 = (r, a')"
        by (simp add: ensure_process_def and_then_def)
      from configure_workspace_cases [OF this p] st p show ?thesis
        by (auto simp: started_from_def epoch_err_def actor_ok_def split: sum.splits option.splits)
    qed
  qed
qed

lemma started_ok: "started_from a a' \<Longrightarrow> actor_ok a'"
  by (auto simp: started_from_def actor_ok_def)

lemma epoch_safe_ensure: "epoch_safe (ensure_process env ws)"
  unfolding epoch_safe_def
proof (rule tripleI, goal_cases)
  case (1 a)
  obtain r a' where e: "ensure_process env ws a = (r, a')" by (meson surj_pair)
  from ensure_process_ok [OF 1 e] show ?case
    by (cases r) (auto simp: e dest: started_ok)
qed

lemma epoch_safe_call_in_workspace: "epoch_safe (call_in_workspace env ws meth params)"
proof -
  have "epoch_safe (\<lambda>a. case process a of
        None \<Rightarrow> (Inl (ProcessLost ''PET exists''), a)
      | Some p \<Rightarrow> actor_rpc env meth params None p a)"
    unfolding epoch_safe_def
  proof (rule tripleI, goal_cases)
    case (1 a)
    then show ?case
      using tripleD [OF epoch_safe_actor_rpc [unfolded epoch_safe_def] 1]
      by (cases "process a") (simp_all add: epoch_err_def)
  qed
  then show ?thesis
    unfolding call_in_workspace_def by (intro epoch_safe_and_then epoch_safe_ensure)
qed

lemma epoch_safe_external: "epoch_safe (external f)"
  by (auto simp: epoch_safe_def triple_def external_def actor_ok_def split: prod.splits)

lemma epoch_safe_lift: "(\<And>e. r = Inl e \<Longrightarrow> \<not> invalidates_process e) \<Longrightarrow> epoch_safe (lift_result r)"
  by (cases r) (auto simp: epoch_safe_def triple_def lift_result_def epoch_err_def)

lemma epoch_safe_state_at: "epoch_safe (state_at env ws source offset)"
  unfolding state_at_def
  by (intro epoch_safe_and_then epoch_safe_external epoch_safe_lift epoch_safe_call_in_workspace materialize.safe)
     (auto simp: source_position_def throw_not_invalidating split: option.splits)

lemma refresh_cases:
  assumes ok: "actor_ok a" and ref: "refresh_workspace env ws a = (r, a')"
  shows "case r of
      Inl e \<Rightarrow> epoch_err e a'
    | Inr _ \<Rightarrow> actor_ws a' = Some ws \<and>
        (\<exists>p'. process a' = Some p' \<and>
          (started_from a a' \<or> (\<exists>hs. spawned (trace a') = spawned (trace a) @ hs @ [handle p'])))"
proof -
  obtain r1 a1 where ens: "ensure_process env ws a = (r1, a1)" by (meson surj_pair)
  from ensure_process_ok [OF ok ens] show ?thesis
  proof (cases r1)
    case (Inl e)
    with ensure_process_ok [OF ok ens] ref ens show ?thesis
      by (auto simp: refresh_workspace_def and_then_def)
  next
    case (Inr u)
    with ensure_process_ok [OF ok ens] have ws: "actor_ws a1 = Some ws" and st: "started_from a a1" by auto
    then obtain p where p: "process a1 = Some p" by (auto simp: started_from_def)
    obtain res p' a2 where rpc: "rpc env ''petanque/refresh_workspace'' (json_obj []) p a1 = ((res, p'), a2)"
      by (metis surj_pair)
    note fr = rpc_sent_frame [OF rpc]
    show ?thesis
    proof (cases "res = Inr JNull")
      case True
      with ref ens Inr p rpc fr ws st show ?thesis
        by (auto simp: refresh_workspace_def and_then_def started_from_def split: option.splits)
    next
      case False
      let ?a3 = "a2\<lparr>process := None, actor_ws := None, trace := trace a2 @ [Terminated (handle p')]\<rparr>"
      have ens2: "ensure_process env ws ?a3 = (r, a')"
        using ref ens Inr p rpc False
        by (simp add: refresh_workspace_def and_then_def replace_locked_def take_process_def modify_def)
      have ok3: "actor_ok ?a3" and none: "process ?a3 = None"
        and sp: "\<exists>hs. spawned (trace ?a3) = spawned (trace a) @ hs"
        using fr st by (auto simp: actor_ok_def started_from_def split: option.splits)
      from ensure_process_ok [OF ok3 ens2] none sp show ?thesis
        by (cases r) (auto simp: started_from_def)
    qed
  qed
qed

section \<open>Properties of the actor\<close>

text \<open>
  C12. No state identifier survives its process. For every operation of the actor: if it fails with
  an error that invalidates the process (a transport loss, a cancellation, a deadline), the actor
  has no process and no configured workspace afterwards, so nothing can be sent to it again; and no
  operation leaves a workspace configured without a process.
\<close>

theorem actor_operations_epoch_safe:
  "epoch_safe (document_declarations env ws source) \<and> epoch_safe (insertion_point env ws source modules)
   \<and> epoch_safe (state_at env ws source offset) \<and> epoch_safe (run_with_timeout env st fragment dur)
   \<and> epoch_safe (run_traced_with_timeout env st fragment inc dur) \<and> epoch_safe (goals_of env st)
   \<and> epoch_safe (assumptions env st q) \<and> epoch_safe (run_query env st query)
   \<and> epoch_safe (release_states env sts) \<and> epoch_safe (diagnostic_state_count env)
   \<and> epoch_safe (refresh_workspace env ws)"
proof -
  have "epoch_safe (refresh_workspace env ws)"
    unfolding epoch_safe_def
  proof (rule tripleI, goal_cases)
    case (1 a)
    obtain r a' where e: "refresh_workspace env ws a = (r, a')" by (meson surj_pair)
    from refresh_cases [OF 1 e] show ?case by (cases r) (auto simp: e actor_ok_def)
  qed
  moreover have "epoch_safe (document_declarations env ws source)"
    unfolding document_declarations_def by (intro live_rules epoch_safe_call_in_workspace)
  moreover have "epoch_safe (insertion_point env ws source modules)"
    unfolding insertion_point_def by (intro live_rules epoch_safe_call_in_workspace)
  moreover have "epoch_safe (diagnostic_state_count env)"
    unfolding diagnostic_state_count_def call_live_def by (intro live_rules)
  ultimately show ?thesis
    by (intro conjI) (rule epoch_safe_state_at run.safe traced.safe goals.safe trust.safe querying.safe
      release.safe | assumption)+
qed

text \<open>
  C13. Work on exported states stays in its epoch: running a fragment (plain or traced), reading
  goals or assumptions, a query and a release never start a process; afterwards the actor has the
  same process as before, or none; and on an actor without a process they leave it without one.
\<close>

theorem live_operations_stay_in_epoch:
  "keeps (within E hs) (run_with_timeout env st fragment dur)
   \<and> keeps (within E hs) (run_traced_with_timeout env st fragment inc dur)
   \<and> keeps (within E hs) (goals_of env st) \<and> keeps (within E hs) (assumptions env st q)
   \<and> keeps (within E hs) (run_query env st query) \<and> keeps (within E hs) (release_states env sts)"
  by (intro conjI) (rule run.stays traced.stays goals.stays trust.stays querying.stays release.stays)+

text \<open>
  A refresh ends in a usable epoch or reports why not: when \<open>refresh_workspace\<close> succeeds, the
  actor has a live process configured for exactly the requested workspace, which is the previous
  process or one it spawned for this purpose; when it fails with an invalidating error there is no
  process.
\<close>

theorem refresh_gives_configured_process:
  assumes "actor_ok a" and "refresh_workspace env ws a = (r, a')"
  shows "case r of
      Inl e \<Rightarrow> invalidates_process e \<longrightarrow> process a' = None
    | Inr _ \<Rightarrow> actor_ws a' = Some ws \<and>
        (\<exists>p'. process a' = Some p' \<and>
          (started_from a a' \<or> (\<exists>hs. spawned (trace a') = spawned (trace a) @ hs @ [handle p'])))"
  using refresh_cases [OF assms] by (cases r) (auto simp: epoch_err_def)

section \<open>An answered request\<close>

definition reader_of :: "pet_process \<Rightarrow> ('w, 's) actor_scheme \<Rightarrow> reader" where
  "reader_of p a = \<lparr>rd_signal = signal a, rd_buffer = out_buffer p, rd_polls = polls p, rd_reads = reads p\<rparr>"

text \<open>The process will deliver these bodies, and neither pipe fails before that.\<close>

definition will_answer :: "pet_process \<Rightarrow> ('w, 's) actor_scheme \<Rightarrow> string list \<Rightarrow> bool" where
  "will_answer p a bodies \<longleftrightarrow>
     list_all (\<lambda>w. w = None) (writes p) \<and> calm None (reader_of p a)
     \<and> stream (reader_of p a) = concat (map frame_bytes bodies)
     \<and> list_all (\<lambda>b. length b \<le> MAX_RESPONSE_BYTES) bodies"

definition quiet :: "('w, 'z) pet_env_scheme \<Rightarrow> bool" where
  "quiet env \<longleftrightarrow> (\<forall>w. fst (async_signal env w) = NoSignal)"

lemma exchange_answered:
  assumes will: "will_answer p a (b # bs)" and de: "json_de env b = Inr v"
    and res: "decode_response i v = res" "\<And>e. res = Inl e \<Longrightarrow> \<not> invalidates_process e"
  shows "\<exists>p' a'. exchange env i meth rq None p a = ((res, p'), a') \<and> will_answer p' a' bs"
proof -
  let ?a1 = "a\<lparr>trace := trace a @ [Sent (handle p) i meth]\<rparr>"
  have calm: "calm None (reader_of p ?a1)" and str: "stream (reader_of p ?a1) = frame_bytes b @ concat (map frame_bytes bs)"
    and b: "length b \<le> MAX_RESPONSE_BYTES"
    using will by (simp_all add: will_answer_def reader_of_def stream_def)
  from frame_delivered [OF calm str b, where json_de = "json_de env", OF de] obtain r' where
    r': "read_response (json_de env) i None (reader_of p ?a1) = (res, r')" "calm None r'"
      "stream r' = concat (map frame_bytes bs)"
    using res(1) by blast
  have ws: "writes p = [] \<or> (\<exists>ws. writes p = None # ws \<and> list_all (\<lambda>w. w = None) ws)"
    using will by (cases "writes p") (auto simp: will_answer_def)
  let ?p' = "p\<lparr>writes := tl (writes p), out_buffer := rd_buffer r', polls := rd_polls r', reads := rd_reads r'\<rparr>"
  let ?a' = "?a1\<lparr>signal := rd_signal r'\<rparr>"
  have "annotate_transport e ?p' = (e, ?p') \<and> e \<noteq> Cancelled \<and> (\<forall>t. e \<noteq> TimedOut t)" if "res = Inl e" for e
    using res(2) [OF that] by (auto simp: annotate_transport_def invalidates_process_def)
  then have "exchange env i meth rq None p a = ((res, ?p'), ?a')"
    using r'(1) ws
    by (cases res) (auto simp: exchange_def Let_def reader_of_def split: pet_error.splits)
  moreover have "reader_of ?p' ?a' = r'" by (simp add: reader_of_def)
  then have "will_answer ?p' ?a' bs"
    using r' ws will unfolding will_answer_def by auto
  ultimately show ?thesis by blast
qed

lemma rpc_answers:
  assumes will: "will_answer p a (b # bs)" and "quiet env" and "Suc (unat (next_id p)) < 2 ^ 64"
    and "json_ser env (request_json (next_id p) meth params) = Some rq" and "length rq \<le> MAX_REQUEST_BYTES"
    and "json_de env b = Inr v" and "decode_response (next_id p) v = res"
    and "\<And>e. res = Inl e \<Longrightarrow> \<not> invalidates_process e"
  shows "\<exists>p' a'. rpc env meth params p a = ((res, p'), a') \<and> will_answer p' a' bs
    \<and> handle p' = handle p \<and> next_id p' = next_id p + 1
    \<and> process a' = process a \<and> actor_ws a' = actor_ws a"
proof -
  let ?p1 = "p\<lparr>next_id := next_id p + 1\<rparr>"
  have add: "checked_add (next_id p) 1 = Some (next_id p + 1)"
    using assms(3) by (simp add: checked_add_def)
  obtain w where w: "async_signal env (world a) = (NoSignal, w)"
    using assms(2) by (metis quiet_def prod.collapse)
  define a1 where "a1 = a\<lparr>world := w, signal := signal a\<rparr>"
  have obs: "observe_signal env a = (Inr (signal a) :: pet_error + u8 option, a1)"
    by (simp add: observe_signal_def and_then_def external_def modify_def gets_def w a1_def)
  have c: "reader_of ?p1 a1 = reader_of p a" by (simp add: reader_of_def a1_def)
  have "\<not> request_cancelled (signal a)"
    using will by (simp add: will_answer_def calm_def reader_of_def)
  moreover have "will_answer ?p1 a1 (b # bs)"
    using will c by (simp add: will_answer_def)
  from exchange_answered [OF this assms(6,7,8), of meth rq] obtain p' a' where
    ex: "exchange env (next_id p) meth rq None ?p1 a1 = ((res, p'), a')" "will_answer p' a' bs" by blast
  ultimately have rpc: "rpc env meth params p a = ((res, p'), a')"
    using add obs assms(4,5) by (simp add: rpc_def rpc_with_timeout_def opt_deadline_def ret_def)
  have "next_id p' = next_id p + 1" using exchange_frame [OF ex(1)] by simp
  with rpc ex rpc_sent_frame [OF rpc] show ?thesis by blast
qed

text \<open>
  A request that PET answers is answered: on a process that will deliver the frames of some
  bodies, with a request that is not cancelled, the next request returns exactly what the first
  body says (its result, or Rocq's rejection), under the identifier that was sent, keeps the
  process, advances its identifier by one, and leaves the remaining bodies to the next requests.
\<close>

theorem rpc_answered:
  assumes will: "will_answer p a (b # bs)" and "quiet env" and "Suc (unat (next_id p)) < 2 ^ 64"
    and "json_ser env (request_json (next_id p) meth params) = Some rq" and "length rq \<le> MAX_REQUEST_BYTES"
    and "json_de env b = Inr v" and "decode_response (next_id p) v = res"
    and "\<And>e. res = Inl e \<Longrightarrow> \<not> invalidates_process e"
  shows "\<exists>p' a'. rpc env meth params p a = ((res, p'), a') \<and> will_answer p' a' bs
    \<and> handle p' = handle p \<and> next_id p' = next_id p + 1
    \<and> process a' = process a \<and> actor_ws a' = actor_ws a"
  using rpc_answers [OF assms] .

text \<open>
  A concrete environment: a PET whose answers are given bodies in turn, all read as one JSON value
  per body.
\<close>

definition answer :: "u64 \<Rightarrow> json \<Rightarrow> json" where
  "answer i v = json_obj [(''jsonrpc'', JString ''2.0''), (''id'', JNumber (PosInt i)), (''result'', v)]"

definition scripted_process :: "string list \<Rightarrow> pet_process" where
  "scripted_process bodies = \<lparr>handle = 9, next_id = 1, out_buffer = [], polls = [],
     reads = map (\<lambda>b. ReadBytes (frame_bytes b)) bodies, writes = [], diagnoses = []\<rparr>"

definition scripted_env :: "string list \<Rightarrow> (string \<Rightarrow> string + json) \<Rightarrow> unit pet_env" where
  "scripted_env bodies de = \<lparr>pet_spawn = (\<lambda>root w. (Inr (scripted_process bodies), w)),
     async_signal = (\<lambda>w. (NoSignal, w)), clock = (\<lambda>w. (0, w)), read_file = (\<lambda>f w. (None, w)),
     json_ser = (\<lambda>v. Some ''request''), json_de = de, de_error = (\<lambda>ty v. ''invalid'')\<rparr>"

definition idle_actor :: "unit actor" where
  "idle_actor = \<lparr>signal = None, process = None, actor_ws = None, world = (), trace = []\<rparr>"

definition sample_ws :: pet_workspace where
  "sample_ws = \<lparr>ws_root = [RootDir, Normal ''p''], load_paths = []\<rparr>"

lemma decode_answer [simp]: "decode_response i (answer i v) = Inr v"
  by (simp add: decode_response_def answer_def)

lemma frame_bytes_not_Nil [simp]: "frame_bytes b \<noteq> []"
  by (simp add: frame_bytes_def)

lemma scripted_will_answer:
  "signal a = None \<Longrightarrow> list_all (\<lambda>b. length b \<le> MAX_RESPONSE_BYTES) bodies \<Longrightarrow>
   will_answer (scripted_process bodies) a bodies"
  by (auto simp: will_answer_def scripted_process_def reader_of_def calm_def stream_def
      request_cancelled_def comp_def)

text \<open>One request to a scripted PET.\<close>

lemma scripted_rpc:
  assumes "will_answer p a (b # bs)" "Suc (unat (next_id p)) < 2 ^ 64" "de b = Inr v"
    "decode_response (next_id p) v = res" "\<And>e. res = Inl e \<Longrightarrow> \<not> invalidates_process e"
  shows "\<exists>p' a'. rpc (scripted_env bodies de) meth params p a = ((res, p'), a') \<and> will_answer p' a' bs
    \<and> handle p' = handle p \<and> next_id p' = next_id p + 1 \<and> process a' = process a \<and> actor_ws a' = actor_ws a"
  using assms
  by (intro rpc_answers [where rq = "''request''"])
     (auto simp: scripted_env_def quiet_def MAX_REQUEST_BYTES_def)

theorem rpc_answered_witness:
  "\<exists>p' a'. rpc (scripted_env [''x''] (\<lambda>_. Inr (answer 1 JNull))) ''petanque/goals'' JNull
      (scripted_process [''x'']) idle_actor = ((Inr JNull, p'), a') \<and> next_id p' = 2"
proof -
  have "will_answer (scripted_process [''x'']) idle_actor [''x'']"
    by (rule scripted_will_answer) (simp_all add: idle_actor_def MAX_RESPONSE_BYTES_def)
  from rpc_answered [OF this, where env = "scripted_env [''x''] (\<lambda>_. Inr (answer 1 JNull))"
      and rq = "''request''" and v = "answer 1 JNull" and res = "Inr JNull"
      and meth = "''petanque/goals''" and params = JNull]
  show ?thesis
    by (auto simp: scripted_process_def scripted_env_def quiet_def MAX_REQUEST_BYTES_def)
qed

definition refresh_de :: "string \<Rightarrow> string + json" where
  "refresh_de b =
     (if b = ''a'' then Inr (answer 1 (JArray (map JString REQUIRED_CAPABILITIES)))
      else if b = ''b'' then Inr (answer 2 JNull)
      else if b = ''c'' then Inr (answer 3 JNull) else Inl ''eof'')"

lemma scripted_spawn:
  "spawn (scripted_env bodies de) root a =
     (Inr (scripted_process bodies), a\<lparr>world := world a, trace := trace a @ [Spawned 9]\<rparr>)"
  by (simp add: spawn_def and_then_def external_def log_event_def modify_def ret_def scripted_env_def
      scripted_process_def)

lemma capabilities_accepted: "check_capabilities (JArray (map JString REQUIRED_CAPABILITIES)) = Inr ()"
  by (simp add: check_capabilities_def de_list_def REQUIRED_CAPABILITIES_def)

lemma scripted_start:
  assumes "signal a = None" "list_all (\<lambda>b. length b \<le> MAX_RESPONSE_BYTES) (''a'' # bs)"
    "de ''a'' = Inr (answer 1 (JArray (map JString REQUIRED_CAPABILITIES)))"
  shows "\<exists>p a'. start_process (scripted_env (''a'' # bs) de) ws a = (Inr (), a')
    \<and> process a' = Some p \<and> actor_ws a' = None \<and> will_answer p a' bs \<and> next_id p = 2"
proof -
  let ?env = "scripted_env (''a'' # bs) de" and ?a1 = "a\<lparr>world := world a, trace := trace a @ [Spawned 9]\<rparr>"
  have "will_answer (scripted_process (''a'' # bs)) ?a1 (''a'' # bs)"
    using assms by (intro scripted_will_answer) simp_all
  from scripted_rpc [OF this, where de = de and bodies = "''a'' # bs"] assms(3) obtain p' a' where
    rpc: "rpc ?env ''petanque/capabilities'' (json_obj []) (scripted_process (''a'' # bs)) ?a1
        = ((Inr (JArray (map JString REQUIRED_CAPABILITIES)), p'), a')"
      "will_answer p' a' bs" "next_id p' = 1 + 1"
    by (fastforce simp: scripted_process_def)
  then have "start_process ?env ws a = (Inr (), a'\<lparr>process := Some p', actor_ws := None\<rparr>)"
    by (simp add: start_process_def and_then_def scripted_spawn handshake_def capabilities_accepted modify_def)
  with rpc show ?thesis by (auto simp: will_answer_def reader_of_def)
qed

theorem refresh_gives_configured_process_witness:
  "actor_ok idle_actor
   \<and> (\<exists>a'. refresh_workspace (scripted_env [''a'', ''b'', ''c''] refresh_de) sample_ws idle_actor = (Inr (), a')
        \<and> actor_ws a' = Some sample_ws \<and> process a' \<noteq> None)"
proof -
  let ?env = "scripted_env [''a'', ''b'', ''c''] refresh_de"
  have ok: "actor_ok idle_actor" by (simp add: actor_ok_def idle_actor_def)
  obtain p1 a1 where s1: "start_process ?env sample_ws idle_actor = (Inr (), a1)" "process a1 = Some p1"
    "actor_ws a1 = None" "will_answer p1 a1 [''b'', ''c'']" "next_id p1 = 2"
    using scripted_start [of idle_actor "[''b'', ''c'']" refresh_de sample_ws]
    by (auto simp: idle_actor_def MAX_RESPONSE_BYTES_def refresh_de_def)
  from scripted_rpc [OF s1(4), where de = refresh_de and bodies = "[''a'', ''b'', ''c'']" and v = "answer 2 JNull"] s1(5)
  obtain p2 a2 where s2: "rpc ?env ''petanque/setWorkspace'' (set_workspace_params sample_ws) p1 a1 = ((Inr JNull, p2), a2)"
    "will_answer p2 a2 [''c'']" "next_id p2 = 3" "actor_ws a2 = actor_ws a1"
    by (fastforce simp: refresh_de_def)
  let ?a3 = "a2\<lparr>process := Some p2, actor_ws := Some sample_ws\<rparr>"
  have ens: "ensure_process ?env sample_ws idle_actor = (Inr (), ?a3)"
    using s1 s2
    by (simp add: ensure_process_def and_then_def configure_workspace_def actor_rpc_def rpc_def
        modify_def is_null_def) (simp add: idle_actor_def)
  have "will_answer p2 ?a3 [''c'']" using s2 by (simp add: will_answer_def reader_of_def)
  from scripted_rpc [OF this, where de = refresh_de and bodies = "[''a'', ''b'', ''c'']" and v = "answer 3 JNull"] s2(3)
  obtain p4 a4 where "rpc ?env ''petanque/refresh_workspace'' (json_obj []) p2 ?a3 = ((Inr JNull, p4), a4)"
    by (fastforce simp: refresh_de_def)
  with ens have run: "refresh_workspace ?env sample_ws idle_actor = (Inr (), a4\<lparr>process := Some p4\<rparr>)"
    by (simp add: refresh_workspace_def and_then_def)
  from refresh_gives_configured_process [OF ok run] ok run show ?thesis by auto
qed

section \<open>A loss that the caller does not see\<close>

lemma read_exact_eof:
  "calm d r \<Longrightarrow> stream r = [] \<Longrightarrow> 0 < need \<Longrightarrow>
   \<exists>m r'. read_exact_loop operation d need got r = (Inl (ProcessLost m), r')"
proof (induction operation d need got r rule: read_exact_loop.induct)
  case (1 operation d need got r)
  have buf: "rd_buffer r = []" using 1(4) by (simp add: stream_def)
  obtain r1 where w: "wait_for_pet_output d r = (Inr (), r1)" "calm d r1" "stream r1 = stream r"
    using wait_calm [OF 1(3)] by blast
  then have w': "(if rd_buffer r = [] then wait_for_pet_output d r else (Inr (), r)) = (Inr (), r1)"
    by (simp add: buf)
  have none: "rd_buffer r1 = []" "\<forall>e \<in> set (rd_reads r1). read_bytes e = []"
    using trans [OF w(3) 1(4)] by (simp_all add: stream_def)
  show ?case
  proof (cases "rd_reads r1")
    case Nil
    with w' none 1(5) show ?thesis
      by (subst read_exact_loop.simps) (simp add: reader_read_def)
  next
    case (Cons e rs)
    then have e: "e = ReadInterrupted" using none w(2) by (cases e) (auto simp: calm_def)
    let ?r2 = "r1\<lparr>rd_reads := rs\<rparr>"
    have rd: "reader_read need r1 = (Inl None, ?r2)" using Cons e none by (simp add: reader_read_def)
    have "calm d ?r2" "stream ?r2 = []" using w(2) none Cons by (simp_all add: calm_def stream_def)
    with 1(1) [OF _ w' [symmetric] refl rd [symmetric] refl refl] 1(5) obtain m r' where
      "read_exact_loop operation d need got ?r2 = (Inl (ProcessLost m), r')" by blast
    with w' rd 1(5) show ?thesis by (subst read_exact_loop.simps) simp
  qed
qed

lemma exchange_eof:
  assumes "will_answer p a []"
  shows "\<exists>m p' a'. exchange env i meth rq None p a = ((Inl (ProcessLost m), p'), a')"
proof -
  let ?a1 = "a\<lparr>trace := trace a @ [Sent (handle p) i meth]\<rparr>"
  have "calm None (reader_of p ?a1)" "stream (reader_of p ?a1) = []"
    using assms by (simp_all add: will_answer_def reader_of_def)
  from read_exact_eof [OF this, of 1 "''output header read failed''" "[]"] obtain m r' where
    "read_exact_interruptible 1 None ''output header read failed'' (reader_of p ?a1) = (Inl (ProcessLost m), r')"
    by (auto simp: read_exact_interruptible_def)
  then have "read_response (json_de env) i None (reader_of p ?a1) = (Inl (ProcessLost m), r')"
    by (simp add: read_response_def and_then_def read_header.simps read_line_bounded_def read_line_loop.simps)
  moreover have "writes p = [] \<or> (\<exists>ws. writes p = None # ws)"
    using assms by (cases "writes p") (auto simp: will_answer_def)
  ultimately show ?thesis
    by (auto simp: exchange_def Let_def reader_of_def annotate_transport_def split: prod.splits)
qed

lemma scripted_rpc_eof:
  assumes "will_answer p a []" "Suc (unat (next_id p)) < 2 ^ 64"
  shows "\<exists>m p' a'. rpc (scripted_env bodies de) meth params p a = ((Inl (ProcessLost m), p'), a')"
proof -
  let ?env = "scripted_env bodies de" and ?p1 = "p\<lparr>next_id := next_id p + 1\<rparr>"
    and ?a1 = "a\<lparr>world := world a, signal := signal a\<rparr>"
  have "checked_add (next_id p) 1 = Some (next_id p + 1)" using assms(2) by (simp add: checked_add_def)
  moreover have "observe_signal ?env a = (Inr (signal a) :: pet_error + u8 option, ?a1)"
    by (simp add: observe_signal_def and_then_def external_def modify_def gets_def scripted_env_def)
  moreover have "will_answer ?p1 ?a1 []" "\<not> request_cancelled (signal a)"
    using assms(1) by (simp_all add: will_answer_def reader_of_def calm_def)
  ultimately show ?thesis
    using exchange_eof [of ?p1 ?a1 ?env "next_id p" meth "''request''"]
    by (simp add: rpc_def rpc_with_timeout_def opt_deadline_def ret_def scripted_env_def MAX_REQUEST_BYTES_def)
qed

text \<open>
  A lost process behind a semantic error. There are executions in which \<open>materialize_run\<close>
  reports Rocq's rejection of the goals request, an error that does not invalidate the process,
  while the best-effort release after it lost the process: the actor has no process, and the caller,
  which reads only the error, is not told to forget the handles of the other states.
\<close>

theorem materialize_can_hide_process_loss:
  "\<exists>(env :: unit pet_env) v (a :: unit actor) e a'. actor_ok a \<and> process a \<noteq> None
     \<and> materialize_run env v a = (Inl e, a') \<and> pet_is_semantic e \<and> \<not> invalidates_process e \<and> process a' = None"
proof -
  define err where "err = json_obj [(''jsonrpc'', JString ''2.0''), (''id'', JNumber (PosInt 1)),
    (''error'', json_obj [(''code'', JNumber (NegInt (-32003))), (''message'', JString ''No'')])]"
  let ?env = "scripted_env [] (\<lambda>_. Inr err)"
  let ?e = "Remote (-32003) Coq ''No'' None"
  let ?p = "scripted_process [''g'']"
  let ?a = "idle_actor\<lparr>process := Some ?p\<rparr>"
  let ?v = "json_obj [(''st'', state_json 4), (''proof_finished'', JBool False)]"
  have dec: "decode_response 1 err = Inl ?e" unfolding err_def by code_simp
  have "will_answer ?p ?a [''g'']"
    by (rule scripted_will_answer) (simp_all add: idle_actor_def MAX_RESPONSE_BYTES_def)
  from scripted_rpc [OF this, where de = "\<lambda>_. Inr err" and bodies = "[]" and res = "Inl ?e"] dec obtain p1 a1 where
    r1: "rpc ?env ''petanque/goals'' (json_obj [(''st'', state_json 4)]) ?p ?a = ((Inl ?e, p1), a1)"
      "will_answer p1 a1 []" "next_id p1 = 1 + 1"
    by (fastforce simp: scripted_process_def throw_not_invalidating)
  let ?a2 = "a1\<lparr>process := Some p1\<rparr>"
  have goals: "goals_of ?env 4 ?a = (Inl ?e, ?a2)"
    using r1 by (simp add: goals_of_def call_live_def call_live_with_timeout_def actor_rpc_def rpc_def
        and_then_def poison_if_invalidated_def throw_not_invalidating throw_def ret_def)
  have "will_answer p1 ?a2 []" using r1(2) by (simp add: will_answer_def reader_of_def)
  from scripted_rpc_eof [OF this, of "[]" "\<lambda>_. Inr err"] r1(3) obtain m p3 a3 where
    "rpc ?env ''petanque/release_states'' (json_obj [(''states'', JArray [state_json 4])]) p1 ?a2 = ((Inl (ProcessLost m), p3), a3)"
    by fastforce
  then have "\<exists>a4. release_states ?env [4] ?a2 = (Inl (ProcessLost m), a4) \<and> process a4 = None"
    by (auto simp: release_states_def call_live_def call_live_with_timeout_def actor_rpc_def rpc_def
        and_then_def poison_if_invalidated_def invalidates_process_def take_process_def modify_def throw_def)
  then obtain a4 where rel: "release_states ?env [4] ?a2 = (Inl (ProcessLost m), a4)" "process a4 = None"
    by blast
  have "materialize_run ?env ?v ?a = (Inl ?e, a4)"
    using goals rel
    by (simp add: materialize_run_def and_then_def checked_def parse_run_result_def state_json_def ret_def
        goals_or_release_def attempt_def throw_def)
  then show ?thesis
    using rel(2) by (intro exI [of _ ?env] exI [of _ ?v] exI [of _ ?a] exI [of _ ?e] exI [of _ a4])
      (simp add: actor_ok_def idle_actor_def pet_is_semantic_def throw_not_invalidating)
qed

section \<open>Ranges of a traced failure\<close>

definition range_in :: "string \<Rightarrow> proof_diagnostic \<Rightarrow> bool" where
  "range_in fragment d \<longleftrightarrow> byte_start d \<le> byte_end d \<and> byte_end d \<le> length fragment
     \<and> is_char_boundary fragment (byte_start d) \<and> is_char_boundary fragment (byte_end d)"

definition failure_in :: "string \<Rightarrow> pet_trace_failure \<Rightarrow> bool" where
  "failure_in fragment f \<longleftrightarrow>
     range_in fragment (tf_sentence_range f) \<and> length (tf_trace f) \<le> 64
     \<and> (\<forall>t \<in> set (tf_trace f). range_in fragment \<lparr>byte_start = ts_byte_start t, byte_end = ts_byte_end t\<rparr>
          \<and> length (ts_command t) \<le> 4096)
     \<and> (\<exists>c k m diag. tf_error f = Remote c k m diag \<and> (\<forall>d. diag = Some d \<longrightarrow> range_in fragment d))"

lemma trace_diagnostic_in: "trace_diagnostic fragment f = Inr (Some d) \<Longrightarrow> range_in fragment d"
  by (auto simp: trace_diagnostic_def range_invalid_def range_in_def split: option.splits if_splits)

lemma triple_True: "triple P m (\<lambda>_ _. True) (\<lambda>_ _. True)"
  by (simp add: triple_def split: prod.splits sum.splits)

lemma triple_fail_poisoned: "triple P (fail_poisoned e) Q (\<lambda>_ _. True)"
  by (simp add: fail_poisoned_def triple_def and_then_def throw_def split: prod.splits sum.splits)

lemma traced_failure_in:
  "triple (\<lambda>_. True) (traced_failure env fragment f)
     (\<lambda>out _. case out of OutcomeFailure g \<Rightarrow> failure_in fragment g | _ \<Rightarrow> False) (\<lambda>_ _. True)"
proof (cases "trace_failure_invalid fragment f")
  case True
  then show ?thesis by (simp add: traced_failure_def triple_fail_poisoned)
next
  case False
  have step: "triple (\<lambda>_. True) (checked (trace_diagnostic fragment f))
      (\<lambda>diag _. \<forall>d. diag = Some d \<longrightarrow> range_in fragment d) (\<lambda>_ _. True)"
    using trace_diagnostic_in [of fragment f]
    by (auto simp: checked_def triple_def ret_def fail_poisoned_def and_then_def throw_def
        split: prod.splits sum.splits)
  have tail: "triple (\<lambda>_. \<forall>d. diag = Some d \<longrightarrow> range_in fragment d)
      (and_then (goals_or_release env (rf_before f)) (\<lambda>g. ret (h diag g)))
      (\<lambda>out _. case out of OutcomeFailure x \<Rightarrow> failure_in fragment x | _ \<Rightarrow> False) (\<lambda>_ _. True)"
    if "\<And>diag g. (\<forall>d. diag = Some d \<longrightarrow> range_in fragment d) \<Longrightarrow>
        \<exists>x. h diag g = OutcomeFailure x \<and> failure_in fragment x" for h diag
  proof (rule triple_and_then)
    show "triple (\<lambda>_. \<forall>d. diag = Some d \<longrightarrow> range_in fragment d) (goals_or_release env (rf_before f))
        (\<lambda>_ _. \<forall>d. diag = Some d \<longrightarrow> range_in fragment d) (\<lambda>_ _. True)"
      by (auto simp: triple_def split: prod.splits sum.splits)
    show "triple (\<lambda>_. \<forall>d. diag = Some d \<longrightarrow> range_in fragment d) (ret (h diag g))
        (\<lambda>out _. case out of OutcomeFailure x \<Rightarrow> failure_in fragment x | _ \<Rightarrow> False) (\<lambda>_ _. True)" for g
      using that [of diag g] by (auto simp: triple_def ret_def)
  qed
  show ?thesis
    unfolding traced_failure_def using False
    by simp (rule triple_and_then [OF step tail],
        auto simp: failure_in_def trace_failure_invalid_def range_invalid_def range_in_def list_ex_iff not_less)
qed

text \<open>
  C26. A traced failure points into the fragment: when \<open>run_traced_with_timeout\<close> returns a rejected
  sentence, its range, the diagnostic range and the ranges of the trace are ordered, lie within the
  submitted fragment and fall on character boundaries, the trace has at most 64 steps and each step
  at most 4096 bytes of command text, so the caller can slice the fragment by them.
\<close>

theorem traced_ranges_in_fragment:
  assumes "run_traced_with_timeout env st fragment inc dur a = (Inr (OutcomeFailure f), a')"
  shows "failure_in fragment f"
proof -
  have ok: "triple (\<lambda>_. True) (materialize_run env v) (\<lambda>_ _. True) (\<lambda>_ _. True)" for v
    by (rule triple_True)
  have "triple (\<lambda>_. True) (run_traced_with_timeout env st fragment inc dur)
     (\<lambda>out _. case out of OutcomeFailure g \<Rightarrow> failure_in fragment g | _ \<Rightarrow> True) (\<lambda>_ _. True)"
    unfolding run_traced_with_timeout_def
    by (intro triple_and_then [OF triple_True])
       (auto intro!: triple_fail_poisoned triple_post [OF traced_failure_in] triple_and_then [OF ok]
          triple_pre [OF triple_ret] split: option.splits pet_trace_outcome.splits)
  from triple_okD [OF this _ assms] show ?thesis by simp
qed

definition traced_json :: json where
  "traced_json = json_obj [(''proof_finished'', JBool False), (''failure'',
     json_obj [(''code'', JNumber (NegInt (-32003))), (''message'', JString ''No''),
       (''sentence_index'', json_nat 0), (''sentence_start'', json_nat 0), (''sentence_end'', json_nat 5),
       (''before'', json_nat 4), (''trace'', JArray [])])]"

definition traced_de :: "string \<Rightarrow> string + json" where
  "traced_de b = (if b = ''t'' then Inr (answer 1 traced_json) else Inr (answer 2 JNull))"

theorem traced_ranges_in_fragment_witness:
  "\<exists>f a'. run_traced_with_timeout (scripted_env [] traced_de) 3 ''auto.'' True None
       (idle_actor\<lparr>process := Some (scripted_process [''t'', ''g''])\<rparr>) = (Inr (OutcomeFailure f), a')
     \<and> failure_in ''auto.'' f"
proof -
  let ?env = "scripted_env [] traced_de"
  let ?p = "scripted_process [''t'', ''g'']"
  let ?a = "idle_actor\<lparr>process := Some ?p\<rparr>"
  let ?params = "json_obj [(''st'', state_json 3), (''tac'', JString ''auto.''), (''include_trace'', JBool True)]"
  have v: "traced_de ''t'' = Inr (answer 1 traced_json)" by (simp add: traced_de_def)
  have raw: "de_trace_response traced_json = Some \<lparr>rt_st = None, rt_proof_finished = False,
      rt_failure = Some \<lparr>rf_code = -32003, rf_message = ''No'', rf_sentence_index = 0, rf_sentence_start = 0,
        rf_sentence_end = 5, rf_diagnostic_start = None, rf_diagnostic_end = None, rf_before = 4, rf_trace = []\<rparr>\<rparr>"
    by code_simp
  have "will_answer ?p ?a [''t'', ''g'']"
    by (rule scripted_will_answer) (simp_all add: idle_actor_def MAX_RESPONSE_BYTES_def)
  from scripted_rpc [OF this, where de = traced_de and bodies = "[]" and res = "Inr traced_json"] v obtain p1 a1 where
    r1: "rpc ?env ''petanque/run_trace'' ?params ?p ?a = ((Inr traced_json, p1), a1)" "will_answer p1 a1 [''g'']" "next_id p1 = 1 + 1"
    by (fastforce simp: scripted_process_def)
  let ?a2 = "a1\<lparr>process := Some p1\<rparr>"
  have "will_answer p1 ?a2 [''g'']" using r1(2) by (simp add: will_answer_def reader_of_def)
  from scripted_rpc [OF this, where de = traced_de and bodies = "[]" and res = "Inr JNull" and v = "answer 2 JNull"] r1(3)
  obtain p3 a3 where r3: "rpc ?env ''petanque/goals'' (json_obj [(''st'', state_json 4)]) p1 ?a2 = ((Inr JNull, p3), a3)"
    by (fastforce simp: traced_de_def)
  have g: "goals_of ?env 4 ?a2 = (Inr outside_proof, a3\<lparr>process := Some p3\<rparr>)"
    using r3 by (simp add: goals_of_def call_live_def call_live_with_timeout_def actor_rpc_def rpc_def
        and_then_def checked_def decode_goals_def ret_def)
  have "\<exists>f a'. run_traced_with_timeout ?env 3 ''auto.'' True None ?a = (Inr (OutcomeFailure f), a')"
    using r1(1) raw g
    by (simp add: run_traced_with_timeout_def when_err_def and_then_def ret_def call_live_with_timeout_def
        actor_rpc_def rpc_def checked_def traced_failure_def trace_failure_invalid_def range_invalid_def
        is_char_boundary_def trace_diagnostic_def goals_or_release_def attempt_def MAX_REQUEST_BYTES_def)
  with traced_ranges_in_fragment show ?thesis by blast
qed

end
