(* ===== verification/Rust_Fs.thy ===== *)
theory Rust_Fs
  imports Rust_Text
begin

text \<open>
  What the Dune layout and the writeback use of \<open>std::path\<close> and \<open>char\<close>: the characters of a
  string, paths from text, their order (that of \<open>Path::components\<close>, which keys the layout maps),
  \<open>parent\<close> and \<open>file_stem\<close>, and the searches on token slices (\<open>windows\<close>, \<open>find_map\<close>,
  \<open>max_by_key\<close>).
\<close>

section \<open>Characters\<close>

text \<open>\<open>str::chars\<close>, each character as its bytes.\<close>

function utf8_chars :: "string \<Rightarrow> string list" where
  "utf8_chars [] = []"
| "utf8_chars (a # s) =
     (let k = (case utf8_tail a s of None \<Rightarrow> 0 | Some k \<Rightarrow> k)
      in (a # take k s) # utf8_chars (drop k s))"
  by pat_completeness auto
termination
  by (relation "measure length") auto

declare utf8_chars.simps(2) [simp del]

lemma concat_utf8_chars [simp]: "concat (utf8_chars s) = s"
  by (induction s rule: utf8_chars.induct) (auto simp: utf8_chars.simps(2) Let_def)

lemma utf8_tail_append:
  assumes "utf8_tail a s = Some k" shows "utf8_tail a (s @ t) = Some k"
proof -
  have "length s \<ge> 1 \<Longrightarrow> (s @ t) ! 0 = s ! 0" "length s \<ge> 2 \<Longrightarrow> (s @ t) ! 1 = s ! 1"
    "length s \<ge> 3 \<Longrightarrow> (s @ t) ! 2 = s ! 2"
    by (auto simp add: nth_append)
  with assms show ?thesis
    unfolding utf8_tail_def
    by (auto simp del: One_nat_def simp: between_def is_cont_def split: if_splits)
qed

lemma utf8_chars_append: "utf8 s \<Longrightarrow> utf8_chars (s @ t) = utf8_chars s @ utf8_chars t"
proof (induction s rule: length_induct)
  case (1 s)
  show ?case
  proof (cases s)
    case (Cons a u)
    with 1 obtain k where k: "utf8_tail a u = Some k" "utf8 (drop k u)"
      by (auto simp: utf8.simps(2) split: option.splits)
    then have "k \<le> length u" "utf8_tail a (u @ t) = Some k"
      using utf8_tail_SomeD(3) utf8_tail_append by blast+
    moreover from this 1 Cons k have "utf8_chars (drop k u @ t) = utf8_chars (drop k u) @ utf8_chars t"
      by (auto simp: le_imp_less_Suc)
    ultimately show ?thesis
      using Cons k by (simp add: utf8_chars.simps(2) Let_def)
  qed simp
qed

lemma utf8_append: "utf8 s \<Longrightarrow> utf8 t \<Longrightarrow> utf8 (s @ t)"
proof (induction s rule: length_induct)
  case (1 s)
  show ?case
  proof (cases s)
    case (Cons a u)
    with 1 obtain k where k: "utf8_tail a u = Some k" "utf8 (drop k u)"
      by (auto simp: utf8.simps(2) split: option.splits)
    then have "k \<le> length u" "utf8_tail a (u @ t) = Some k"
      using utf8_tail_SomeD(3) utf8_tail_append by blast+
    moreover from this 1 Cons k have "utf8 (drop k u @ t)"
      by (auto simp: le_imp_less_Suc)
    ultimately show ?thesis
      using Cons k by (simp add: utf8.simps(2))
  qed (simp add: 1)
qed

lemma utf8_ascii: "byte a < 128 \<Longrightarrow> utf8 [a]"
  by (simp add: utf8.simps(2) utf8_tail_def)

lemma utf8_chars_ascii: "byte a < 128 \<Longrightarrow> utf8_chars (a # s) = [a] # utf8_chars s"
  by (simp add: utf8_chars.simps(2) utf8_tail_def)

text \<open>An ASCII byte of a well-formed string is a character of its own.\<close>

lemma utf8_chars_mem_ascii:
  assumes "utf8 s" and "c \<in> set (utf8_chars s)" and "a \<in> set c" and "byte a < 128"
  shows "c = [a]"
  using assms
proof (induction s rule: length_induct)
  case (1 s)
  then obtain b u where s: "s = b # u" by (cases s) auto
  with 1 obtain k where k: "utf8_tail b u = Some k" "utf8 (drop k u)"
    by (auto simp: utf8.simps(2) split: option.splits)
  show ?case
  proof (cases "c = b # take k u")
    case True
    have "\<not> byte x < 128" if "x \<in> set (take k u)" for x
      using that utf8_tail_SomeD(4) [OF k(1)] by (auto simp: in_set_conv_nth is_cont_def not_less)
    with True 1 have "a = b" by auto
    with 1 have "utf8_tail b u = Some 0" by (simp add: utf8_tail_def)
    with True k \<open>a = b\<close> show ?thesis by simp
  next
    case False
    with 1 s k have "c \<in> set (utf8_chars (drop k u))"
      by (auto simp: utf8_chars.simps(2) Let_def)
    moreover have "length (drop k u) < length s" using s by simp
    ultimately show ?thesis using 1 k by blast
  qed
qed

text \<open>\<open>char::is_whitespace\<close>, and \<open>char::is_alphanumeric\<close>: ASCII letters and digits, and beyond ASCII
  what the Unicode tables of the standard library say (a parameter).\<close>

definition char_whitespace :: "string \<Rightarrow> bool" where
  "char_whitespace c \<longleftrightarrow> c \<in> set ws_chars"

definition char_alphanumeric :: "(string \<Rightarrow> bool) \<Rightarrow> string \<Rightarrow> bool" where
  "char_alphanumeric unicode c \<longleftrightarrow>
     (case c of
        [a] \<Rightarrow> between 48 57 a \<or> between 65 90 a \<or> between 97 122 a
      | _ \<Rightarrow> unicode c)"

section \<open>Paths from text and their order\<close>

definition component_of :: "string \<Rightarrow> path_component" where
  "component_of s = (if s = ''..'' then ParentDir else Normal s)"

text \<open>\<open>Path::components\<close> of a text: empty components and inner \<open>.\<close> disappear.\<close>

definition path_of :: "string \<Rightarrow> path" where
  "path_of s =
     (let parts = split_char (CHR ''/'') s;
          normal = map component_of (filter (\<lambda>w. w \<noteq> [] \<and> w \<noteq> ''.'') parts)
      in if prefix ''/'' s then RootDir # normal
         else if hd parts = ''.'' then CurDir # normal
         else normal)"

text \<open>\<open>Path::parent\<close>: none for the empty path and for the root.\<close>

definition path_parent :: "path \<Rightarrow> path option" where
  "path_parent p = (if p = [] \<or> last p = RootDir then None else Some (butlast p))"

text \<open>\<open>Path::file_stem\<close> of a file name: what is before the last dot, unless that is nothing.\<close>

definition file_stem :: "string \<Rightarrow> string" where
  "file_stem s =
     (let r = dropWhile (\<lambda>c. c \<noteq> CHR ''.'') (rev s)
      in if r = [] \<or> tl r = [] then s else rev (tl r))"

text \<open>The derived order of \<open>Component\<close>: by variant, then by the bytes of the name.\<close>

fun component_key :: "path_component \<Rightarrow> nat \<times> string" where
  "component_key RootDir = (0, [])"
| "component_key CurDir = (1, [])"
| "component_key ParentDir = (2, [])"
| "component_key (Normal s) = (3, s)"

lemma component_key_inj: "component_key a = component_key b \<longleftrightarrow> a = b"
  by (cases a; cases b) auto

definition key_le :: "nat \<times> string \<Rightarrow> nat \<times> string \<Rightarrow> bool" where
  "key_le a b \<longleftrightarrow> fst a < fst b \<or> fst a = fst b \<and> snd a \<le> snd b"

instantiation path_component :: linorder
begin

definition less_eq_path_component :: "path_component \<Rightarrow> path_component \<Rightarrow> bool" where
  "less_eq_path_component a b \<longleftrightarrow> key_le (component_key a) (component_key b)"

definition less_path_component :: "path_component \<Rightarrow> path_component \<Rightarrow> bool" where
  "less_path_component a b \<longleftrightarrow> key_le (component_key a) (component_key b) \<and> a \<noteq> b"

instance
proof
  fix a b c :: path_component
  have anti: "a = b" if "a \<le> b" "b \<le> a" for a b :: path_component
    using that component_key_inj [of a b]
    by (auto simp: less_eq_path_component_def key_le_def prod_eq_iff)
  show "a < b \<longleftrightarrow> a \<le> b \<and> \<not> b \<le> a"
    using anti by (auto simp: less_path_component_def less_eq_path_component_def key_le_def)
  show "a \<le> a" by (simp add: less_eq_path_component_def key_le_def)
  show "a \<le> b \<Longrightarrow> b \<le> c \<Longrightarrow> a \<le> c"
    by (auto simp: less_eq_path_component_def key_le_def)
  show "a \<le> b \<Longrightarrow> b \<le> a \<Longrightarrow> a = b" by (rule anti)
  show "a \<le> b \<or> b \<le> a"
    by (auto simp: less_eq_path_component_def key_le_def)
qed

end

lemma path_join_absolute: "path_is_absolute p \<Longrightarrow> path_is_absolute (path_join p q)"
  by (auto simp: path_join_def path_is_absolute_def split: list.splits)

section \<open>Slices\<close>

text \<open>\<open>slice.windows(2).find_map(..)\<close> for the token after a keyword.\<close>

fun token_after :: "string \<Rightarrow> string list \<Rightarrow> string option" where
  "token_after k (a # b # ts) = (if a = k then Some b else token_after k (b # ts))"
| "token_after k _ = None"

fun windows3 :: "'a list \<Rightarrow> ('a \<times> 'a \<times> 'a) list" where
  "windows3 (a # b # c # xs) = (a, b, c) # windows3 (b # c # xs)"
| "windows3 _ = []"

fun position :: "('a \<Rightarrow> bool) \<Rightarrow> 'a list \<Rightarrow> nat option" where
  "position P [] = None"
| "position P (x # xs) = (if P x then Some 0 else map_option Suc (position P xs))"

lemma position_Some:
  "position P xs = Some i \<Longrightarrow> i < length xs \<and> P (xs ! i) \<and> (\<forall>j < i. \<not> P (xs ! j))"
proof (induction xs arbitrary: i)
  case (Cons x xs)
  then show ?case by (cases i) (auto simp: less_Suc_eq_0_disj split: if_splits)
qed simp

lemma position_None: "position P xs = None \<longleftrightarrow> (\<forall>x \<in> set xs. \<not> P x)"
  by (induction xs) auto

text \<open>\<open>Iterator::max_by_key\<close>: the last of the elements with the greatest key.\<close>

fun max_by_key :: "('a \<Rightarrow> nat) \<Rightarrow> 'a list \<Rightarrow> 'a option" where
  "max_by_key f [] = None"
| "max_by_key f (x # xs) =
     (case max_by_key f xs of
        None \<Rightarrow> Some x
      | Some y \<Rightarrow> if f x \<le> f y then Some y else Some x)"

lemma max_by_key_None [simp]: "max_by_key f xs = None \<longleftrightarrow> xs = []"
  by (cases xs) (auto split: option.splits)

lemma max_by_key_Some:
  "max_by_key f xs = Some x \<Longrightarrow> x \<in> set xs \<and> (\<forall>y \<in> set xs. f y \<le> f x)"
  by (induction xs arbitrary: x) (fastforce split: option.splits if_splits)+

definition str_ends_with :: "string \<Rightarrow> string \<Rightarrow> bool" where
  "str_ends_with s p \<longleftrightarrow> suffix p s"

text \<open>\<open>if !v.contains(&x) { v.push(x) }\<close>\<close>

definition push_new :: "'a \<Rightarrow> 'a list \<Rightarrow> 'a list" where
  "push_new x xs = (if x \<in> set xs then xs else xs @ [x])"

lemma push_new_set [simp]: "set (push_new x xs) = Set.insert x (set xs)"
  by (auto simp: push_new_def)

lemma push_new_distinct: "distinct xs \<Longrightarrow> distinct (push_new x xs)"
  by (simp add: push_new_def)

end
