(* ===== verification/Dune_Process.thy ===== *)
theory Dune_Process
  imports Pet_Actor Rust_Fs
begin

text \<open>
  \<open>rocq-engine/src/dune/process.rs\<close>: one Dune command with bounded output, an optional total
  deadline, cancellation, and at most one retry after an abnormal end.

  The state of the layers above the actor extends the actor's record with \<open>log\<close>, the list of what
  the engine did to the system. A spawned child is a value that says how it behaves: the bytes and
  the end of its pipes, what each \<open>try_wait\<close> answers while it runs, and what \<open>wait\<close> answers; the
  list is finite, since a child that is waited for ends. Clock, cancellation and the file system are
  calls on the world.
\<close>

section \<open>State and environment\<close>

datatype exit_status = ExitCode int | Signaled nat

definition exit_success :: "exit_status \<Rightarrow> bool" where
  "exit_success s \<longleftrightarrow> s = ExitCode 0"

definition exit_signal :: "exit_status \<Rightarrow> nat option" where
  "exit_signal s = (case s of ExitCode _ \<Rightarrow> None | Signaled n \<Rightarrow> Some n)"

record native_output =
  no_status :: exit_status
  no_stdout :: string
  no_stderr :: string
  no_timed_out :: bool
  no_cancelled :: bool
  no_overflow :: bool

datatype attempt_error = StartError string | TransportError string

fun into_io :: "attempt_error \<Rightarrow> string" where
  "into_io (StartError e) = e"
| "into_io (TransportError e) = e"

record pipe =
  pipe_bytes :: string
  pipe_error :: "string option"
  reader_panics :: bool

record dune_child =
  child_stdout :: "pipe option"
  child_stderr :: "pipe option"
  try_waits :: "(string + exit_status option) list"
  final_wait :: "string + exit_status"

text \<open>What the engine did, in order. \<open>DuneAttempt\<close> is one child with its outcome.\<close>

datatype sys_event =
    DuneAttempt "string list" path "attempt_error + native_output"
  | DuneKilled
  | Phase string string
  | SourceRead path "string option"
  | SourceReplaced path string
  | Built path "err + unit"
  | Refreshed "pet_error + unit"
  | Audited bool

record 'w sys = "'w actor" +
  log :: "sys_event list"

record 'w dune_env = "'w pet_env" +
  dune_spawn :: "string list \<Rightarrow> path \<Rightarrow> 'w \<Rightarrow> (string + dune_child) \<times> 'w"
  canonicalize :: "path \<Rightarrow> 'w \<Rightarrow> path option \<times> 'w"
  is_file :: "path \<Rightarrow> 'w \<Rightarrow> bool \<times> 'w"
  is_dir :: "path \<Rightarrow> 'w \<Rightarrow> bool \<times> 'w"
  temp_dir :: "'w \<Rightarrow> path option \<times> 'w"
  dune_build_dir :: "string option"
  unicode_alphanumeric :: "string \<Rightarrow> bool"
  utf8_lossy :: "string \<Rightarrow> string"

definition emit :: "sys_event \<Rightarrow> (('w, 's) sys_scheme, 'e, unit) eff" where
  "emit ev = modify (\<lambda>s. s\<lparr>log := log s @ [ev]\<rparr>)"

section \<open>One attempt\<close>

definition DUNE_OUTPUT_LIMIT :: nat where
  "DUNE_OUTPUT_LIMIT = 64 * 1024 * 1024"

text \<open>\<open>by_ref().take(n).read_to_end(..)\<close>: the bytes and the rest of the pipe. The error of the pipe
  is met only by a reader that gets to the end of its bytes.\<close>

definition read_to_end_take :: "nat \<Rightarrow> pipe \<Rightarrow> string + string \<times> pipe" where
  "read_to_end_take n p =
     (case pipe_error p of
        Some m \<Rightarrow> (if length (pipe_bytes p) < n then Inl m
          else Inr (take n (pipe_bytes p), p\<lparr>pipe_bytes := drop n (pipe_bytes p)\<rparr>))
      | None \<Rightarrow> Inr (take n (pipe_bytes p), p\<lparr>pipe_bytes := drop n (pipe_bytes p)\<rparr>))"

definition drain :: "pipe \<Rightarrow> string + unit" where
  "drain p = (case pipe_error p of Some m \<Rightarrow> Inl m | None \<Rightarrow> Inr ())"

definition bounded_read :: "pipe \<Rightarrow> nat \<Rightarrow> string + string \<times> bool" where
  "bounded_read p limit =
     result_bind (read_to_end_take (limit + 1) p) (\<lambda>(bytes, rest).
     result_bind (drain rest) (\<lambda>_.
     Inr (take limit bytes, limit < length bytes)))"

text \<open>The reader thread, joined: it panicked, failed, or gave its bytes.\<close>

definition join_reader :: "string \<Rightarrow> pipe \<Rightarrow> attempt_error + string \<times> bool" where
  "join_reader panicked p =
     (if reader_panics p then Inl (TransportError panicked)
      else result_map_err TransportError (bounded_read p DUNE_OUTPUT_LIMIT))"

definition terminate_child_group :: "(('w, 's) sys_scheme, 'e, unit) eff" where
  "terminate_child_group = emit DuneKilled"

definition deadline_passed ::
  "('w, 'z) dune_env_scheme \<Rightarrow> nat option \<Rightarrow> (('w, 's) sys_scheme, 'e, bool) eff" where
  "deadline_passed env d =
     (case d of None \<Rightarrow> ret False
      | Some limit \<Rightarrow> and_then (external (clock env)) (\<lambda>now. ret (limit \<le> now)))"

definition killed_wait ::
  "dune_child \<Rightarrow> bool \<Rightarrow> bool \<Rightarrow> (('w, 's) sys_scheme, string, exit_status \<times> bool \<times> bool) eff" where
  "killed_wait child timed_out cancelled =
     and_then (emit DuneKilled) (\<lambda>_.
     lift_result (result_bind (final_wait child) (\<lambda>status. Inr (status, timed_out, cancelled))))"

fun wait_polls ::
  "('w, 'z) dune_env_scheme \<Rightarrow> dune_child \<Rightarrow> nat option \<Rightarrow> (string + exit_status option) list
   \<Rightarrow> (('w, 's) sys_scheme, string, exit_status \<times> bool \<times> bool) eff" where
  "wait_polls env child d [] =
     lift_result (result_bind (final_wait child) (\<lambda>status. Inr (status, False, False)))"
| "wait_polls env child d (p # ps) =
     (case p of
        Inl m \<Rightarrow> throw m
      | Inr (Some status) \<Rightarrow> ret (status, False, False)
      | Inr None \<Rightarrow>
          and_then (observe_signal env) (\<lambda>c.
          if request_cancelled c then killed_wait child False True
          else and_then (deadline_passed env d) (\<lambda>passed.
            if passed then killed_wait child True False
            else wait_polls env child d ps)))"

definition wait_for_dune ::
  "('w, 'z) dune_env_scheme \<Rightarrow> dune_child \<Rightarrow> nat option
   \<Rightarrow> (('w, 's) sys_scheme, string, exit_status \<times> bool \<times> bool) eff" where
  "wait_for_dune env child d =
     and_then (gets signal) (\<lambda>c.
     if d = None \<and> \<not> request_scope_active c
     then lift_result (result_bind (final_wait child) (\<lambda>status. Inr (status, False, False)))
     else wait_polls env child d (try_waits child))"

definition collect_output ::
  "pipe \<Rightarrow> pipe \<Rightarrow> exit_status \<times> bool \<times> bool \<Rightarrow> attempt_error + native_output" where
  "collect_output out err waited =
     (case waited of (status, timed_out, cancelled) \<Rightarrow>
        result_bind (join_reader ''Dune stdout reader failed'' out) (\<lambda>(stdout, stdout_overflow).
        result_bind (join_reader ''Dune stderr reader failed'' err) (\<lambda>(stderr, stderr_overflow).
        Inr \<lparr>no_status = status, no_stdout = stdout, no_stderr = stderr, no_timed_out = timed_out,
          no_cancelled = cancelled, no_overflow = stdout_overflow \<or> stderr_overflow\<rparr>)))"

definition run_dune_once ::
  "('w, 'z) dune_env_scheme \<Rightarrow> string list \<Rightarrow> path \<Rightarrow> nat option
   \<Rightarrow> (('w, 's) sys_scheme, attempt_error, native_output) eff" where
  "run_dune_once env args cwd d =
     and_then (external (dune_spawn env args cwd)) (\<lambda>spawned.
     (case spawned of
        Inl m \<Rightarrow> throw (StartError m)
      | Inr child \<Rightarrow>
          (case child_stdout child of
             None \<Rightarrow> and_then terminate_child_group (\<lambda>_.
               throw (TransportError ''Dune stdout pipe missing''))
           | Some out \<Rightarrow>
               (case child_stderr child of
                  None \<Rightarrow> and_then terminate_child_group (\<lambda>_.
                    throw (TransportError ''Dune stderr pipe missing''))
                | Some err \<Rightarrow>
                    and_then (attempt (wait_for_dune env child d)) (\<lambda>waited.
                    (case waited of
                       Inl m \<Rightarrow> and_then terminate_child_group (\<lambda>_. throw (TransportError m))
                     | Inr w \<Rightarrow>
                         and_then (emit DuneKilled) (\<lambda>_. lift_result (collect_output out err w))))))))"

section \<open>The retry policy\<close>

text \<open>An abnormal end: a child that died from a signal nobody of us sent, or a lost transport.\<close>

fun abnormal :: "attempt_error + native_output \<Rightarrow> bool" where
  "abnormal (Inr output) \<longleftrightarrow> \<not> no_timed_out output \<and> \<not> no_cancelled output
     \<and> exit_signal (no_status output) \<noteq> None"
| "abnormal (Inl (TransportError _)) \<longleftrightarrow> True"
| "abnormal (Inl (StartError _)) \<longleftrightarrow> False"

definition logged_attempt ::
  "('w, 'z) dune_env_scheme \<Rightarrow> string list \<Rightarrow> path \<Rightarrow> nat option
   \<Rightarrow> (('w, 's) sys_scheme, 'e, attempt_error + native_output) eff" where
  "logged_attempt env args cwd d =
     and_then (attempt (run_dune_once env args cwd d)) (\<lambda>r.
     and_then (emit (DuneAttempt args cwd r)) (\<lambda>_. ret r))"

function dune_loop ::
  "('w, 'z) dune_env_scheme \<Rightarrow> string list \<Rightarrow> path \<Rightarrow> nat option \<Rightarrow> bool
   \<Rightarrow> (('w, 's) sys_scheme, string, native_output) eff" where
  "dune_loop env args cwd d retried =
     and_then (logged_attempt env args cwd d) (\<lambda>r.
     if \<not> retried \<and> abnormal r
     then and_then (deadline_passed env d) (\<lambda>passed.
       if passed then lift_result (result_map_err into_io r)
       else dune_loop env args cwd d True)
     else lift_result (result_map_err into_io r))"
  by pat_completeness auto
termination
  by (relation "measure (\<lambda>(_, _, _, _, retried). if retried then 0 else 1)") auto

declare dune_loop.simps [simp del]

definition instant_add :: "nat \<Rightarrow> nat \<Rightarrow> nat option" where
  "instant_add now dur = (if 2 ^ 63 * 10 ^ 9 \<le> now + dur then None else Some (now + dur))"

definition dune_args :: "string list \<Rightarrow> path option \<Rightarrow> string list" where
  "dune_args args build_dir =
     (case build_dir of None \<Rightarrow> args | Some directory \<Rightarrow> args @ [''--build-dir'', path_str directory])"

definition run_dune ::
  "('w, 'z) dune_env_scheme \<Rightarrow> string list \<Rightarrow> path \<Rightarrow> nat option \<Rightarrow> path option
   \<Rightarrow> (('w, 's) sys_scheme, string, native_output) eff" where
  "run_dune env args cwd limit build_dir =
     and_then
       (case limit of
          None \<Rightarrow> ret None
        | Some dur \<Rightarrow> and_then (external (clock env)) (\<lambda>now.
            lift_result (result_bind (ok_or ''native deadline overflows'' (instant_add now dur))
              (\<lambda>at. Inr (Some at)))))
       (\<lambda>d. dune_loop env (dune_args args build_dir) cwd d False)"

section \<open>The workspace gate\<close>

text \<open>
  The registry of gates: weak references by canonical workspace, an \<open>Arc\<close> being an address with its
  count of owners. A caller becomes an owner; it stops being one when its command is over.
\<close>

record gates =
  registry :: "(path, nat) btree_map"
  owners :: "nat \<Rightarrow> nat"
  next_gate :: nat

definition dune_workspace_gate :: "path \<Rightarrow> gates \<Rightarrow> nat \<times> gates" where
  "dune_workspace_gate key g =
     (let live = filter (\<lambda>(_, gate). owners g gate \<noteq> 0) (registry g) in
      case bt_get live key of
        Some gate \<Rightarrow> (gate, g\<lparr>registry := live, owners := (owners g)(gate := owners g gate + 1)\<rparr>)
      | None \<Rightarrow>
          (next_gate g, g\<lparr>registry := bt_insert key (next_gate g) live,
             owners := (owners g)(next_gate g := 1), next_gate := next_gate g + 1\<rparr>))"

definition drop_gate :: "nat \<Rightarrow> gates \<Rightarrow> gates" where
  "drop_gate gate g = g\<lparr>owners := (owners g)(gate := owners g gate - 1)\<rparr>"

section \<open>What one command does to the log\<close>

text \<open>An operation that reads the world, the clock or the signal leaves the log alone.\<close>

definition log_only :: "(sys_event list \<Rightarrow> bool) \<Rightarrow> ('w, 's) sys_scheme \<Rightarrow> bool" where
  "log_only P s \<longleftrightarrow> P (log s)"

lemma keeps_external_log [hoare]: "keeps (log_only P) (external f)"
  by (auto simp: keeps_def log_only_def external_def split: prod.splits)

lemma keeps_observe_log [hoare]: "keeps (log_only P) (observe_signal env)"
  unfolding observe_signal_def
  by (intro hoare) (simp_all add: log_only_def)

lemma keeps_emit_log [hoare]: "(\<And>l. P l \<Longrightarrow> P (l @ [ev])) \<Longrightarrow> keeps (log_only P) (emit ev)"
  by (simp add: emit_def keeps_def modify_def log_only_def)

lemma keeps_deadline_passed [hoare]: "keeps (log_only P) (deadline_passed env d)"
  by (cases d) (auto simp: deadline_passed_def intro!: hoare)

definition attempts :: "sys_event list \<Rightarrow> (string list \<times> path \<times> (attempt_error + native_output)) list" where
  "attempts l = concat (map (\<lambda>ev. case ev of DuneAttempt args cwd r \<Rightarrow> [(args, cwd, r)] | _ \<Rightarrow> []) l)"

lemma attempts_simps [simp]:
  "attempts [] = []" "attempts (l @ l') = attempts l @ attempts l'"
  "attempts [DuneAttempt args cwd r] = [(args, cwd, r)]" "attempts [DuneKilled] = []"
  "attempts [Phase a b] = []" "attempts [SourceRead q c] = []" "attempts [SourceReplaced q b] = []"
  "attempts [Built q res] = []" "attempts [Refreshed rf] = []" "attempts [Audited b'] = []"
  by (simp_all add: attempts_def)

lemma keeps_kill [hoare]: "keeps (log_only (\<lambda>l. attempts l = xs)) (emit DuneKilled)"
  by (rule keeps_emit_log) simp

lemma keeps_wait_polls: "keeps (log_only (\<lambda>l. attempts l = xs)) (wait_polls env child d ps)"
proof (induction ps)
  case Nil
  then show ?case by simp
next
  case (Cons p ps)
  then show ?case
    by (auto simp: killed_wait_def intro!: hoare split: sum.splits option.splits)
qed

lemma keeps_run_dune_once:
  "keeps (log_only (\<lambda>l. attempts l = xs)) (run_dune_once env args cwd d)"
  unfolding run_dune_once_def wait_for_dune_def terminate_child_group_def
  by (auto intro!: hoare keeps_wait_polls split: sum.splits option.splits)

lemma logged_attempt_result:
  assumes "logged_attempt env args cwd d s = (r, s')"
  shows "\<exists>x. r = Inr x \<and> attempts (log s') = attempts (log s) @ [(args, cwd, x)]"
proof -
  obtain x s1 where x: "run_dune_once env args cwd d s = (x, s1)" by fastforce
  have "attempts (log s1) = attempts (log s)"
    using keepsD [OF keeps_run_dune_once _ x, of "attempts (log s)"] by (simp add: log_only_def)
  with assms x show ?thesis
    by (auto simp: logged_attempt_def and_then_def attempt_def emit_def modify_def ret_def)
qed

lemma deadline_passed_result:
  assumes "deadline_passed env d s = (r, s')"
  shows "\<exists>b. r = Inr b \<and> log s' = log s \<and> (d = None \<longrightarrow> \<not> b)"
  using assms
  by (cases d) (auto simp: deadline_passed_def ret_def and_then_def external_def split: prod.splits)

text \<open>The policy: the attempts of one command and its result, for a command that is (not) a retry.\<close>

definition retry_policy ::
  "bool \<Rightarrow> nat option \<Rightarrow> string list \<Rightarrow> path \<Rightarrow> (string list \<times> path \<times> (attempt_error + native_output)) list
   \<Rightarrow> string + native_output \<Rightarrow> bool" where
  "retry_policy retried d args cwd xs res \<longleftrightarrow>
     (\<exists>x. xs = [(args, cwd, x)] \<and> res = result_map_err into_io x \<and> (d = None \<longrightarrow> retried \<or> \<not> abnormal x))
     \<or> (\<not> retried \<and> (\<exists>x y. xs = [(args, cwd, x), (args, cwd, y)] \<and> abnormal x \<and> res = result_map_err into_io y))"

lemma dune_loop_policy:
  assumes "dune_loop env args cwd d retried s = (res, s')"
  shows "\<exists>xs. attempts (log s') = attempts (log s) @ xs \<and> retry_policy retried d args cwd xs res"
  using assms
proof (induction "if retried then 0 else 1 :: nat" arbitrary: retried s rule: less_induct)
  case less
  obtain r :: "string + (attempt_error + native_output)" and s1
    where r: "logged_attempt env args cwd d s = (r, s1)" by fastforce
  then obtain x where x: "r = Inr x" "attempts (log s1) = attempts (log s) @ [(args, cwd, x)]"
    using logged_attempt_result by blast
  show ?case
  proof (cases "\<not> retried \<and> abnormal x")
    case False
    with less.prems r x have "res = result_map_err into_io x \<and> s' = s1"
      by (subst (asm) dune_loop.simps) (auto simp: and_then_def lift_result_def)
    with x False show ?thesis
      by (intro exI [of _ "[(args, cwd, x)]"]) (auto simp: retry_policy_def)
  next
    case True
    obtain rp :: "string + bool" and s2 where "deadline_passed env d s1 = (rp, s2)" by fastforce
    moreover from this obtain b where b: "rp = Inr b" "log s2 = log s1" "d = None \<longrightarrow> \<not> b"
      using deadline_passed_result by blast
    ultimately have step: "(if b then (result_map_err into_io x, s2) else dune_loop env args cwd d True s2) = (res, s')"
      using less.prems r x True
      by (subst (asm) dune_loop.simps) (auto simp: and_then_def lift_result_def)
    show ?thesis
    proof (cases b)
      case True
      with step b x show ?thesis
        by (intro exI [of _ "[(args, cwd, x)]"]) (auto simp: retry_policy_def)
    next
      case False
      with step have loop: "dune_loop env args cwd d True s2 = (res, s')" by simp
      have "(if True then 0 else 1 :: nat) < (if retried then 0 else 1)" using True by simp
      from less.hyps [OF this loop] obtain xs where
        "attempts (log s') = attempts (log s2) @ xs" "retry_policy True d args cwd xs res" by auto
      with True b x show ?thesis by (auto simp: retry_policy_def)
    qed
  qed
qed

text \<open>
  C30. One retry, for abnormal ends only. A Dune command starts no child exactly when its deadline
  overflows, and then says so; otherwise it starts one or two children, all with the same arguments
  and in the same directory, answers with the outcome of the last one, and starts the second only
  after the first one died from a foreign signal or lost its transport. Without a deadline such an
  end is always retried; a normal rejection, a cancellation, a timeout or a failed start is final.
\<close>

theorem run_dune_retry_policy:
  "case run_dune env args cwd limit build_dir s of (res, s') \<Rightarrow>
     \<exists>xs. attempts (log s') = attempts (log s) @ xs
       \<and> (xs = [] \<and> res = Inl ''native deadline overflows'' \<and> limit \<noteq> None
          \<or> retry_policy False limit (dune_args args build_dir) cwd xs res)"
proof -
  obtain res s' where res: "run_dune env args cwd limit build_dir s = (res, s')" by fastforce
  have "\<exists>xs. attempts (log s') = attempts (log s) @ xs
      \<and> (xs = [] \<and> res = Inl ''native deadline overflows'' \<and> limit \<noteq> None
         \<or> retry_policy False limit (dune_args args build_dir) cwd xs res)"
  proof (cases limit)
    case None
    with res dune_loop_policy show ?thesis by (fastforce simp: run_dune_def and_then_def ret_def)
  next
    case (Some dur)
    obtain now w where now: "clock env (world s) = (now, w)" by fastforce
    show ?thesis
    proof (cases "instant_add now dur")
      case None
      with res Some now show ?thesis
        by (auto simp: run_dune_def and_then_def external_def lift_result_def)
    next
      case (Some at)
      with \<open>limit = Some dur\<close> res now
      have "dune_loop env (dune_args args build_dir) cwd (Some at) False (s\<lparr>world := w\<rparr>) = (res, s')"
        by (auto simp: run_dune_def and_then_def external_def lift_result_def)
      from dune_loop_policy [OF this] \<open>limit = Some dur\<close> show ?thesis
        by (auto simp: retry_policy_def)
    qed
  qed
  with res show ?thesis by simp
qed

section \<open>Output bounds\<close>

lemma bounded_read_result:
  "bounded_read p limit =
     (case pipe_error p of Some m \<Rightarrow> Inl m
      | None \<Rightarrow> Inr (take limit (pipe_bytes p), limit < length (pipe_bytes p)))"
  by (auto simp: bounded_read_def read_to_end_take_def drain_def min_def split: option.splits)

section \<open>Gates\<close>

text \<open>The reachable states of the registry, with the commands that hold a gate.\<close>

inductive gate_reach :: "gates \<Rightarrow> (path \<times> nat) list \<Rightarrow> bool" where
  gate_start: "gate_reach \<lparr>registry = [], owners = (\<lambda>_. 0), next_gate = 0\<rparr> []"
| gate_take: "gate_reach g hs \<Longrightarrow> dune_workspace_gate key g = (gate, g') \<Longrightarrow>
    gate_reach g' ((key, gate) # hs)"
| gate_drop: "gate_reach g hs \<Longrightarrow> (key, gate) \<in> set hs \<Longrightarrow>
    gate_reach (drop_gate gate g) (remove1 (key, gate) hs)"

definition holders :: "nat \<Rightarrow> (path \<times> nat) list \<Rightarrow> nat" where
  "holders n hs = length (filter (\<lambda>h. snd h = n) hs)"

lemma holders_Cons [simp]:
  "holders n ((k, m) # hs) = (if m = n then Suc (holders n hs) else holders n hs)"
  by (simp add: holders_def)

lemma holders_pos: "(k, n) \<in> set hs \<Longrightarrow> holders n hs \<noteq> 0"
  by (force simp: holders_def filter_empty_conv)

lemma holders_remove1:
  "(k, m) \<in> set hs \<Longrightarrow> holders n (remove1 (k, m) hs) = (if m = n then holders n hs - 1 else holders n hs)"
proof (induction hs)
  case (Cons h hs)
  show ?case
  proof (cases "h = (k, m)")
    case True
    then show ?thesis by simp
  next
    case False
    with Cons have "(k, m) \<in> set hs" by auto
    with Cons False holders_pos show ?thesis by (cases h) (auto simp: neq0_conv dest: holders_pos)
  qed
qed simp

definition registry_ok :: "(path, nat) btree_map \<Rightarrow> nat \<Rightarrow> bool" where
  "registry_ok m b \<longleftrightarrow> bt_wf m \<and> (\<forall>k n. bt_get m k = Some n \<longrightarrow> n < b)
     \<and> (\<forall>k k' n. bt_get m k = Some n \<longrightarrow> bt_get m k' = Some n \<longrightarrow> k = k')"

definition gates_ok :: "gates \<Rightarrow> (path \<times> nat) list \<Rightarrow> bool" where
  "gates_ok g hs \<longleftrightarrow> registry_ok (registry g) (next_gate g)
     \<and> (\<forall>n. owners g n = holders n hs)
     \<and> (\<forall>k n. (k, n) \<in> set hs \<longrightarrow> bt_get (registry g) k = Some n)"

lemma bt_wf_filter: "bt_wf m \<Longrightarrow> bt_wf (filter P m)"
  by (auto simp: bt_wf_def sorted_wrt_map intro: sorted_wrt_filter)

lemma bt_get_filter:
  "bt_wf m \<Longrightarrow> bt_get (filter P m) k =
     (case bt_get m k of Some v \<Rightarrow> if P (k, v) then Some v else None | None \<Rightarrow> None)"
proof -
  assume wf: "bt_wf m"
  have "bt_get (filter P m) k = Some v \<longleftrightarrow> bt_get m k = Some v \<and> P (k, v)" for v
    using wf bt_wf_filter [OF wf, of P] by (auto simp: bt_get_iff)
  then show ?thesis
    by (metis (mono_tags, lifting) not_None_eq option.case_eq_if option.sel)
qed

lemma registry_ok_filter: "registry_ok m b \<Longrightarrow> registry_ok (filter P m) b"
  unfolding registry_ok_def
  by (auto simp: bt_get_filter bt_wf_filter split: option.splits if_splits)

lemma registry_ok_insert:
  assumes "registry_ok m b" shows "registry_ok (bt_insert k b m) (b + 1)"
proof -
  have less: "bt_get m k' = Some n \<Longrightarrow> n < b" for k' n using assms by (simp add: registry_ok_def)
  have wf: "bt_wf m" using assms by (simp add: registry_ok_def)
  have inj: "k1 = k2" if "bt_get (bt_insert k b m) k1 = Some n" "bt_get (bt_insert k b m) k2 = Some n" for k1 k2 n
    using that less [of k1 n] less [of k2 n] assms unfolding registry_ok_def bt_get_insert [OF wf]
    by (metis less_irrefl option.inject)
  have "n < b + 1" if "bt_get (bt_insert k b m) k1 = Some n" for k1 n
    using that less [of k1 n] by (auto simp: bt_get_insert [OF wf] split: if_splits)
  with inj bt_wf_insert [OF wf] show ?thesis unfolding registry_ok_def by blast
qed

lemma gates_ok_take:
  assumes ok: "gates_ok g hs" and take: "dune_workspace_gate key g = (gate, g')"
  shows "gates_ok g' ((key, gate) # hs)"
proof -
  define live where "live = filter (\<lambda>(_, gate). owners g gate \<noteq> 0) (registry g)"
  note step = take [unfolded dune_workspace_gate_def Let_def, folded live_def]
  have reg: "registry_ok (registry g) (next_gate g)" and own: "\<And>n. owners g n = holders n hs"
    using ok by (auto simp: gates_ok_def)
  have live_ok: "registry_ok live (next_gate g)" unfolding live_def by (rule registry_ok_filter [OF reg])
  have wf: "bt_wf (registry g)" "bt_wf live" using reg live_ok by (auto simp: registry_ok_def)
  have held: "bt_get live k = Some n" if "(k, n) \<in> set hs" for k n
    using ok that holders_pos [OF that] own
    by (auto simp: gates_ok_def live_def bt_get_filter [OF wf(1)])
  have "(k, next_gate g) \<notin> set hs" for k
    using held live_ok unfolding registry_ok_def by (metis less_irrefl)
  then have fresh: "holders (next_gate g) hs = 0"
    by (auto simp: holders_def filter_empty_conv)
  show ?thesis
  proof (cases "bt_get live key")
    case (Some n)
    with step have "gate = n" "g' = g\<lparr>registry := live, owners := (owners g)(n := owners g n + 1)\<rparr>"
      by auto
    with Some live_ok own held show ?thesis by (auto simp: gates_ok_def)
  next
    case None
    with step have g': "gate = next_gate g" "g' = g\<lparr>registry := bt_insert key (next_gate g) live,
        owners := (owners g)(next_gate g := 1), next_gate := next_gate g + 1\<rparr>"
      by auto
    have "(key, n) \<notin> set hs" for n using held None by fastforce
    then have "(k, n) \<in> set hs \<Longrightarrow> bt_get (bt_insert key (next_gate g) live) k = Some n" for k n
      using held by (auto simp: bt_get_insert [OF wf(2)])
    with registry_ok_insert [OF live_ok, of key] own fresh show ?thesis
      by (auto simp: gates_ok_def g' bt_get_insert [OF wf(2)])
  qed
qed

lemma gates_ok_reach: "gate_reach g hs \<Longrightarrow> gates_ok g hs"
proof (induction rule: gate_reach.induct)
  case gate_start
  then show ?case by (simp add: gates_ok_def registry_ok_def bt_wf_def holders_def bt.get_empty)
next
  case (gate_take g hs key gate g')
  then show ?case by (blast intro: gates_ok_take)
next
  case (gate_drop g hs key gate)
  have held: "(k, n) \<in> set hs" if "(k, n) \<in> set (remove1 (key, gate) hs)" for k n
    using that notin_set_remove1 by fast
  have "owners (drop_gate gate g) n = holders n (remove1 (key, gate) hs)" for n
    using gate_drop by (simp add: drop_gate_def gates_ok_def holders_remove1)
  with gate_drop.IH held show ?case by (auto simp: gates_ok_def drop_gate_def)
qed

text \<open>
  One gate per workspace. In every state that calls of \<open>dune_workspace_gate\<close> and the end of the
  commands can reach, in any interleaving, commands that hold a gate at the same time hold the same
  gate exactly when they run in the same canonical workspace: commands on the real build directory
  are serialized per workspace and independent across workspaces, although the registry forgets
  workspaces nobody uses.
\<close>

theorem gate_per_workspace:
  assumes "gate_reach g hs" and "(k, n) \<in> set hs" and "(k', n') \<in> set hs"
  shows "n = n' \<longleftrightarrow> k = k'"
  using gates_ok_reach [OF assms(1)] assms(2,3) unfolding gates_ok_def registry_ok_def
  by (metis option.inject)

theorem gate_per_workspace_witness:
  "\<exists>g. gate_reach g [([RootDir], 0), ([RootDir], 0)] \<and> (0 = (0 :: nat) \<longleftrightarrow> [RootDir] = [RootDir])"
proof -
  obtain g1 where g1: "dune_workspace_gate [RootDir] \<lparr>registry = [], owners = (\<lambda>_. 0), next_gate = 0\<rparr> = (0, g1)"
    and g1_eq: "g1 = \<lparr>registry = [([RootDir], 0)], owners = (\<lambda>_. 0)(0 := 1), next_gate = 1\<rparr>"
    by (simp add: dune_workspace_gate_def bt.get_empty)
  have "\<exists>g2. dune_workspace_gate [RootDir] g1 = (0, g2)"
    by (simp add: dune_workspace_gate_def bt_get_def g1_eq)
  then obtain g2 where "dune_workspace_gate [RootDir] g1 = (0, g2)" ..
  with gate_take [OF gate_take [OF gate_start g1]]
  have reach: "gate_reach g2 [([RootDir], 0), ([RootDir], 0)]" by blast
  with gate_per_workspace [OF reach, of "[RootDir]" 0 "[RootDir]" 0] show ?thesis by auto
qed

end
