(* ===== verification/Dune_Layout.thy ===== *)
theory Dune_Layout
  imports Dune_Process
begin

text \<open>
  \<open>rocq-engine/src/dune/mod.rs\<close>: the project view that Dune reports. A lexer for Dune's
  S-expressions, the selection of Rocq compile rules with their target, source and load paths, and
  the layout: logical library and source file in both directions, the build target of each source,
  and the load paths of PET. The Dune commands are those of \<open>Dune_Process\<close>; the file system is a
  call on the world.
\<close>

section \<open>The lexer\<close>

definition invalid_conf :: "string \<Rightarrow> err" where
  "invalid_conf m = error_new InvalidConfiguration m"

record lexer =
  lx_out :: "string list"
  lx_token :: string
  lx_quote :: bool
  lx_comment :: bool
  lx_depth :: nat

definition flush_token :: "lexer \<Rightarrow> lexer" where
  "flush_token st =
     (if lx_token st = [] then st else st\<lparr>lx_out := lx_out st @ [lx_token st], lx_token := []\<rparr>)"

definition sexp_step :: "string \<Rightarrow> lexer \<Rightarrow> err + lexer" where
  "sexp_step c st =
     (if lx_comment st then Inr (if c = [CHR 0x0A] then st\<lparr>lx_comment := False\<rparr> else st)
      else if \<not> lx_quote st \<and> (c = '';'' \<or> c = ''#'') then Inr (st\<lparr>lx_comment := True\<rparr>)
      else if c = [CHR 0x22] then Inr (st\<lparr>lx_quote := \<not> lx_quote st\<rparr>)
      else if \<not> lx_quote st \<and> (c = ''('' \<or> c = '')'') then
        (let st1 = (flush_token st)\<lparr>lx_out := lx_out (flush_token st) @ [c]\<rparr> in
         if c = ''('' then Inr (st1\<lparr>lx_depth := lx_depth st1 + 1\<rparr>)
         else if lx_depth st1 = 0 then Inl (invalid_conf ''unbalanced project expression'')
         else Inr (st1\<lparr>lx_depth := lx_depth st1 - 1\<rparr>))
      else if \<not> lx_quote st \<and> char_whitespace c then Inr (flush_token st)
      else Inr (st\<lparr>lx_token := lx_token st @ c\<rparr>))"

fun sexp_loop :: "string list \<Rightarrow> lexer \<Rightarrow> err + lexer" where
  "sexp_loop [] st = Inr st"
| "sexp_loop (c # cs) st = result_bind (sexp_step c st) (sexp_loop cs)"

definition sexp_start :: lexer where
  "sexp_start = \<lparr>lx_out = [], lx_token = [], lx_quote = False, lx_comment = False, lx_depth = 0\<rparr>"

definition sexp_tokens :: "string \<Rightarrow> err + string list" where
  "sexp_tokens source =
     result_bind (sexp_loop (utf8_chars source) sexp_start) (\<lambda>st.
     if lx_quote st \<or> lx_depth st \<noteq> 0 then Inl (invalid_conf ''unterminated project expression'')
     else Inr (lx_out (flush_token st)))"

section \<open>Rules\<close>

text \<open>The index of the closing parenthesis of the list that begins at \<open>start\<close>.\<close>

fun balanced_from :: "nat \<Rightarrow> nat \<Rightarrow> string list \<Rightarrow> nat option" where
  "balanced_from i depth [] = None"
| "balanced_from i depth (t # ts) =
     (if t = ''('' then balanced_from (i + 1) (depth + 1) ts
      else if t = '')'' then
        (if depth = 0 then None else if depth - 1 = 0 then Some i else balanced_from (i + 1) (depth - 1) ts)
      else balanced_from (i + 1) depth ts)"

definition balanced_end :: "string list \<Rightarrow> nat \<Rightarrow> nat option" where
  "balanced_end tokens start =
     (if start < length tokens \<and> tokens ! start = ''('' then balanced_from start 0 (drop start tokens)
      else None)"

text \<open>\<open>filter_map(..).next()\<close> on the tokens of the files list.\<close>

definition target_path :: "path \<Rightarrow> string \<Rightarrow> path option" where
  "target_path build_root token =
     (let p = path_of token in
      if path_is_absolute p then (if path_starts_with p build_root then Some p else None)
      else Some (path_join build_root p))"

fun first_target :: "path \<Rightarrow> string list \<Rightarrow> path option" where
  "first_target build_root [] = None"
| "first_target build_root (t # ts) =
     (if str_ends_with t ''.vo''
      then (case target_path build_root t of Some p \<Rightarrow> Some p | None \<Rightarrow> first_target build_root ts)
      else first_target build_root ts)"

definition rule_target_vo :: "string list \<Rightarrow> path \<Rightarrow> path option" where
  "rule_target_vo rule build_root =
     Option.bind (position (\<lambda>t. t = ''targets'') rule) (\<lambda>targets.
     let targets_start = targets + 1 in
     Option.bind (balanced_end rule targets_start) (\<lambda>targets_end.
     Option.bind (find (\<lambda>i. rule ! i = ''files'') [targets_start ..< targets_end]) (\<lambda>files.
     let files_start = files + 1 in
     Option.bind (balanced_end rule files_start) (\<lambda>files_end.
     first_target build_root (take (files_end - files_start) (drop files_start rule))))))"

definition validate_component :: "('w, 'z) dune_env_scheme \<Rightarrow> string \<Rightarrow> err + unit" where
  "validate_component env value =
     (if value = [] \<or> \<not> list_all (\<lambda>c. c = ''_'' \<or> c = [CHR 0x27]
           \<or> char_alphanumeric (unicode_alphanumeric env) c) (utf8_chars value)
      then Inl (invalid_conf ''logical library component is invalid'') else Inr ())"

definition build_root_of :: "('w, 'z) dune_env_scheme \<Rightarrow> path \<Rightarrow> path" where
  "build_root_of env root =
     (case dune_build_dir env of
        Some value \<Rightarrow> (let p = path_of value in if path_is_absolute p then p else path_join root p)
      | None \<Rightarrow> path_join root [Normal ''_build''])"

definition pet_load_path_allowed :: "('w, 'z) dune_env_scheme \<Rightarrow> path \<Rightarrow> pet_load_path \<Rightarrow> bool" where
  "pet_load_path_allowed env root mapping \<longleftrightarrow>
     (if \<not> path_starts_with (physical mapping) root then True
      else path_starts_with (physical mapping) (build_root_of env root))"

text \<open>\<open>fs::canonicalize(..).map_err(..)?\<close>\<close>

definition canonical_or :: "('w, 'z) dune_env_scheme \<Rightarrow> path \<Rightarrow> string \<Rightarrow> (('w, 's) sys_scheme, err, path) eff" where
  "canonical_or env p m =
     and_then (external (canonicalize env p)) (\<lambda>r. lift_result (ok_or (invalid_conf m) r))"

definition absolute_in :: "path \<Rightarrow> string \<Rightarrow> path" where
  "absolute_in directory text =
     (let p = path_of text in if path_is_absolute p then p else path_join directory p)"

definition load_path_entry ::
  "('w, 'z) dune_env_scheme \<Rightarrow> path \<Rightarrow> path \<Rightarrow> path \<Rightarrow> string \<times> string \<times> string \<Rightarrow> pet_load_path list
   \<Rightarrow> (('w, 's) sys_scheme, err, pet_load_path list) eff" where
  "load_path_entry env action_dir workspace isolated entry output =
     (case entry of (flag, directory, name) \<Rightarrow>
        (let logical = split_char (CHR ''.'') name in
         if list_ex (\<lambda>part. validate_component env part \<noteq> Inr ()) logical
         then throw (invalid_conf ''invalid Dune Rocq load-path mapping'')
         else
           and_then (canonical_or env (absolute_in action_dir directory)
             ''Dune Rocq load-path directory is unavailable'') (\<lambda>reported.
           let implicit = (flag = ''-R'') in
           (case path_strip_prefix isolated reported of
              Some relative \<Rightarrow>
                and_then (external (is_dir env (path_join workspace relative))) (\<lambda>dir.
                if dir then
                  and_then (canonical_or env (path_join workspace relative)
                    ''Dune source load-path directory is unavailable'') (\<lambda>source.
                  let compiled = path_join (path_join (build_root_of env workspace) [Normal ''default'']) relative in
                  ret (push_new \<lparr>physical = source, logical = logical, implicit = implicit\<rparr>
                        (push_new \<lparr>physical = compiled, logical = logical, implicit = implicit\<rparr> output)))
                else ret output)
            | None \<Rightarrow> ret (push_new \<lparr>physical = reported, logical = logical, implicit = implicit\<rparr> output)))))"

definition dune_load_paths ::
  "('w, 'z) dune_env_scheme \<Rightarrow> string list \<Rightarrow> path \<Rightarrow> path \<Rightarrow> path
   \<Rightarrow> (('w, 's) sys_scheme, err, pet_load_path list) eff" where
  "dune_load_paths env rule action_dir workspace isolated =
     for_each (load_path_entry env action_dir workspace isolated)
       (filter (\<lambda>(flag, _, _). flag = ''-R'' \<or> flag = ''-Q'') (windows3 rule)) []"

section \<open>Dune descriptions\<close>

definition dune_describe ::
  "('w, 'z) dune_env_scheme \<Rightarrow> path \<Rightarrow> string list \<Rightarrow> path option \<Rightarrow> nat option
   \<Rightarrow> (('w, 's) sys_scheme, err, native_output) eff" where
  "dune_describe env workspace args build_dir limit =
     and_then (map_err (\<lambda>_. invalid_conf ''Dune is unavailable'') (run_dune env args workspace limit build_dir)) (\<lambda>output.
     if no_cancelled output then throw (error_new RequestCancelled ''Dune description was cancelled'')
     else if no_timed_out output then throw (error_new ProjectTimeout ''Dune description timed out'')
     else if no_overflow output then throw (invalid_conf ''Dune description exceeded output limit'')
     else if \<not> exit_success (no_status output)
     then throw (invalid_conf (''Dune '' @ args ! 1 @ '' failed: '' @ trim (utf8_lossy env (no_stderr output))))
     else ret output)"

definition describe_tokens ::
  "('w, 'z) dune_env_scheme \<Rightarrow> path \<Rightarrow> string list \<Rightarrow> path option \<Rightarrow> nat option \<Rightarrow> string
   \<Rightarrow> (('w, 's) sys_scheme, err, string list) eff" where
  "describe_tokens env workspace args build_dir limit not_utf8 =
     and_then (dune_describe env workspace args build_dir limit) (\<lambda>output.
     lift_result (if utf8 (no_stdout output) then sexp_tokens (no_stdout output)
       else Inl (invalid_conf not_utf8)))"

definition dune_workspace ::
  "('w, 'z) dune_env_scheme \<Rightarrow> path \<Rightarrow> path option \<Rightarrow> nat option
   \<Rightarrow> (('w, 's) sys_scheme, err, path \<times> path) eff" where
  "dune_workspace env requested build_dir limit =
     and_then (describe_tokens env requested
       [''describe'', ''workspace'', ''--format'', ''sexp'', ''--lang'', ''0.1''] build_dir limit
       ''Dune workspace is not UTF-8'') (\<lambda>tokens.
     and_then (lift_result (ok_or (invalid_conf ''Dune workspace root unavailable'')
       (map_option path_of (token_after ''root'' tokens)))) (\<lambda>root.
     and_then (canonical_or env root ''Dune workspace root unavailable'') (\<lambda>root.
     and_then (lift_result (ok_or (invalid_conf ''Dune build context unavailable'')
       (map_option (\<lambda>t. path_join root (path_of t)) (token_after ''build_context'' tokens)))) (\<lambda>build_context.
     ret (root, build_context)))))"

record dune_source =
  src_path :: path
  src_prefix :: logical_library
  src_target :: path
  src_load_paths :: "pet_load_path list"

type_synonym dune_acc = "dune_source list \<times> (path \<times> logical_library) list"

definition is_compile_rule :: "string list \<Rightarrow> bool" where
  "is_compile_rule rule \<longleftrightarrow>
     list_ex (\<lambda>t. str_ends_with t ''.vo'') rule
     \<and> list_ex (\<lambda>(a, b). str_ends_with a ''rocq'' \<and> b = ''compile'') (zip rule (tl rule))"

text \<open>The source, the target and the working directory of one Rocq compile rule.\<close>

definition rule_parts :: "path \<Rightarrow> path \<Rightarrow> string list \<Rightarrow> err + path \<times> path \<times> path" where
  "rule_parts workspace build_root rule =
     result_bind (ok_or (invalid_conf ''Rocq rule lacks target'') (rule_target_vo rule build_root)) (\<lambda>target.
     result_bind (ok_or (invalid_conf ''Rocq target is outside Dune's build context'')
       (path_strip_prefix build_root target)) (\<lambda>build_target.
     result_bind (ok_or (invalid_conf ''Rocq compile action has no working directory'')
       (map_option path_of (token_after ''chdir'' rule))) (\<lambda>action_dir.
     result_bind (ok_or (invalid_conf ''Rocq rule lacks source'')
       (find (\<lambda>t. str_ends_with t ''.v'') (rev rule))) (\<lambda>source_argument.
     result_bind (ok_or (invalid_conf ''Rocq source is outside Dune's build context'')
       (path_strip_prefix build_root (absolute_in action_dir source_argument))) (\<lambda>relative.
     Inr (path_join workspace relative, build_target, action_dir))))))"

definition source_mapping :: "path \<Rightarrow> path \<Rightarrow> pet_load_path list \<Rightarrow> pet_load_path option" where
  "source_mapping workspace source mappings =
     max_by_key (\<lambda>m. length (physical m))
       (filter (\<lambda>m. path_starts_with (physical m) workspace \<and> path_starts_with source (physical m)) mappings)"

definition dune_rule ::
  "('w, 'z) dune_env_scheme \<Rightarrow> path \<Rightarrow> path \<Rightarrow> string list \<Rightarrow> dune_acc \<Rightarrow> (('w, 's) sys_scheme, err, dune_acc) eff" where
  "dune_rule env workspace build_root rule acc =
     (if \<not> is_compile_rule rule then ret acc
      else
        and_then (lift_result (rule_parts workspace build_root rule)) (\<lambda>(source, build_target, action_dir).
        and_then (if path_starts_with source workspace then external (is_file env source) else ret False) (\<lambda>owned.
        if \<not> owned then ret acc
        else
          and_then (dune_load_paths env rule action_dir workspace build_root) (\<lambda>load_paths.
          and_then (lift_result (ok_or (invalid_conf ''Rocq rule lacks source mapping'')
            (source_mapping workspace source load_paths))) (\<lambda>mapping.
          and_then (canonical_or env source ''Dune source unavailable'') (\<lambda>canonical.
          ret (fst acc @ [\<lparr>src_path = canonical, src_prefix = logical mapping, src_target = build_target,
                 src_load_paths = load_paths\<rparr>],
               push_new (physical mapping, logical mapping) (snd acc))))))))"

text \<open>The tokens of the first rule and what follows it.\<close>

fun rule_loop :: "int \<Rightarrow> string list \<Rightarrow> string list \<Rightarrow> (string list \<times> string list) option" where
  "rule_loop depth acc [] = None"
| "rule_loop depth acc (t # ts) =
     (let d = depth + (if t = ''('' then 1 else 0) - (if t = '')'' then 1 else 0) in
      if d = 0 then Some (acc @ [t], ts) else rule_loop d (acc @ [t]) ts)"

lemma rule_loop_split: "rule_loop d acc ts = Some (rule, rest) \<Longrightarrow> \<exists>k. k \<noteq> [] \<and> ts = k @ rest \<and> rule = acc @ k"
  by (induction d acc ts rule: rule_loop.induct) (force simp: Let_def split: if_splits)+

lemma rule_loop_shorter: "rule_loop d acc ts = Some (rule, rest) \<Longrightarrow> length rest < length ts"
  using rule_loop_split by fastforce

function dune_rules ::
  "('w, 'z) dune_env_scheme \<Rightarrow> path \<Rightarrow> path \<Rightarrow> string list \<Rightarrow> dune_acc \<Rightarrow> (('w, 's) sys_scheme, err, dune_acc) eff" where
  "dune_rules env workspace build_root tokens acc =
     (if tokens = [] then ret acc
      else if hd tokens \<noteq> ''('' then throw (invalid_conf ''invalid Dune rule'')
      else (case rule_loop 0 [] tokens of
          None \<Rightarrow> throw (invalid_conf ''unterminated Dune rule'')
        | Some (rule, rest) \<Rightarrow>
            and_then (dune_rule env workspace build_root rule acc) (dune_rules env workspace build_root rest)))"
  by pat_completeness auto
termination
  by (relation "measure (\<lambda>(_, _, _, tokens, _). length tokens)") (auto dest: rule_loop_shorter)

declare dune_rules.simps [simp del]

definition remaining :: "('w, 'z) dune_env_scheme \<Rightarrow> nat option \<Rightarrow> (('w, 's) sys_scheme, err, nat option) eff" where
  "remaining env d =
     (case d of None \<Rightarrow> ret None
      | Some limit \<Rightarrow> and_then (external (clock env)) (\<lambda>now. ret (Some (limit - now))))"

definition dune_sources ::
  "('w, 'z) dune_env_scheme \<Rightarrow> path \<Rightarrow> nat option \<Rightarrow> (('w, 's) sys_scheme, err, path \<times> dune_acc) eff" where
  "dune_sources env requested limit =
     and_then (case limit of None \<Rightarrow> ret None
        | Some dur \<Rightarrow> and_then (external (clock env)) (\<lambda>now. ret (instant_add now dur))) (\<lambda>d.
     and_then (external (temp_dir env)) (\<lambda>tmp.
     and_then (lift_result (ok_or (invalid_conf ''Dune metadata directory unavailable'') tmp)) (\<lambda>isolated.
     let build_dir = path_join isolated [Normal ''build''] in
     and_then (remaining env d) (\<lambda>left.
     and_then (dune_workspace env requested (Some build_dir) left) (\<lambda>(workspace, build_root).
     and_then (remaining env d) (\<lambda>left.
     and_then (describe_tokens env workspace [''describe'', ''rules''] (Some build_dir) left
       ''Dune rules are not UTF-8'') (\<lambda>tokens.
     and_then (dune_rules env workspace build_root tokens ([], [])) (\<lambda>acc.
     ret (workspace, acc)))))))))"

section \<open>The layout\<close>

record layout =
  by_library :: "(logical_library, path) btree_map"
  by_file :: "(path, logical_library) btree_map"
  build_target_by_file :: "(path, path) btree_map"
  layout_ws :: pet_workspace

text \<open>The logical name of a source: the prefix, the directories below the mapping, the stem.\<close>

fun library_parts :: "('w, 'z) dune_env_scheme \<Rightarrow> path \<Rightarrow> err + logical_library" where
  "library_parts env [] = Inr []"
| "library_parts env (c # cs) =
     (case c of
        Normal value \<Rightarrow>
          (let name = (if cs = [] then file_stem value else value) in
           result_bind (validate_component env name) (\<lambda>_.
           result_bind (library_parts env cs) (\<lambda>parts. Inr (name # parts))))
      | _ \<Rightarrow> Inl (invalid_conf ''unsafe project layout''))"

text \<open>The maps while the layout is built.\<close>

record layout_maps =
  lm_library :: "(logical_library, path) btree_map"
  lm_file :: "(path, logical_library) btree_map"
  lm_target :: "(path, path) btree_map"
  lm_load_paths :: "pet_load_path list"

text \<open>The three inserts of the source: each answers whether the key was there, and \<open>||\<close> stops at
  the first that was.\<close>

definition insert_source :: "logical_library \<Rightarrow> path \<Rightarrow> path \<Rightarrow> layout_maps \<Rightarrow> err + layout_maps" where
  "insert_source lib canonical target m =
     (if bt_get (lm_library m) lib \<noteq> None \<or> bt_get (lm_file m) canonical \<noteq> None
         \<or> bt_get (lm_target m) canonical \<noteq> None
      then Inl (error_new Ambiguous ''project layout is ambiguous'')
      else Inr (m\<lparr>lm_library := bt_insert lib canonical (lm_library m),
             lm_file := bt_insert canonical lib (lm_file m),
             lm_target := bt_insert canonical target (lm_target m)\<rparr>))"

definition add_load_paths ::
  "('w, 'z) dune_env_scheme \<Rightarrow> path \<Rightarrow> pet_load_path list \<Rightarrow> pet_load_path list \<Rightarrow> pet_load_path list" where
  "add_load_paths env root new old =
     foldl (\<lambda>acc m. if pet_load_path_allowed env root m then push_new m acc else acc) old new"

definition add_source ::
  "('w, 'z) dune_env_scheme \<Rightarrow> path \<Rightarrow> path \<Rightarrow> logical_library \<Rightarrow> dune_source \<Rightarrow> layout_maps
   \<Rightarrow> (('w, 's) sys_scheme, err, layout_maps) eff" where
  "add_source env root directory lib_prefix src m =
     (let m1 = m\<lparr>lm_load_paths := add_load_paths env root (src_load_paths src) (lm_load_paths m)\<rparr> in
      and_then (canonical_or env (src_path src) ''project source is unavailable'') (\<lambda>canonical.
      lift_result
        (if \<not> path_starts_with canonical root then Inl (invalid_conf ''project layout escapes its root'')
         else
           result_bind (ok_or (invalid_conf ''ambiguous project layout'') (path_strip_prefix directory canonical)) (\<lambda>relative.
           result_bind (library_parts env relative) (\<lambda>parts.
           insert_source (lib_prefix @ parts) canonical (src_target src) m1)))))"

definition add_mapping ::
  "('w, 'z) dune_env_scheme \<Rightarrow> path \<Rightarrow> dune_source list \<Rightarrow> path \<times> logical_library \<Rightarrow> layout_maps
   \<Rightarrow> (('w, 's) sys_scheme, err, layout_maps) eff" where
  "add_mapping env root sources mapping m =
     (case mapping of (directory, lib_prefix) \<Rightarrow>
        for_each (add_source env root directory lib_prefix)
          (filter (\<lambda>src. path_starts_with (src_path src) directory \<and> src_prefix src = lib_prefix) sources) m)"

definition layout_load ::
  "('w, 'z) dune_env_scheme \<Rightarrow> path \<Rightarrow> nat option \<Rightarrow> (('w, 's) sys_scheme, err, path \<times> layout) eff" where
  "layout_load env requested limit =
     and_then (dune_sources env requested limit) (\<lambda>(root, sources, mappings).
     and_then (for_each (add_mapping env root sources) mappings
       \<lparr>lm_library = [], lm_file = [], lm_target = [], lm_load_paths = []\<rparr>) (\<lambda>m.
     ret (root, \<lparr>by_library = lm_library m, by_file = lm_file m, build_target_by_file = lm_target m,
       layout_ws = \<lparr>ws_root = root, load_paths = lm_load_paths m\<rparr>\<rparr>)))"

definition layout_library :: "layout \<Rightarrow> path \<Rightarrow> err + logical_library" where
  "layout_library l file = ok_or (invalid_conf ''source is outside the project layout'') (bt_get (by_file l) file)"

definition layout_files :: "layout \<Rightarrow> path list" where
  "layout_files l = map fst (by_file l)"

definition contains_file :: "layout \<Rightarrow> path \<Rightarrow> bool" where
  "contains_file l file \<longleftrightarrow> bt_get (by_file l) file \<noteq> None"

definition source_for_constant :: "layout \<Rightarrow> string \<Rightarrow> path option" where
  "source_for_constant l constant =
     (let parts = split_char (CHR ''.'') constant in
      map_option snd
        (max_by_key (\<lambda>(library, _). length library)
          (filter (\<lambda>(library, _). length library < length parts
             \<and> list_all (\<lambda>(part, expected). part = expected) (zip parts library)) (by_library l))))"

definition layout_pet_workspace :: "layout \<Rightarrow> path \<Rightarrow> err + pet_workspace" where
  "layout_pet_workspace l file =
     (if contains_file l file then Inr (layout_ws l) else Inl (invalid_conf ''source is outside Dune project''))"

definition build_target :: "layout \<Rightarrow> path \<Rightarrow> err + path" where
  "build_target l file =
     ok_or (invalid_conf ''Dune source has no reported build target'') (bt_get (build_target_by_file l) file)"

section \<open>What the lexer reads\<close>

text \<open>A token stream and its text: parentheses, bare atoms and quoted atoms, separated by blanks.\<close>

datatype stok = SOpen | SClose | SBare string | SQuoted string

fun stok_text :: "stok \<Rightarrow> string" where
  "stok_text SOpen = ''(''"
| "stok_text SClose = '')''"
| "stok_text (SBare a) = a"
| "stok_text (SQuoted a) = a"

fun stok_print :: "stok \<Rightarrow> string" where
  "stok_print SOpen = ''(''"
| "stok_print SClose = '')''"
| "stok_print (SBare a) = a"
| "stok_print (SQuoted a) = [CHR 0x22] @ a @ [CHR 0x22]"

definition sexp_print :: "stok list \<Rightarrow> string" where
  "sexp_print ts = concat (map (\<lambda>t. stok_print t @ '' '') ts)"

definition plain_char :: "string \<Rightarrow> bool" where
  "plain_char c \<longleftrightarrow> c \<noteq> '';'' \<and> c \<noteq> ''#'' \<and> c \<noteq> [CHR 0x22] \<and> c \<noteq> ''('' \<and> c \<noteq> '')'' \<and> \<not> char_whitespace c"

fun stok_ok :: "stok \<Rightarrow> bool" where
  "stok_ok (SBare a) \<longleftrightarrow> a \<noteq> [] \<and> utf8 a \<and> list_all plain_char (utf8_chars a)"
| "stok_ok (SQuoted a) \<longleftrightarrow> a \<noteq> [] \<and> utf8 a \<and> CHR 0x22 \<notin> set a"
| "stok_ok _ \<longleftrightarrow> True"

text \<open>The nesting depth after the tokens; \<open>None\<close> when a parenthesis closes nothing.\<close>

fun nesting :: "nat \<Rightarrow> stok list \<Rightarrow> nat option" where
  "nesting n [] = Some n"
| "nesting n (SOpen # ts) = nesting (n + 1) ts"
| "nesting n (SClose # ts) = (if n = 0 then None else nesting (n - 1) ts)"
| "nesting n (_ # ts) = nesting n ts"

lemma sexp_loop_append: "sexp_loop (cs @ ds) st = result_bind (sexp_loop cs st) (sexp_loop ds)"
proof (induction cs arbitrary: st)
  case (Cons c cs)
  show ?case by (cases "sexp_step c st") (simp_all add: Cons)
qed simp

definition at_rest :: "string list \<Rightarrow> nat \<Rightarrow> lexer" where
  "at_rest out n = \<lparr>lx_out = out, lx_token = [], lx_quote = False, lx_comment = False, lx_depth = n\<rparr>"

definition inside :: "bool \<Rightarrow> string list \<Rightarrow> string \<Rightarrow> nat \<Rightarrow> lexer" where
  "inside q out token n = \<lparr>lx_out = out, lx_token = token, lx_quote = q, lx_comment = False, lx_depth = n\<rparr>"

lemma at_rest_inside: "at_rest out n = inside False out [] n"
  by (simp add: at_rest_def inside_def)

lemma sexp_loop_bare:
  "list_all plain_char cs \<Longrightarrow> sexp_loop cs (inside False out token n) = Inr (inside False out (token @ concat cs) n)"
  by (induction cs arbitrary: token) (auto simp: plain_char_def sexp_step_def inside_def)

lemma sexp_loop_quoted:
  "[CHR 0x22] \<notin> set cs \<Longrightarrow> sexp_loop cs (inside True out token n) = Inr (inside True out (token @ concat cs) n)"
  by (induction cs arbitrary: token) (auto simp: sexp_step_def inside_def)

lemma blank_is_whitespace: "char_whitespace '' ''"
  by (simp add: char_whitespace_def ws_chars_def)

lemma sexp_step_blank: "sexp_step '' '' (inside False out token n) = Inr (flush_token (inside False out token n))"
  using blank_is_whitespace by (simp add: sexp_step_def inside_def)

lemma ascii_bytes [simp]:
  "byte (CHR '' '') < 128" "byte (CHR ''('') < 128" "byte (CHR '')'') < 128" "byte (CHR 0x22) < 128"
  by (simp_all add: byte_def)

text \<open>One printed token from rest.\<close>

lemma sexp_loop_stok:
  assumes "stok_ok t"
  shows "sexp_loop (utf8_chars (stok_print t @ '' '' @ rest)) (at_rest out n) =
    (case nesting n [t] of
       None \<Rightarrow> Inl (invalid_conf ''unbalanced project expression'')
     | Some m \<Rightarrow> sexp_loop (utf8_chars rest) (at_rest (out @ [stok_text t]) m))"
proof (cases t)
  case SOpen
  then show ?thesis
    using blank_is_whitespace
    by (simp add: utf8_chars_ascii sexp_step_def at_rest_def flush_token_def Let_def)
next
  case SClose
  then show ?thesis
    using blank_is_whitespace
    by (simp add: utf8_chars_ascii sexp_step_def at_rest_def flush_token_def Let_def)
next
  case (SBare a)
  with assms have "utf8_chars (a @ '' '' @ rest) = utf8_chars a @ '' '' # utf8_chars rest"
    "list_all plain_char (utf8_chars a)" "a \<noteq> []"
    by (simp_all add: utf8_chars_append utf8_chars_ascii)
  with SBare show ?thesis
    by (simp add: sexp_loop_append at_rest_inside sexp_loop_bare sexp_step_blank)
       (simp add: flush_token_def inside_def at_rest_def)
next
  case (SQuoted a)
  with assms have a: "utf8 a" "CHR 0x22 \<notin> set a" "a \<noteq> []" by auto
  have "utf8_chars ([CHR 0x22] @ a @ [CHR 0x22] @ '' '' @ rest)
      = [CHR 0x22] # utf8_chars a @ [CHR 0x22] # '' '' # utf8_chars rest"
    using a by (simp add: utf8_chars_append utf8_chars_ascii)
  moreover have "[CHR 0x22] \<notin> set (utf8_chars a)"
  proof
    assume "[CHR 0x22] \<in> set (utf8_chars a)"
    then have "CHR 0x22 \<in> set (concat (utf8_chars a))"
      by (simp add: bexI [of _ "[CHR 0x22]"] del: concat_utf8_chars)
    with a(2) show False by simp
  qed
  moreover have "sexp_step [CHR 0x22] (inside q out token n) = Inr (inside (\<not> q) out token n)" for q token
    by (simp add: sexp_step_def inside_def)
  ultimately show ?thesis
    using SQuoted a
    by (simp add: sexp_loop_append at_rest_inside sexp_loop_quoted sexp_step_blank)
       (simp add: flush_token_def inside_def at_rest_def)
qed

lemma sexp_loop_print:
  assumes "list_all stok_ok ts"
  shows "sexp_loop (utf8_chars (sexp_print ts)) (at_rest out n) =
    (case nesting n ts of
       None \<Rightarrow> Inl (invalid_conf ''unbalanced project expression'')
     | Some m \<Rightarrow> Inr (at_rest (out @ map stok_text ts) m))"
  using assms
proof (induction ts arbitrary: out n)
  case Nil
  then show ?case by (simp add: sexp_print_def)
next
  case (Cons t ts)
  have nest: "nesting n (t # ts) = (case nesting n [t] of None \<Rightarrow> None | Some m \<Rightarrow> nesting m ts)"
    by (cases t) auto
  have "sexp_print (t # ts) = stok_print t @ '' '' @ sexp_print ts"
    by (simp add: sexp_print_def)
  with Cons sexp_loop_stok [of t "sexp_print ts" out n] show ?case
    by (simp add: nest split: option.splits)
qed

lemma sexp_tokens_printed:
  assumes "list_all stok_ok ts"
  shows "sexp_tokens (sexp_print ts) =
    (case nesting 0 ts of
       None \<Rightarrow> Inl (invalid_conf ''unbalanced project expression'')
     | Some 0 \<Rightarrow> Inr (map stok_text ts)
     | Some (Suc n) \<Rightarrow> Inl (invalid_conf ''unterminated project expression''))"
proof -
  have "sexp_start = at_rest [] 0" by (simp add: sexp_start_def at_rest_def)
  then show ?thesis
    using sexp_loop_print [OF assms, of "[]" 0]
    by (auto simp: sexp_tokens_def at_rest_def flush_token_def split: option.splits nat.splits)
qed

lemma utf8_all_ascii: "list_all (\<lambda>c. byte c < 128) s \<Longrightarrow> utf8 s"
  by (induction s) (auto simp: utf8.simps(2) utf8_tail_def)

text \<open>
  C31. The lexer reads back what is printed. For every sequence of parentheses, bare atoms (no
  blank, quote, comment or parenthesis character) and quoted atoms (any text without a quote, so
  paths with blanks and parentheses too), \<open>sexp_tokens\<close> returns exactly the texts of the tokens when
  the parentheses balance, and otherwise the error that says which way they do not.
\<close>

theorem sexp_tokens_print:
  assumes "list_all stok_ok ts"
  shows "sexp_tokens (sexp_print ts) =
    (case nesting 0 ts of
       None \<Rightarrow> Inl (invalid_conf ''unbalanced project expression'')
     | Some 0 \<Rightarrow> Inr (map stok_text ts)
     | Some (Suc n) \<Rightarrow> Inl (invalid_conf ''unterminated project expression''))"
  by (rule sexp_tokens_printed [OF assms])

theorem sexp_tokens_print_witness:
  "sexp_tokens (sexp_print [SOpen, SBare ''root'', SQuoted ''/my (old) project'', SClose])
     = Inr [''('', ''root'', ''/my (old) project'', '')'']"
proof -
  have "list_all stok_ok [SOpen, SBare ''root'', SQuoted ''/my (old) project'', SClose]"
    by (simp add: utf8_all_ascii utf8_chars_ascii plain_char_def char_whitespace_def ws_chars_def byte_def)
  from sexp_tokens_print [OF this] show ?thesis by simp
qed

text \<open>The comment on the lexer says that it rejects unterminated comments; a comment that runs to the
  end of the text is accepted.\<close>

lemma open_comment_accepted: "sexp_tokens ''(a)#'' = Inr [''('', ''a'', '')'']"
  by (simp add: sexp_tokens_def utf8_chars_ascii byte_def sexp_step_def sexp_start_def flush_token_def Let_def
      char_whitespace_def ws_chars_def)

section \<open>Targets\<close>

text \<open>The depth of a token list, counted from \<open>d\<close>.\<close>

definition paren_depth :: "string list \<Rightarrow> int" where
  "paren_depth ts = int (length (filter (\<lambda>t. t = ''('') ts)) - int (length (filter (\<lambda>t. t = '')'') ts))"

lemma paren_depth_simps [simp]:
  "paren_depth [] = 0"
  "paren_depth (t # ts) = (if t = ''('' then 1 else if t = '')'' then - 1 else 0) + paren_depth ts"
  by (simp_all add: paren_depth_def)

lemma balanced_from_spec:
  "0 < d \<Longrightarrow> balanced_from i d ts = Some j \<Longrightarrow>
     \<exists>k < length ts. j = i + k \<and> ts ! k = '')'' \<and> int d + paren_depth (take k ts) = 1
       \<and> (\<forall>m \<le> k. 0 < int d + paren_depth (take m ts))"
proof (induction ts arbitrary: i d)
  case (Cons t ts)
  consider (close) "t = '')''" "d = 1" "j = i"
    | (step) d' where "balanced_from (i + 1) d' ts = Some j" "0 < d'"
        "int d' = int d + (if t = ''('' then 1 else if t = '')'' then - 1 else 0)"
    using Cons.prems by (auto split: if_splits)
  then show ?case
  proof cases
    case close
    then show ?thesis by (intro exI [of _ 0]) simp
  next
    case (step d')
    from Cons.IH [OF step(2,1)] obtain k where k: "k < length ts" "j = i + 1 + k" "ts ! k = '')''"
      "int d' + paren_depth (take k ts) = 1" "\<And>m. m \<le> k \<Longrightarrow> 0 < int d' + paren_depth (take m ts)"
      by blast
    have "0 < int d + paren_depth (take m (t # ts))" if "m \<le> Suc k" for m
      using that Cons.prems(1) step(3) k(5) [of "m - 1"] by (cases m) auto
    with k step(3) show ?thesis by (intro exI [of _ "Suc k"]) auto
  qed
qed simp

lemma balanced_end_spec:
  assumes "balanced_end ts start = Some j"
  shows "start < j \<and> j < length ts \<and> ts ! start = ''('' \<and> ts ! j = '')''
    \<and> paren_depth (take (j - start) (drop start ts)) = 1
    \<and> (\<forall>m. 0 < m \<longrightarrow> m \<le> j - start \<longrightarrow> 0 < paren_depth (take m (drop start ts)))"
proof -
  have start: "start < length ts" "ts ! start = ''(''" and depth0: "balanced_from start 0 (drop start ts) = Some j"
    using assms by (auto simp: balanced_end_def split: if_splits)
  then have cons: "drop start ts = ''('' # drop (Suc start) ts" by (metis Cons_nth_drop_Suc)
  with depth0 have "balanced_from (start + 1) 1 (drop (Suc start) ts) = Some j" by simp
  from balanced_from_spec [OF _ this] obtain k where k: "k < length (drop (Suc start) ts)"
    "j = start + 1 + k" "drop (Suc start) ts ! k = '')''" "1 + paren_depth (take k (drop (Suc start) ts)) = 1"
    "\<And>m. m \<le> k \<Longrightarrow> 0 < 1 + paren_depth (take m (drop (Suc start) ts))"
    by auto
  have "0 < paren_depth (take m (drop start ts))" if "0 < m" "m \<le> Suc k" for m
    using that k(5) [of "m - 1"] by (cases m) (auto simp: cons)
  with k start show ?thesis by (auto simp: cons)
qed

lemma first_target_spec:
  "first_target root ts = Some p \<Longrightarrow>
     \<exists>i < length ts. suffix ''.vo'' (ts ! i) \<and> target_path root (ts ! i) = Some p"
  by (induction ts) (force simp: str_ends_with_def split: if_splits option.splits)+

lemma target_path_within: "root \<noteq> [] \<Longrightarrow> target_path root t = Some p \<Longrightarrow> prefix root p"
  by (auto simp: target_path_def path_join_def path_starts_with_def Let_def split: if_splits)

text \<open>
  The artifact of a rule is a target of that rule. When \<open>rule_target_vo\<close> answers, its path is
  that of a \<open>.vo\<close> token inside the parentheses that follow the first \<open>targets\<close>, after a \<open>files\<close> of
  the same form and before the parenthesis that closes the file list, never of a dependency or an
  action outside that form; and it lies in the build context, so the check that follows in
  \<open>dune_sources\<close> cannot fail.
\<close>

theorem rule_target_in_targets:
  assumes "rule_target_vo rule root = Some p" and "root \<noteq> []"
  shows "\<exists>t te f fe i. position (\<lambda>x. x = ''targets'') rule = Some t \<and> balanced_end rule (t + 1) = Some te
    \<and> t + 1 \<le> f \<and> f < te \<and> rule ! f = ''files'' \<and> balanced_end rule (f + 1) = Some fe
    \<and> f + 1 \<le> i \<and> i < fe \<and> suffix ''.vo'' (rule ! i) \<and> target_path root (rule ! i) = Some p
    \<and> path_strip_prefix root p \<noteq> None"
proof -
  obtain t te f fe where t: "position (\<lambda>x. x = ''targets'') rule = Some t"
    and te: "balanced_end rule (t + 1) = Some te"
    and f: "find (\<lambda>i. rule ! i = ''files'') [t + 1 ..< te] = Some f"
    and fe: "balanced_end rule (f + 1) = Some fe"
    and p: "first_target root (take (fe - (f + 1)) (drop (f + 1) rule)) = Some p"
    using assms(1) by (auto simp: rule_target_vo_def Let_def bind_eq_Some_conv)
  obtain i where i: "i < length (take (fe - (f + 1)) (drop (f + 1) rule))"
    "suffix ''.vo'' (take (fe - (f + 1)) (drop (f + 1) rule) ! i)"
    "target_path root (take (fe - (f + 1)) (drop (f + 1) rule) ! i) = Some p"
    using first_target_spec [OF p] by blast
  define n where "n = f + 1 + i"
  have nth: "take (fe - (f + 1)) (drop (f + 1) rule) ! i = rule ! n" and n: "f + 1 \<le> n" "n < fe"
    using i(1) by (auto simp: n_def less_diff_conv)
  have "f \<in> set [t + 1 ..< te]" and files: "rule ! f = ''files''"
    using f by (auto simp: find_Some_iff simp del: upt.simps)
  then have "t + 1 \<le> f" "f < te" by simp_all
  moreover have "path_strip_prefix root p \<noteq> None"
    using target_path_within [OF assms(2) i(3)] by (simp add: path_strip_prefix_def)
  ultimately show ?thesis
    using t te fe files n i(2,3) unfolding nth by blast
qed

definition sample_rule :: "string list" where
  "sample_rule = [''('', ''('', ''deps'', ''/b/Other.vo'', '')'', ''('', ''targets'', ''('', ''('', ''files'',
     ''('', ''/b/S.glob'', ''/b/S.vo'', '')'', '')'', '')'', '')'', ''rocq'', ''compile'', ''S.v'', '')'']"

lemma sample_rule_targets: "position (\<lambda>t. t = ''targets'') sample_rule = Some 6"
  by (simp add: sample_rule_def)
lemma sample_rule_ends: "balanced_end sample_rule 7 = Some 15" "balanced_end sample_rule 10 = Some 13"
  by (simp_all add: sample_rule_def balanced_end_def)
lemma sample_rule_files: "sample_rule ! 7 = ''(''" "sample_rule ! 8 = ''(''" "sample_rule ! 9 = ''files''"
  by (simp_all add: sample_rule_def)
lemma sample_rule_first: "first_target [RootDir, Normal ''b''] (take 3 (drop 10 sample_rule)) = Some [RootDir, Normal ''b'', Normal ''S.vo'']"
  by (simp add: sample_rule_def str_ends_with_def suffix_def target_path_def path_of_def component_of_def path_is_absolute_def path_starts_with_def)
lemma sample_rule_target: "rule_target_vo sample_rule [RootDir, Normal ''b''] = Some [RootDir, Normal ''b'', Normal ''S.vo'']"
  by (simp add: rule_target_vo_def Let_def sample_rule_targets sample_rule_ends sample_rule_files sample_rule_first)

theorem rule_target_in_targets_witness:
  "rule_target_vo sample_rule [RootDir, Normal ''b''] = Some [RootDir, Normal ''b'', Normal ''S.vo'']
   \<and> path_strip_prefix [RootDir, Normal ''b''] [RootDir, Normal ''b'', Normal ''S.vo''] \<noteq> None"
  using rule_target_in_targets [OF sample_rule_target] sample_rule_target by blast

section \<open>Layouts\<close>

lemma zip_all_prefix:
  "length lib < length parts \<Longrightarrow> list_all (\<lambda>(part, expected). part = expected) (zip parts lib) \<longleftrightarrow> prefix lib parts"
proof (induction lib arbitrary: parts)
  case (Cons a lib)
  then show ?case by (cases parts) auto
qed simp

text \<open>The libraries of a layout that can define a constant: strict prefixes of its path.\<close>

definition can_define :: "layout \<Rightarrow> string \<Rightarrow> logical_library \<Rightarrow> bool" where
  "can_define l constant lib \<longleftrightarrow>
     bt_get (by_library l) lib \<noteq> None \<and> strict_prefix lib (split_char (CHR ''.'') constant)"

text \<open>
  The longest library wins. In a well-formed layout \<open>source_for_constant\<close> answers the file of the
  longest logical library that is a strict prefix of the constant's path, that library is unique,
  and it answers nothing exactly when no library of the project is such a prefix.
\<close>

theorem source_for_constant_longest:
  assumes "bt_wf (by_library l)"
  shows "source_for_constant l constant = Some f \<longleftrightarrow>
      (\<exists>!lib. can_define l constant lib \<and> bt_get (by_library l) lib = Some f
        \<and> (\<forall>lib'. can_define l constant lib' \<longrightarrow> length lib' \<le> length lib))"
    (is "?found \<longleftrightarrow> ?longest")
proof -
  define parts where "parts = split_char (CHR ''.'') constant"
  define cands where "cands = filter (\<lambda>(library, _). length library < length parts
     \<and> list_all (\<lambda>(part, expected). part = expected) (zip parts library)) (by_library l)"
  have cand: "(lib, g) \<in> set cands \<longleftrightarrow> bt_get (by_library l) lib = Some g \<and> can_define l constant lib" for lib g
    using bt_get_iff [OF assms, of lib g] zip_all_prefix [of lib parts]
    by (auto simp: cands_def can_define_def parts_def [symmetric] strict_prefix_def
        dest: prefix_length_le prefix_length_prefix)
      (metis le_neq_implies_less prefix_def append_eq_conv_conj prefix_length_le take_all_iff nat_less_le)+
  have uniq: "lib = lib'" if "can_define l constant lib" "can_define l constant lib'" "length lib = length lib'"
    for lib lib'
    using that by (auto simp: can_define_def strict_prefix_def prefix_def)
  have eq: "source_for_constant l constant = map_option snd (max_by_key (\<lambda>(library, _). length library) cands)"
    by (simp add: source_for_constant_def cands_def parts_def Let_def)
  show ?thesis
  proof
    assume ?found
    then obtain lib where m: "max_by_key (\<lambda>(library, _). length library) cands = Some (lib, f)"
      by (auto simp: eq)
    from max_by_key_Some [OF m] have "(lib, f) \<in> set cands" "\<forall>y \<in> set cands. length (fst y) \<le> length lib"
      by (auto simp: case_prod_beta)
    then have lib: "can_define l constant lib \<and> bt_get (by_library l) lib = Some f
        \<and> (\<forall>lib'. can_define l constant lib' \<longrightarrow> length lib' \<le> length lib)"
      using cand by (fastforce simp: can_define_def)
    then show ?longest
      by (rule ex1I) (meson lib uniq le_antisym)
  next
    assume ?longest
    then obtain lib where lib: "can_define l constant lib" "bt_get (by_library l) lib = Some f"
      "\<And>lib'. can_define l constant lib' \<Longrightarrow> length lib' \<le> length lib"
      by blast
    then have "(lib, f) \<in> set cands" by (simp add: cand)
    then obtain lib' g where m: "max_by_key (\<lambda>(library, _). length library) cands = Some (lib', g)"
      by (metis empty_iff list.set(1) max_by_key_None not_None_eq surj_pair)
    from max_by_key_Some [OF m] have max: "(lib', g) \<in> set cands" "\<forall>y \<in> set cands. length (fst y) \<le> length lib'"
      by (auto simp: case_prod_beta)
    then have g: "bt_get (by_library l) lib' = Some g" "can_define l constant lib'" by (simp_all add: cand)
    have "length lib \<le> length lib'" using max(2) \<open>(lib, f) \<in> set cands\<close> by force
    with g lib(3) [OF g(2)] lib(1) have "lib' = lib" by (intro uniq) auto
    with m g lib show ?found by (simp add: eq)
  qed
qed

theorem source_for_constant_longest_witness:
  "bt_wf (by_library \<lparr>by_library = [([''A''], [RootDir, Normal ''A.v'']), ([''A'', ''B''], [RootDir, Normal ''B.v''])],
      by_file = [], build_target_by_file = [], layout_ws = sample_ws\<rparr>)
   \<and> source_for_constant \<lparr>by_library = [([''A''], [RootDir, Normal ''A.v'']), ([''A'', ''B''], [RootDir, Normal ''B.v''])],
      by_file = [], build_target_by_file = [], layout_ws = sample_ws\<rparr> ''A.B.c'' = Some [RootDir, Normal ''B.v'']
   \<and> can_define \<lparr>by_library = [([''A''], [RootDir, Normal ''A.v'']), ([''A'', ''B''], [RootDir, Normal ''B.v''])],
      by_file = [], build_target_by_file = [], layout_ws = sample_ws\<rparr> ''A.B.c'' [''A'', ''B'']"
proof -
  let ?l = "\<lparr>by_library = [([''A''], [RootDir, Normal ''A.v'']), ([''A'', ''B''], [RootDir, Normal ''B.v''])],
      by_file = [], build_target_by_file = [], layout_ws = sample_ws\<rparr>"
  have wf: "bt_wf (by_library ?l)" by (simp add: bt_wf_def)
  have run: "source_for_constant ?l ''A.B.c'' = Some [RootDir, Normal ''B.v'']"
    by (simp add: source_for_constant_def)
  from source_for_constant_longest [OF wf, of "''A.B.c''" "[RootDir, Normal ''B.v'']"] run
  obtain lib where "can_define ?l ''A.B.c'' lib" "bt_get (by_library ?l) lib = Some [RootDir, Normal ''B.v'']"
    by blast
  moreover from this have "lib = [''A'', ''B'']" by (auto simp: bt_get_def split: if_splits)
  ultimately show ?thesis using wf run by blast
qed

text \<open>
  A good layout for a root: the two directions are inverse to each other, every source has exactly
  one target, every source lies below the root, and a load path of PET below the root is one of the
  build tree.
\<close>

definition layout_ok :: "('w, 'z) dune_env_scheme \<Rightarrow> path \<Rightarrow> layout \<Rightarrow> bool" where
  "layout_ok env root l \<longleftrightarrow>
     bt_wf (by_library l) \<and> bt_wf (by_file l) \<and> bt_wf (build_target_by_file l)
     \<and> (\<forall>f lib. bt_get (by_file l) f = Some lib \<longleftrightarrow> bt_get (by_library l) lib = Some f)
     \<and> (\<forall>f. bt_get (build_target_by_file l) f = None \<longleftrightarrow> bt_get (by_file l) f = None)
     \<and> (\<forall>f. contains_file l f \<longrightarrow> prefix root f)
     \<and> ws_root (layout_ws l) = root \<and> distinct (load_paths (layout_ws l))
     \<and> (\<forall>m \<in> set (load_paths (layout_ws l)). pet_load_path_allowed env root m)"

definition maps_layout :: "path \<Rightarrow> layout_maps \<Rightarrow> layout" where
  "maps_layout root m = \<lparr>by_library = lm_library m, by_file = lm_file m, build_target_by_file = lm_target m,
     layout_ws = \<lparr>ws_root = root, load_paths = lm_load_paths m\<rparr>\<rparr>"

lemma add_load_paths_ok:
  "distinct old \<Longrightarrow> \<forall>m \<in> set old. pet_load_path_allowed env root m \<Longrightarrow>
   distinct (add_load_paths env root new old)
   \<and> (\<forall>m \<in> set (add_load_paths env root new old). pet_load_path_allowed env root m)"
proof (induction new arbitrary: old)
  case (Cons m new)
  have step: "add_load_paths env root (m # new) old =
      add_load_paths env root new (if pet_load_path_allowed env root m then push_new m old else old)"
    by (simp add: add_load_paths_def)
  show ?case
    unfolding step by (rule Cons.IH) (use Cons.prems in \<open>auto simp: push_new_distinct\<close>)
qed (simp add: add_load_paths_def)

lemma insert_source_ok:
  assumes ok: "layout_ok env root (maps_layout root m)" and canonical: "prefix root f"
    and "insert_source lib f target m = Inr m'"
  shows "layout_ok env root (maps_layout root m')"
proof -
  have new: "bt_get (lm_library m) lib = None" "bt_get (lm_file m) f = None" "bt_get (lm_target m) f = None"
    and m': "m' = m\<lparr>lm_library := bt_insert lib f (lm_library m), lm_file := bt_insert f lib (lm_file m),
       lm_target := bt_insert f target (lm_target m)\<rparr>"
    using assms(3) by (auto simp: insert_source_def split: if_splits)
  have wf: "bt_wf (lm_library m)" "bt_wf (lm_file m)" "bt_wf (lm_target m)"
    using ok by (auto simp: layout_ok_def maps_layout_def)
  have inv: "bt_get (lm_file m) g = Some k \<longleftrightarrow> bt_get (lm_library m) k = Some g" for g k
    using ok by (simp add: layout_ok_def maps_layout_def)
  have "bt_get (lm_file m') g = Some k \<longleftrightarrow> bt_get (lm_library m') k = Some g" for g k
    using new inv [of g k] inv [of f k] inv [of g lib] by (auto simp: m' bt_get_insert wf)
  moreover have "bt_get (lm_target m') g = None \<longleftrightarrow> bt_get (lm_file m') g = None" for g
    using ok by (simp add: m' bt_get_insert wf layout_ok_def maps_layout_def)
  moreover have "prefix root g" if "bt_get (lm_file m') g = Some k" for g k
    using that ok canonical
    by (auto simp: m' bt_get_insert wf layout_ok_def maps_layout_def contains_file_def split: if_splits)
  ultimately show ?thesis
    using ok wf by (auto simp: layout_ok_def maps_layout_def contains_file_def m' bt_wf_insert)
qed

lemma add_source_ok:
  "triple (\<lambda>_. layout_ok env root (maps_layout root m)) (add_source env root directory lib_prefix src m)
     (\<lambda>m' _. layout_ok env root (maps_layout root m')) (\<lambda>_ _. True)"
proof (rule tripleI)
  fix s
  assume ok: "layout_ok env root (maps_layout root m)"
  let ?m1 = "m\<lparr>lm_load_paths := add_load_paths env root (src_load_paths src) (lm_load_paths m)\<rparr>"
  have ok1: "layout_ok env root (maps_layout root ?m1)"
    using ok add_load_paths_ok [of "lm_load_paths m" env root "src_load_paths src"]
    by (simp add: layout_ok_def maps_layout_def contains_file_def)
  show "case add_source env root directory lib_prefix src m s of (Inl e, s') \<Rightarrow> True
      | (Inr m', s') \<Rightarrow> layout_ok env root (maps_layout root m')"
    by (auto simp: add_source_def Let_def and_then_def canonical_or_def external_def lift_result_def
        path_starts_with_def split: prod.splits sum.splits if_splits
        dest!: insert_source_ok [OF ok1])
qed

lemma add_mapping_ok:
  "triple (\<lambda>_. layout_ok env root (maps_layout root m)) (add_mapping env root sources mapping m)
     (\<lambda>m' _. layout_ok env root (maps_layout root m')) (\<lambda>_ _. True)"
  unfolding add_mapping_def
  by (cases mapping) (simp, rule triple_for_each, rule add_source_ok)

text \<open>
  C18. A loaded layout is a bijection. Whatever Dune and the file system answer, a layout that
  \<open>layout_load\<close> returns maps logical libraries and source files to each other one to one, knows
  exactly one build target for each source, has every source below the root it returns, and gives
  PET each load path once, none of them a source directory of the project.
\<close>

theorem layout_load_ok:
  assumes "layout_load env requested limit s = (Inr (root, l), s')"
  shows "layout_ok env root l"
proof -
  have empty: "layout_ok env r (maps_layout r \<lparr>lm_library = [], lm_file = [], lm_target = [], lm_load_paths = []\<rparr>)" for r
    by (simp add: layout_ok_def maps_layout_def bt_wf_def bt.get_empty contains_file_def)
  have loop: "triple (\<lambda>_. True)
      (for_each (add_mapping env r sources) mappings \<lparr>lm_library = [], lm_file = [], lm_target = [], lm_load_paths = []\<rparr>)
      (\<lambda>m' _. layout_ok env r (maps_layout r m')) (\<lambda>_ _. True)" for r sources mappings
    by (rule triple_pre [OF triple_for_each [OF add_mapping_ok]]) (rule empty)
  have "triple (\<lambda>_. True) (layout_load env requested limit) (\<lambda>x _. layout_ok env (fst x) (snd x)) (\<lambda>_ _. True)"
    unfolding layout_load_def
    by (rule triple_and_then [where R = "\<lambda>_ _. True"], simp add: triple_def split: prod.splits sum.splits,
        clarify, rule triple_and_then [OF loop])
      (simp add: triple_def ret_def maps_layout_def)
  from triple_okD [OF this TrueI assms] show ?thesis by simp
qed

text \<open>A project with one source, as Dune would describe it.\<close>

definition sample_child :: "string \<Rightarrow> dune_child" where
  "sample_child out = \<lparr>child_stdout = Some \<lparr>pipe_bytes = out, pipe_error = None, reader_panics = False\<rparr>,
     child_stderr = Some \<lparr>pipe_bytes = [], pipe_error = None, reader_panics = False\<rparr>,
     try_waits = [], final_wait = Inr (ExitCode 0)\<rparr>"

definition sample_stoks :: "string list \<Rightarrow> stok list" where
  "sample_stoks args =
     (if args ! 1 = ''workspace''
      then [SOpen, SQuoted ''root'', SQuoted ''/p'', SQuoted ''build_context'', SQuoted ''_build'', SClose]
      else [SOpen, SQuoted ''targets'', SOpen, SQuoted ''files'', SOpen, SQuoted ''/p/_build/A.vo'', SClose, SClose,
        SQuoted ''chdir'', SQuoted ''/p/_build'', SQuoted ''rocq'', SQuoted ''compile'', SQuoted ''-R'', SQuoted ''.'',
        SQuoted ''P'', SQuoted ''A.v'', SClose])"

definition sample_describe :: "string list \<Rightarrow> string" where
  "sample_describe args = sexp_print (sample_stoks args)"

definition sample_dune_env :: "unit dune_env" where
  "sample_dune_env = pet_env.extend (scripted_env [] (\<lambda>_. Inl ''eof''))
     \<lparr>dune_spawn = (\<lambda>args cwd w. (Inr (sample_child (sample_describe args)), w)),
      canonicalize = (\<lambda>p w. (Some p, w)), is_file = (\<lambda>p w. (True, w)), is_dir = (\<lambda>p w. (True, w)),
      temp_dir = (\<lambda>w. (Some [RootDir, Normal ''t''], w)), dune_build_dir = None,
      unicode_alphanumeric = (\<lambda>_. False), utf8_lossy = (\<lambda>t. t)\<rparr>"

definition idle_sys :: "unit sys" where
  "idle_sys = actor.extend idle_actor \<lparr>log = []\<rparr>"

definition sample_project :: path where
  "sample_project = [RootDir, Normal ''p'']"

definition sample_layout :: layout where
  "sample_layout = \<lparr>by_library = [([''P'', ''A''], [RootDir, Normal ''p'', Normal ''A.v''])],
     by_file = [([RootDir, Normal ''p'', Normal ''A.v''], [''P'', ''A''])],
     build_target_by_file = [([RootDir, Normal ''p'', Normal ''A.v''], [Normal ''A.vo''])],
     layout_ws = \<lparr>ws_root = sample_project, load_paths =
       [\<lparr>physical = [RootDir, Normal ''p'', Normal ''_build'', Normal ''default''], logical = [''P''], implicit = True\<rparr>]\<rparr>\<rparr>"

lemma sample_describe_short: "length (sample_describe args) \<le> DUNE_OUTPUT_LIMIT"
  by (simp add: sample_describe_def sample_stoks_def sexp_print_def DUNE_OUTPUT_LIMIT_def)

lemma sample_stoks_ok: "list_all stok_ok (sample_stoks args)"
  by (simp add: sample_stoks_def utf8_all_ascii byte_def)

lemma sample_describe_lexed:
  "sexp_tokens (sample_describe args) = Inr (map stok_text (sample_stoks args))"
  using sexp_tokens_printed [OF sample_stoks_ok, of args]
  by (simp add: sample_describe_def sample_stoks_def)

lemma sample_describe_utf8: "utf8 (sample_describe args)"
  by (rule utf8_all_ascii) (simp add: sample_describe_def sample_stoks_def sexp_print_def byte_def)

lemma sample_run_dune:
  assumes "signal s = None"
  shows "\<exists>out s'. run_dune sample_dune_env args cwd None build_dir s = (Inr out, s') \<and> signal s' = None
    \<and> \<not> no_cancelled out \<and> \<not> no_timed_out out \<and> \<not> no_overflow out \<and> exit_success (no_status out)
    \<and> no_stdout out = sample_describe (dune_args args build_dir)"
  using assms sample_describe_short [of "dune_args args build_dir"]
  by (simp add: run_dune_def and_then_def ret_def, subst dune_loop.simps)
     (simp add: logged_attempt_def and_then_def attempt_def run_dune_once_def external_def
        sample_dune_env_def pet_env.defs sample_child_def wait_for_dune_def gets_def request_scope_active_def
        lift_result_def emit_def modify_def collect_output_def join_reader_def bounded_read_result
        ret_def exit_signal_def exit_success_def)

lemma sample_describe_tokens:
  assumes "signal s = None"
  shows "\<exists>s'. describe_tokens sample_dune_env workspace args build_dir None m s =
      (Inr (map stok_text (sample_stoks (dune_args args build_dir))), s') \<and> signal s' = None"
  using sample_run_dune [OF assms(1), of args workspace build_dir]
  by (auto simp: describe_tokens_def dune_describe_def map_err_def and_then_def lift_result_def throw_def ret_def
      sample_describe_utf8 sample_describe_lexed)

lemma sample_env_simps [simp]:
  "canonicalize sample_dune_env = (\<lambda>p w. (Some p, w))" "is_file sample_dune_env = (\<lambda>p w. (True, w))"
  "is_dir sample_dune_env = (\<lambda>p w. (True, w))" "temp_dir sample_dune_env = (\<lambda>w. (Some [RootDir, Normal ''t''], w))"
  "dune_build_dir sample_dune_env = None"
  by (simp_all add: sample_dune_env_def pet_env.defs)

lemma sample_rules_run:
  fixes s :: "unit sys"
  shows "\<exists>s'. dune_rules sample_dune_env sample_project (sample_project @ [Normal ''_build''])
     (map stok_text (sample_stoks [''describe'', ''rules''])) ([], []) s =
   (Inr ([\<lparr>src_path = sample_project @ [Normal ''A.v''], src_prefix = [''P''], src_target = [Normal ''A.vo''],
      src_load_paths = [\<lparr>physical = sample_project @ [Normal ''_build'', Normal ''default''], logical = [''P''], implicit = True\<rparr>,
        \<lparr>physical = sample_project, logical = [''P''], implicit = True\<rparr>]\<rparr>], [(sample_project, [''P''])]), s')"
proof -
  define rule where "rule = map stok_text (sample_stoks [''describe'', ''rules''])"
  define b where "b = sample_project @ [Normal ''_build'']"
  note rule = rule_def sample_stoks_def
  have target: "rule_target_vo rule b = Some (b @ [Normal ''A.vo''])"
    by (simp add: rule_target_vo_def rule balanced_end_def str_ends_with_def suffix_def b_def
        target_path_def path_of_def component_of_def path_is_absolute_def path_starts_with_def sample_project_def)
  have parts: "rule_parts sample_project b rule = Inr (sample_project @ [Normal ''A.v''], [Normal ''A.vo''], b)"
    unfolding rule_parts_def target
    by (simp add: rule b_def sample_project_def path_of_def component_of_def absolute_in_def
        path_is_absolute_def path_join_def str_ends_with_def suffix_def path_strip_prefix_def)
  have compile: "is_compile_rule rule"
    by (simp add: is_compile_rule_def rule str_ends_with_def suffix_def)
  have valid: "validate_component sample_dune_env ''P'' = Inr ()"
    by (simp add: validate_component_def char_alphanumeric_def utf8_chars_ascii between_def byte_def)
  have split: "rule_loop 0 [] rule = Some (rule, [])" "rule \<noteq> []" "hd rule = ''(''"
    by (simp_all add: rule)
  have entries: "filter (\<lambda>(flag, _, _). flag = ''-R'' \<or> flag = ''-Q'') (windows3 rule) = [(''-R'', ''.'', ''P'')]"
    by (simp add: rule)
  let ?paths = "[\<lparr>physical = b @ [Normal ''default''], logical = [''P''], implicit = True\<rparr>,
        \<lparr>physical = sample_project, logical = [''P''], implicit = True\<rparr>]"
  have paths: "\<exists>s'. dune_load_paths sample_dune_env rule b sample_project b s0 = (Inr ?paths, s')" for s0 :: "unit sys"
    unfolding dune_load_paths_def entries
    by (simp add: Let_def load_path_entry_def valid and_then_def canonical_or_def external_def lift_result_def b_def
        ret_def absolute_in_def path_of_def component_of_def path_is_absolute_def path_join_def push_new_def
        sample_project_def build_root_of_def path_strip_prefix_def)
  then obtain s2 where s2: "dune_load_paths sample_dune_env rule b sample_project b (s\<lparr>world := ()\<rparr>) = (Inr ?paths, s2)"
    by blast
  have map: "source_mapping sample_project (sample_project @ [Normal ''A.v'']) ?paths =
      Some \<lparr>physical = sample_project, logical = [''P''], implicit = True\<rparr>"
    by (simp add: source_mapping_def path_starts_with_def b_def sample_project_def)
  have "\<exists>s'. dune_rules sample_dune_env sample_project b rule ([], []) s =
     (Inr ([\<lparr>src_path = sample_project @ [Normal ''A.v''], src_prefix = [''P''], src_target = [Normal ''A.vo''],
        src_load_paths = ?paths\<rparr>], [(sample_project, [''P''])]), s')"
    by (subst dune_rules.simps)
      (simp add: split dune_rule_def compile parts and_then_def lift_result_def external_def path_starts_with_def
        s2 map canonical_or_def ret_def push_new_def dune_rules.simps [of _ _ _ "[]"])
  then show ?thesis by (simp add: rule_def b_def)
qed

theorem layout_load_ok_witness:
  "\<exists>s'. layout_load sample_dune_env sample_project None idle_sys = (Inr (sample_project, sample_layout), s')
     \<and> layout_ok sample_dune_env sample_project sample_layout"
proof -
  let ?bd = "Some [RootDir, Normal ''t'', Normal ''build'']"
  have "signal (idle_sys\<lparr>world := ()\<rparr>) = None" by (simp add: idle_sys_def actor.defs idle_actor_def)
  from sample_describe_tokens [OF this, of sample_project
      "[''describe'', ''workspace'', ''--format'', ''sexp'', ''--lang'', ''0.1'']" ?bd "''Dune workspace is not UTF-8''"]
  obtain s1 where s1: "describe_tokens sample_dune_env sample_project
      [''describe'', ''workspace'', ''--format'', ''sexp'', ''--lang'', ''0.1''] ?bd None
      ''Dune workspace is not UTF-8'' (idle_sys\<lparr>world := ()\<rparr>) =
      (Inr [''('', ''root'', ''/p'', ''build_context'', ''_build'', '')''], s1)" "signal s1 = None"
    by (auto simp: sample_stoks_def dune_args_def)
  have "signal (s1\<lparr>world := ()\<rparr>) = None" using s1 by simp
  from sample_describe_tokens [OF this, of sample_project "[''describe'', ''rules'']" ?bd "''Dune rules are not UTF-8''"]
  obtain s2 where s2: "describe_tokens sample_dune_env sample_project [''describe'', ''rules''] ?bd None
      ''Dune rules are not UTF-8'' (s1\<lparr>world := ()\<rparr>) =
      (Inr (map stok_text (sample_stoks [''describe'', ''rules''])), s2)"
    by (auto simp: sample_stoks_def dune_args_def)
  from sample_rules_run [of s2] obtain s3 where s3: "dune_rules sample_dune_env sample_project
      (sample_project @ [Normal ''_build'']) (map stok_text (sample_stoks [''describe'', ''rules''])) ([], []) s2 =
   (Inr ([\<lparr>src_path = sample_project @ [Normal ''A.v''], src_prefix = [''P''], src_target = [Normal ''A.vo''],
      src_load_paths = [\<lparr>physical = sample_project @ [Normal ''_build'', Normal ''default''], logical = [''P''], implicit = True\<rparr>,
        \<lparr>physical = sample_project, logical = [''P''], implicit = True\<rparr>]\<rparr>], [(sample_project, [''P''])]), s3)" by blast
  have sources: "dune_sources sample_dune_env sample_project None idle_sys = (Inr (sample_project,
      [\<lparr>src_path = sample_project @ [Normal ''A.v''], src_prefix = [''P''], src_target = [Normal ''A.vo''],
      src_load_paths = [\<lparr>physical = sample_project @ [Normal ''_build'', Normal ''default''], logical = [''P''], implicit = True\<rparr>,
        \<lparr>physical = sample_project, logical = [''P''], implicit = True\<rparr>]\<rparr>], [(sample_project, [''P''])]), s3)"
    using s1 s2 s3
    by (simp add: Let_def dune_sources_def and_then_def ret_def external_def remaining_def lift_result_def path_join_def
        path_is_absolute_def dune_workspace_def canonical_or_def path_of_def component_of_def sample_project_def)
  have valid: "validate_component sample_dune_env ''A'' = Inr ()"
    by (simp add: validate_component_def char_alphanumeric_def utf8_chars_ascii between_def byte_def)
  have "\<exists>s'. layout_load sample_dune_env sample_project None idle_sys = (Inr (sample_project, sample_layout), s')"
    unfolding layout_load_def and_then_def sources
    by (simp add: and_then_def add_mapping_def add_source_def Let_def canonical_or_def
        external_def lift_result_def ret_def path_starts_with_def path_strip_prefix_def valid file_stem_def
        insert_source_def bt_get_def add_load_paths_def pet_load_path_allowed_def build_root_of_def push_new_def
        sample_layout_def sample_project_def path_join_def path_is_absolute_def)
  then obtain s' where "layout_load sample_dune_env sample_project None idle_sys = (Inr (sample_project, sample_layout), s')" ..
  from layout_load_ok [OF this] this show ?thesis by blast
qed

end
