(* ===== verification/Pet_Frame.thy ===== *)
theory Pet_Frame
  imports Pet_Actor
begin

text \<open>
  The layers above the actor extend its record. Every actor operation leaves the extension alone:
  \<open>framed m\<close> says so for \<open>m\<close>, and the rules below build it along the combinators, so that the state
  of the writeback and of the engine passes through PET calls unchanged.
\<close>

named_theorems frame

definition framed :: "(('w, 's) actor_scheme, 'e, 'a) eff \<Rightarrow> bool" where
  "framed m \<longleftrightarrow> (\<forall>x. keeps (\<lambda>a. actor.more a = x) m)"

lemma framedD: "framed m \<Longrightarrow> m a = (r, a') \<Longrightarrow> actor.more a' = actor.more a"
  unfolding framed_def using keepsD [of "\<lambda>b. actor.more b = actor.more a" m a] by blast

lemma framedI:
  assumes "\<And>a r a'. m a = (r, a') \<Longrightarrow> actor.more a' = actor.more a" shows "framed m"
  unfolding framed_def by (intro allI keepsI) (metis assms prod.collapse)

lemma framed_basic [frame]:
  "framed (ret x)" "framed (throw e)" "framed (lift_result r)" "framed (gets f)" "framed (when_err b e)"
  "framed (external g)" "framed (log_event ev)" "framed take_process"
  by (simp_all add: framed_def keeps_def external_def ret_def throw_def lift_result_def gets_def when_err_def log_event_def take_process_def modify_def
      split: prod.splits)

lemma framed_and_then [frame]: "framed m \<Longrightarrow> (\<And>x. framed (f x)) \<Longrightarrow> framed (and_then m f)"
  unfolding framed_def by (blast intro: keeps_and_then)

lemma framed_attempt [frame]: "framed m \<Longrightarrow> framed (attempt m)"
  unfolding framed_def by (blast intro: keeps_attempt)

lemma framed_map_err [frame]: "framed m \<Longrightarrow> framed (map_err g m)"
  unfolding framed_def by (blast intro: keeps_map_err)

lemma framed_for_each [frame]: "(\<And>x b. framed (f x b)) \<Longrightarrow> framed (for_each f xs b)"
  unfolding framed_def by (blast intro: keeps_for_each)

lemma framed_poison [frame]: "framed (poison_if_invalidated e)"
  by (simp add: poison_if_invalidated_def frame)

lemma framed_fail_poisoned [frame]: "framed (fail_poisoned e)"
  unfolding fail_poisoned_def by (intro frame)

lemma framed_checked [frame]: "framed (checked r)"
  by (cases r) (simp_all add: checked_def frame)

lemma framed_observe [frame]: "framed (observe_signal env)"
  by (rule framedI)
     (auto simp: observe_signal_def and_then_def external_def modify_def gets_def split: prod.splits)

lemma framed_opt_deadline [frame]: "framed (opt_deadline env dur)"
  unfolding opt_deadline_def by (cases dur) (auto intro!: frame)

lemma exchange_more:
  "exchange env i meth request d p a = (r, a') \<Longrightarrow> actor.more a' = actor.more a"
  unfolding exchange_def Let_def transport_error_def
  by (auto split: list.splits option.splits prod.splits sum.splits pet_error.splits)

lemma rpc_more:
  "rpc_with_timeout env meth params dur p a = (r, a') \<Longrightarrow> actor.more a' = actor.more a"
  unfolding rpc_with_timeout_def Let_def
  by (auto split: option.splits if_splits prod.splits sum.splits
      dest!: exchange_more framedD [OF framed_opt_deadline] framedD [OF framed_observe])

lemma framed_actor_rpc [frame]: "framed (actor_rpc env meth params dur p)"
proof (rule framedI)
  fix a r a'
  assume run: "actor_rpc env meth params dur p a = (r, a')"
  obtain res p' a1 where rpc: "rpc_with_timeout env meth params dur p a = ((res, p'), a1)"
    by (metis surj_pair)
  have more: "actor.more (a1\<lparr>process := Some p'\<rparr>) = actor.more a" using rpc_more [OF rpc] by simp
  show "actor.more a' = actor.more a"
  proof (cases res)
    case (Inl e)
    have "framed (and_then (poison_if_invalidated e) (\<lambda>_. throw e))" by (intro frame)
    with run rpc Inl more show ?thesis by (auto simp: actor_rpc_def dest!: framedD)
  next
    case (Inr v)
    with run rpc more show ?thesis by (simp add: actor_rpc_def)
  qed
qed

lemma framed_call_live [frame]: "framed (call_live_with_timeout env meth params dur)"
  by (rule framedI) (auto simp: call_live_with_timeout_def dest: framedD [OF framed_actor_rpc] split: option.splits)

lemma framed_call_live' [frame]: "framed (call_live env meth params)"
  by (simp add: call_live_def frame)

lemma framed_handshake [frame]: "framed (handshake env p)"
  by (rule framedI) (auto simp: handshake_def rpc_def dest!: rpc_more split: prod.splits sum.splits)

lemma framed_spawn [frame]: "framed (spawn env root)"
  unfolding spawn_def by (auto intro!: frame split: sum.splits)

lemma framed_install [frame]: "framed (modify (\<lambda>a. a\<lparr>process := p, actor_ws := w\<rparr>))"
  "framed (modify (\<lambda>a. a\<lparr>actor_ws := w\<rparr>))"
  by (rule framedI; simp add: modify_def; fastforce)+

lemma framed_start [frame]: "framed (start_process env ws)"
  unfolding start_process_def by (intro frame)

lemma framed_configure [frame]: "framed (configure_workspace env ws p)"
  unfolding configure_workspace_def by (auto intro!: frame)

lemma framed_ensure [frame]: "framed (ensure_process env ws)"
proof -
  have "framed (\<lambda>a. if process a = None then start_process env ws a else (Inr (), a))"
    by (rule framedI) (auto split: if_splits dest: framedD [OF framed_start])
  moreover have "framed (\<lambda>a. if actor_ws a \<noteq> Some ws
      then (case process a of None \<Rightarrow> (Inl (ProcessLost ''PET exists''), a)
        | Some p \<Rightarrow> configure_workspace env ws p a) else (Inr (), a))"
    by (rule framedI) (auto split: if_splits option.splits dest: framedD [OF framed_configure])
  ultimately show ?thesis unfolding ensure_process_def by (intro frame)
qed

lemma framed_replace [frame]: "framed (replace_locked env ws)"
  unfolding replace_locked_def by (intro frame)

lemma framed_call_in_workspace [frame]: "framed (call_in_workspace env ws meth params)"
proof -
  have "framed (\<lambda>a. case process a of None \<Rightarrow> (Inl (ProcessLost ''PET exists''), a)
      | Some p \<Rightarrow> actor_rpc env meth params None p a)"
    by (rule framedI) (auto split: option.splits dest: framedD [OF framed_actor_rpc])
  then show ?thesis unfolding call_in_workspace_def by (intro frame)
qed

lemma framed_refresh [frame]: "framed (refresh_workspace env ws)"
proof -
  have "framed (\<lambda>a. case process a of
        None \<Rightarrow> (Inl (ProcessLost ''ensure_process installs PET''), a)
      | Some p \<Rightarrow>
          (case rpc env ''petanque/refresh_workspace'' (json_obj []) p a of
             ((res, p'), a') \<Rightarrow>
               (if res = Inr JNull then (Inr (), a'\<lparr>process := Some p'\<rparr>)
                else replace_locked env ws (a'\<lparr>process := Some p'\<rparr>))))"
    by (rule framedI)
       (auto simp: rpc_def split: option.splits prod.splits if_splits
         dest!: rpc_more framedD [OF framed_replace])
  then show ?thesis unfolding refresh_workspace_def by (intro frame)
qed

lemma framed_release [frame]: "framed (release_states env states)"
  unfolding release_states_def by (auto intro!: frame split: prod.splits)

lemma framed_goals [frame]: "framed (goals_of env st)"
  unfolding goals_of_def by (intro frame)

lemma framed_goals_or_release [frame]: "framed (goals_or_release env st)"
  unfolding goals_or_release_def by (auto intro!: frame split: sum.splits)

lemma framed_materialize [frame]: "framed (materialize_run env v)"
  unfolding materialize_run_def by (intro frame)

lemma framed_state_at [frame]: "framed (state_at env ws source offset)"
  unfolding state_at_def by (intro frame)

lemma framed_run [frame]: "framed (run_with_timeout env st fragment dur)"
  unfolding run_with_timeout_def
  by (auto intro!: frame split: sum.splits pet_error.splits option.splits)

lemma framed_pet_run [frame]: "framed (pet_run env st fragment)"
  unfolding pet_run_def by (intro frame)

lemma framed_traced_failure [frame]: "framed (traced_failure env fragment f)"
  unfolding traced_failure_def by (auto intro!: frame)

lemma framed_run_traced [frame]: "framed (run_traced_with_timeout env st fragment b dur)"
  unfolding run_traced_with_timeout_def
  by (auto intro!: frame split: option.splits)

lemma framed_assumptions [frame]: "framed (assumptions env st q)"
  unfolding assumptions_def by (intro frame)

lemma framed_query [frame]: "framed (run_query env st q)"
  unfolding run_query_def by (auto intro!: frame split: pet_query.splits sum.splits)

lemma framed_declarations [frame]: "framed (document_declarations env ws source)"
  unfolding document_declarations_def by (intro frame)

lemma framed_insertion_point [frame]: "framed (insertion_point env ws source modules)"
  unfolding insertion_point_def by (intro frame)

lemma framed_state_count [frame]: "framed (diagnostic_state_count env)"
  unfolding diagnostic_state_count_def by (intro frame)

end
