(* ===== verification/Writeback.thy ===== *)
theory Writeback
  imports Dune_Layout Pet_Frame
begin

text \<open>
  \<open>rocq-engine/src/writeback.rs\<close>: publication of a finished proof as a compare-and-swap of the
  source file, followed by the native build, the refresh of PET and the audit, and the rollback that
  restores the source, rebuilds it and refreshes PET when one of them fails. The file system, SHA-256
  and the steps of the atomic replacement are calls on the world; the log records every read and
  every replacement of the source and the outcome of every build and refresh.
\<close>

section \<open>Project and environment\<close>

text \<open>\<open>DuneProject\<close>: the root, the current layout and the probe of the layout inputs. The layout
  is shared behind a lock and changes at request admission only, so an operation reads one value.\<close>

record dune_project =
  pj_root :: path
  pj_layout :: layout
  pj_probe :: digest

record 'w fs_env = "'w dune_env" +
  sha256 :: "string \<Rightarrow> digest"
  file_mode :: "path \<Rightarrow> 'w \<Rightarrow> nat option \<times> 'w"
  temp_create :: "path \<Rightarrow> 'w \<Rightarrow> nat option \<times> 'w"
  temp_write :: "nat \<Rightarrow> string \<Rightarrow> 'w \<Rightarrow> bool \<times> 'w"
  temp_sync :: "nat \<Rightarrow> 'w \<Rightarrow> bool \<times> 'w"
  temp_mode :: "nat \<Rightarrow> nat \<Rightarrow> 'w \<Rightarrow> bool \<times> 'w"
  temp_persist :: "nat \<Rightarrow> path \<Rightarrow> 'w \<Rightarrow> bool \<times> 'w"
  dir_sync :: "path \<Rightarrow> 'w \<Rightarrow> bool \<times> 'w"

definition project_id :: "dune_project \<Rightarrow> path" where
  "project_id pj = pj_root pj"

definition project_workspace :: "dune_project \<Rightarrow> path \<Rightarrow> err + pet_workspace" where
  "project_workspace pj source = layout_pet_workspace (pj_layout pj) source"

definition project_build_target :: "dune_project \<Rightarrow> path \<Rightarrow> err + path" where
  "project_build_target pj source = build_target (pj_layout pj) source"

text \<open>\<open>fs::read\<close> of the source, recorded.\<close>

definition read_source ::
  "('w, 'z) fs_env_scheme \<Rightarrow> path \<Rightarrow> (('w, 's) sys_scheme, 'e, string option) eff" where
  "read_source env p =
     and_then (external (read_file env p)) (\<lambda>r.
     and_then (emit (SourceRead p r)) (\<lambda>_. ret r))"

definition digest_of :: "('w, 'z) fs_env_scheme \<Rightarrow> string \<Rightarrow> digest" where
  "digest_of env bytes = sha256 env bytes"

definition progress :: "string \<Rightarrow> string \<Rightarrow> (('w, 's) sys_scheme, 'e, unit) eff" where
  "progress phase summary = emit (Phase phase summary)"

section \<open>Preparing\<close>

record prepared =
  pp_path :: path
  pp_workspace :: pet_workspace
  pp_original :: string
  pp_replacement :: string
  pp_replacement_digest :: digest

text \<open>The text that opens the replacement: a new header, or the header that is in the source.\<close>

definition replacement_head :: "string \<Rightarrow> declaration_target \<Rightarrow> err + string" where
  "replacement_head original target =
     (let first = pr_start (anchor_declaration (anchor target));
          last = pr_end (anchor_declaration (anchor target)) in
      case new_header target of
        Some header \<Rightarrow>
          Inr ((if 0 < first \<and> original ! (first - 1) \<noteq> CHR 0x0A then [CHR 0x0A] else [])
               @ header @ ''.'' @ [CHR 0x0A])
      | None \<Rightarrow>
          (let header_end = pr_end (anchor_header (anchor target)) in
           if header_end < first \<or> last < header_end
           then Inl (error_new DeclarationChanged ''declaration header range is inconsistent with the current source'')
           else
             (let header = take (header_end - first) (drop first original) in
              if \<not> utf8 header then Inl (invalid_conf ''Rocq source is not UTF-8'')
              else Inr (header @ (if str_ends_with (trim_end header) ''.'' then [] else ''.'') @ [CHR 0x0A]))))"

definition replacement :: "string \<Rightarrow> declaration_target \<Rightarrow> string list \<Rightarrow> err + string" where
  "replacement original target fragments =
     (let first = pr_start (anchor_declaration (anchor target));
          last = pr_end (anchor_declaration (anchor target)) in
      if last < first \<or> length original < last
      then Inl (error_new DeclarationChanged ''declaration range is inconsistent with the current source'')
      else
        result_bind (replacement_head original target) (\<lambda>head.
        let body = head
              @ (if kind (info target) \<noteq> KDefinition then ''Proof.'' @ [CHR 0x0A] else [])
              @ concat (map (\<lambda>fragment. trim fragment @ [CHR 0x0A]) fragments)
              @ terminator (kind (info target)) @ [CHR 0x0A]
        in Inr (take first original @ body @ drop last original)))"

definition prepare ::
  "('w, 'z) fs_env_scheme \<Rightarrow> dune_project \<Rightarrow> declaration_target \<Rightarrow> string list
   \<Rightarrow> (('w, 's) sys_scheme, err, prepared) eff" where
  "prepare env pj target fragments =
     and_then (when_err (\<not> replaceable (anchor target))
       (error_new InvalidDeclaration ''source range is shared by multiple declarations'')) (\<lambda>_.
     let p = anchor_source (anchor target) in
     and_then (lift_result (project_workspace pj p)) (\<lambda>ws.
     and_then (read_source env p) (\<lambda>bytes.
     and_then (lift_result (ok_or (error_new DeclarationChanged ''target source is unavailable'') bytes)) (\<lambda>original.
     and_then (when_err (digest_of env original \<noteq> anchor_digest (anchor target))
       (error_new DeclarationChanged ''target source changed while proof was open'')) (\<lambda>_.
     and_then (lift_result (replacement original target fragments)) (\<lambda>text.
     ret \<lparr>pp_path = p, pp_workspace = ws, pp_original = original, pp_replacement = text,
       pp_replacement_digest = digest_of env text\<rparr>))))))"

section \<open>Replacing the source\<close>

definition io :: "('w \<Rightarrow> bool \<times> 'w) \<Rightarrow> (('w, 's) sys_scheme, unit, unit) eff" where
  "io f = and_then (external f) (\<lambda>ok. when_err (\<not> ok) ())"

definition io_value :: "('w \<Rightarrow> 'a option \<times> 'w) \<Rightarrow> (('w, 's) sys_scheme, unit, 'a) eff" where
  "io_value f = and_then (external f) (\<lambda>r. lift_result (ok_or () r))"

definition atomic_write ::
  "('w, 'z) fs_env_scheme \<Rightarrow> path \<Rightarrow> string \<Rightarrow> (('w, 's) sys_scheme, err, unit) eff" where
  "atomic_write env p bytes =
     and_then (lift_result (ok_or (invalid_conf ''source has no parent'') (path_parent p))) (\<lambda>parent.
     map_err (\<lambda>_. invalid_conf ''atomic source replacement failed'')
       (and_then (io_value (file_mode env p)) (\<lambda>mode.
        and_then (io_value (temp_create env parent)) (\<lambda>temporary.
        and_then (io (temp_write env temporary bytes)) (\<lambda>_.
        and_then (io (temp_sync env temporary)) (\<lambda>_.
        and_then (io (temp_mode env temporary mode)) (\<lambda>_.
        and_then (io (temp_sync env temporary)) (\<lambda>_.
        and_then (io (temp_persist env temporary p)) (\<lambda>_.
        and_then (emit (SourceReplaced p bytes)) (\<lambda>_.
        io (dir_sync env parent)))))))))))"

definition require_digest ::
  "('w, 'z) fs_env_scheme \<Rightarrow> path \<Rightarrow> digest \<Rightarrow> (('w, 's) sys_scheme, err, unit) eff" where
  "require_digest env p expected =
     and_then (read_source env p) (\<lambda>bytes.
     and_then (lift_result (ok_or (error_new DeclarationChanged ''published source became unavailable'') bytes)) (\<lambda>current.
     when_err (digest_of env current \<noteq> expected)
       (error_new DeclarationChanged ''source changed during publication'')))"

section \<open>Building and refreshing\<close>

text \<open>The native build: its outcome is recorded, whatever it is.\<close>

definition native_build_result ::
  "('w, 'z) fs_env_scheme \<Rightarrow> dune_project \<Rightarrow> path \<Rightarrow> nat option \<Rightarrow> (('w, 's) sys_scheme, err, unit) eff" where
  "native_build_result env pj source limit =
     and_then (lift_result (project_build_target pj source)) (\<lambda>target.
     and_then (map_err (\<lambda>_. invalid_conf ''failed to execute Dune'')
       (run_dune env [''build'', path_str target] (project_id pj) limit None)) (\<lambda>output.
     if no_cancelled output then throw (error_new RequestCancelled ''native build was cancelled'')
     else if no_timed_out output then throw (error_new BuildTimeout ''native build timed out'')
     else if no_overflow output then throw (invalid_conf ''Dune output exceeded the configured bound'')
     else if \<not> exit_success (no_status output)
     then throw (error_new InvalidDeclaration
       (''proof source was rejected: '' @ trim (utf8_lossy env (no_stderr output))))
     else ret ()))"

definition native_build ::
  "('w, 'z) fs_env_scheme \<Rightarrow> dune_project \<Rightarrow> path \<Rightarrow> nat option \<Rightarrow> (('w, 's) sys_scheme, err, unit) eff" where
  "native_build env pj source limit =
     and_then (attempt (native_build_result env pj source limit)) (\<lambda>r.
     and_then (emit (Built source r)) (\<lambda>_. lift_result r))"

definition refresh_actor ::
  "('w, 'z) fs_env_scheme \<Rightarrow> pet_workspace \<Rightarrow> (('w, 's) sys_scheme, pet_error, unit) eff" where
  "refresh_actor env ws =
     and_then (attempt (refresh_workspace env ws)) (\<lambda>r.
     and_then (emit (Refreshed r)) (\<lambda>_. lift_result r))"

definition refresh_error :: "pet_error \<Rightarrow> err" where
  "refresh_error e =
     (let k = (case e of
          Cancelled \<Rightarrow> RequestCancelled
        | TimedOut _ \<Rightarrow> ProofStepTimeout
        | _ \<Rightarrow> if lost e then PetLost else if is_internal_failure e then PetFailure else InvalidConfiguration);
          projected = error_new k (public_message e)
      in if pet_is_semantic e then semantic projected else projected)"

text \<open>The audit that the caller passes; its outcome is recorded.\<close>

definition audit :: "(('w, 's) sys_scheme, err, 'a) eff \<Rightarrow> (('w, 's) sys_scheme, err, 'a) eff" where
  "audit validate =
     and_then (attempt validate) (\<lambda>r.
     and_then (emit (Audited (case r of Inl _ \<Rightarrow> False | Inr _ \<Rightarrow> True))) (\<lambda>_. lift_result r))"

definition build_and_refresh ::
  "('w, 'z) fs_env_scheme \<Rightarrow> dune_project \<Rightarrow> path \<Rightarrow> nat option \<Rightarrow> (('w, 's) sys_scheme, err, 'a) eff
   \<Rightarrow> (('w, 's) sys_scheme, err, 'a) eff" where
  "build_and_refresh env pj source limit validate =
     and_then (lift_result (project_workspace pj source)) (\<lambda>ws.
     and_then (progress ''dune_build'' ''building the selected Dune target'') (\<lambda>_.
     and_then (attempt (native_build env pj source limit)) (\<lambda>build.
     and_then (progress ''pet_refresh'' ''refreshing PET after native build'') (\<lambda>_.
     and_then (attempt (map_err refresh_error (refresh_actor env ws))) (\<lambda>refresh.
     (case refresh of
        Inl error \<Rightarrow> throw error
      | Inr _ \<Rightarrow>
          (case build of
             Inl error \<Rightarrow> throw error
           | Inr _ \<Rightarrow>
               and_then (progress ''trust_audit'' ''auditing the completed declaration'') (\<lambda>_. audit validate))))))))"

section \<open>The transaction\<close>

text \<open>The source that the rollback selected is built, and PET refreshed, whatever the build says.\<close>

definition rebuild_selected ::
  "('w, 'z) fs_env_scheme \<Rightarrow> dune_project \<Rightarrow> path \<Rightarrow> pet_workspace \<Rightarrow> nat option \<Rightarrow> bool
   \<Rightarrow> (('w, 's) sys_scheme, err, bool) eff" where
  "rebuild_selected env pj p ws limit restored =
     and_then (progress ''rollback_build'' ''building the source selected by rollback'') (\<lambda>_.
     and_then (attempt (map_err (\<lambda>e. invalid_conf (''publication rollback build failed: '' @ err_message e))
       (native_build env pj p limit))) (\<lambda>build.
     and_then (progress ''rollback_refresh'' ''refreshing PET after rollback build'') (\<lambda>_.
     and_then (attempt (map_err (\<lambda>e. invalid_conf (''publication rollback could not refresh the project context: '' @ public_message e))
       (refresh_actor env ws))) (\<lambda>refresh.
     (case (build, refresh) of
        (Inr _, Inr _) \<Rightarrow> ret restored
      | (Inl b, Inr _) \<Rightarrow> throw b
      | (Inr _, Inl r) \<Rightarrow> throw r
      | (Inl b, Inl r) \<Rightarrow> throw (invalid_conf (err_message b @ ''; additionally, '' @ err_message r)))))))"

definition restore_epoch ::
  "('w, 'z) fs_env_scheme \<Rightarrow> dune_project \<Rightarrow> path \<Rightarrow> pet_workspace \<Rightarrow> string \<Rightarrow> digest \<Rightarrow> nat option
   \<Rightarrow> (('w, 's) sys_scheme, err, bool) eff" where
  "restore_epoch env pj p ws original replacement_digest limit =
     and_then (read_source env p) (\<lambda>current.
     and_then
       (case current of
          Some bytes \<Rightarrow>
            if digest_of env bytes = replacement_digest
            then and_then (atomic_write env p original) (\<lambda>_. ret True)
            else ret False
        | None \<Rightarrow> ret False) (rebuild_selected env pj p ws limit))"

text \<open>The part after the replacement: build, refresh, audit, with the source checked after each.\<close>

definition admit ::
  "('w, 'z) fs_env_scheme \<Rightarrow> dune_project \<Rightarrow> path \<Rightarrow> pet_workspace \<Rightarrow> digest \<Rightarrow> nat option
   \<Rightarrow> (('w, 's) sys_scheme, err, 'a) eff \<Rightarrow> (('w, 's) sys_scheme, err, 'a) eff" where
  "admit env pj p ws replacement_digest limit validate =
     and_then (progress ''dune_build'' ''building the published Dune target'') (\<lambda>_.
     and_then (native_build env pj p limit) (\<lambda>_.
     and_then (require_digest env p replacement_digest) (\<lambda>_.
     and_then (progress ''pet_refresh'' ''refreshing PET after native build'') (\<lambda>_.
     and_then (map_err refresh_error (refresh_actor env ws)) (\<lambda>_.
     and_then (require_digest env p replacement_digest) (\<lambda>_.
     and_then (progress ''trust_audit'' ''auditing the completed declaration'') (\<lambda>_.
     and_then (audit validate) (\<lambda>value.
     and_then (require_digest env p replacement_digest) (\<lambda>_.
     ret value)))))))))"

definition publish_with_progress ::
  "('w, 'z) fs_env_scheme \<Rightarrow> dune_project \<Rightarrow> prepared \<Rightarrow> nat option
   \<Rightarrow> (('w, 's) sys_scheme, err, 'a) eff \<Rightarrow> (('w, 's) sys_scheme, err, 'a) eff" where
  "publish_with_progress env pj pp limit validate =
     (let p = pp_path pp;
          restore = restore_epoch env pj p (pp_workspace pp) (pp_original pp) (pp_replacement_digest pp) limit
      in
      and_then (progress ''writeback'' ''checking source ownership before atomic write'') (\<lambda>_.
      and_then (read_source env p) (\<lambda>current.
      if (case current of None \<Rightarrow> True | Some bytes \<Rightarrow> digest_of env bytes \<noteq> digest_of env (pp_original pp))
      then and_then restore (\<lambda>_.
        throw (error_new DeclarationChanged ''target source changed before publication commit''))
      else
        and_then (attempt (atomic_write env p (pp_replacement pp))) (\<lambda>written.
        (case written of
           Inl error \<Rightarrow> and_then restore (\<lambda>_. throw error)
         | Inr _ \<Rightarrow>
             and_then (attempt (admit env pj p (pp_workspace pp) (pp_replacement_digest pp) limit validate)) (\<lambda>result.
             (case result of
                Inr value \<Rightarrow> ret value
              | Inl error \<Rightarrow>
                  and_then (progress ''rollback_build'' ''restoring and rebuilding the previous source'') (\<lambda>_.
                  and_then restore (\<lambda>restored.
                  if restored then throw error
                  else throw (error_new DeclarationChanged
                    (''source changed during failed publication; original error: '' @ err_message error)))))))))))"

section \<open>What the transaction does to the source\<close>

text \<open>The milestones of a log: source reads and replacements, builds, refreshes and audits.\<close>

definition milestone :: "sys_event \<Rightarrow> bool" where
  "milestone ev = (case ev of DuneAttempt _ _ _ \<Rightarrow> False | DuneKilled \<Rightarrow> False | Phase _ _ \<Rightarrow> False | _ \<Rightarrow> True)"

definition milestones :: "('w, 's) sys_scheme \<Rightarrow> sys_event list" where
  "milestones s = filter milestone (log s)"

lemma and_thenE:
  assumes "and_then m f s = (r, s')"
  obtains e where "m s = (Inl e, s')" "r = Inl e"
    | x s1 where "m s = (Inr x, s1)" "f x s1 = (r, s')"
  using assms by (auto simp: and_then_def split: prod.splits sum.splits)

lemma attemptE:
  assumes "attempt m s = (r, s')"
  obtains x where "m s = (x, s')" "r = Inr x"
  using assms by (auto simp: attempt_def split: prod.splits)

lemma map_errE:
  assumes "map_err g m s = (r, s')"
  obtains e where "m s = (Inl e, s')" "r = Inl (g e)" | x where "m s = (Inr x, s')" "r = Inr x"
  using assms by (auto simp: map_err_def split: prod.splits sum.splits)

text \<open>\<open>quiet m\<close>: no milestone is added by \<open>m\<close>.\<close>

definition quiet_op :: "(('w, 's) sys_scheme, 'e, 'a) eff \<Rightarrow> bool" where
  "quiet_op m \<longleftrightarrow> (\<forall>x. keeps (log_only (\<lambda>l. filter milestone l = x)) m)"

lemma quiet_opD: "quiet_op m \<Longrightarrow> m s = (r, s') \<Longrightarrow> milestones s' = milestones s"
  unfolding quiet_op_def milestones_def
  using keepsD [of "log_only (\<lambda>l. filter milestone l = filter milestone (log s))" m s]
  by (auto simp: log_only_def)

lemma more_log: "actor.more a = actor.more b \<Longrightarrow> log a = log b"
  by (cases a; cases b) simp

lemma quiet_framed:
  fixes m :: "(('w, 's) sys_scheme, 'e, 'a) eff"
  assumes "framed m" shows "quiet_op m"
  unfolding quiet_op_def
proof (intro allI keepsI)
  fix x and s :: "('w, 's) sys_scheme"
  assume "log_only (\<lambda>l. filter milestone l = x) s"
  moreover have "log (snd (m s)) = log s"
    by (metis framedD [OF assms] more_log prod.collapse)
  ultimately show "log_only (\<lambda>l. filter milestone l = x) (snd (m s))" by (simp add: log_only_def)
qed

lemma quiet_and_then: "quiet_op m \<Longrightarrow> (\<And>x. quiet_op (f x)) \<Longrightarrow> quiet_op (and_then m f)"
  unfolding quiet_op_def by (blast intro: keeps_and_then)

lemma quiet_attempt: "quiet_op m \<Longrightarrow> quiet_op (attempt m)"
  unfolding quiet_op_def by (blast intro: keeps_attempt)

lemma quiet_map_err: "quiet_op m \<Longrightarrow> quiet_op (map_err g m)"
  unfolding quiet_op_def by (blast intro: keeps_map_err)

lemma quiet_emit: "\<not> milestone ev \<Longrightarrow> quiet_op (emit ev)"
  unfolding quiet_op_def by (auto intro: keeps_emit_log)

lemmas quiet_rules = quiet_and_then quiet_attempt quiet_map_err quiet_framed [OF framed_basic(1)]
  quiet_framed [OF framed_basic(2)] quiet_framed [OF framed_basic(3)] quiet_framed [OF framed_basic(4)]
  quiet_framed [OF framed_basic(5)] quiet_framed [OF framed_basic(6)] quiet_framed [OF framed_observe]

lemma milestone_simps [simp]:
  "\<not> milestone (DuneAttempt args cwd r)" "\<not> milestone DuneKilled" "\<not> milestone (Phase a b)"
  "milestone (SourceRead p c)" "milestone (SourceReplaced p b')" "milestone (Built p res)"
  "milestone (Refreshed rf)" "milestone (Audited ok)"
  by (simp_all add: milestone_def)

lemma quiet_deadline_passed: "quiet_op (deadline_passed env d)"
  by (cases d) (auto simp: deadline_passed_def intro!: quiet_rules)

lemma quiet_wait_polls: "quiet_op (wait_polls env child d ps)"
proof (induction ps)
  case Nil
  then show ?case by (auto intro!: quiet_rules)
next
  case (Cons p ps)
  then show ?case
    by (auto simp: killed_wait_def intro!: quiet_rules quiet_emit quiet_deadline_passed
        split: sum.splits option.splits)
qed

lemma quiet_run_dune_once: "quiet_op (run_dune_once env args cwd d)"
  unfolding run_dune_once_def wait_for_dune_def terminate_child_group_def
  by (auto intro!: quiet_rules quiet_emit quiet_wait_polls split: sum.splits option.splits)

lemma quiet_dune_loop: "quiet_op (dune_loop env args cwd d retried)"
proof (induction "if retried then 0 else 1 :: nat" arbitrary: retried rule: less_induct)
  case less
  then show ?case
    by (subst dune_loop.simps)
       (auto simp: logged_attempt_def intro!: quiet_rules quiet_emit quiet_run_dune_once quiet_deadline_passed)
qed

lemma quiet_run_dune: "quiet_op (run_dune env args cwd limit build_dir)"
  unfolding run_dune_def
  by (cases limit) (auto intro!: quiet_rules quiet_dune_loop)

lemma quiet_native_build_result: "quiet_op (native_build_result env pj source limit)"
  unfolding native_build_result_def by (auto intro!: quiet_rules quiet_run_dune)

text \<open>What each step adds to the milestones.\<close>

lemma emit_result: "emit ev s = (r, s') \<Longrightarrow>
    r = Inr () \<and> milestones s' = milestones s @ (if milestone ev then [ev] else [])"
  by (auto simp: emit_def modify_def milestones_def)

lemma progress_result: "progress phase summary s = (r, s') \<Longrightarrow> r = Inr () \<and> milestones s' = milestones s"
  unfolding progress_def by (auto dest: emit_result)

lemma external_result: "external f s = (r, s') \<Longrightarrow> (\<exists>x. r = Inr x) \<and> milestones s' = milestones s"
  by (auto simp: external_def milestones_def split: prod.splits)

lemma read_source_result:
  assumes "read_source env p s = (r, s')"
  shows "\<exists>c. r = Inr c \<and> milestones s' = milestones s @ [SourceRead p c]"
  using assms unfolding read_source_def
  by (auto simp: ret_def elim!: and_thenE dest!: external_result emit_result)

lemma recorded_result:
  assumes "and_then (attempt m) (\<lambda>r. and_then (emit (ev r)) (\<lambda>_. lift_result r)) s = (res, s')"
    and "quiet_op m" and "\<And>r. milestone (ev r)"
  shows "milestones s' = milestones s @ [ev res]"
  using assms(1) quiet_opD [OF assms(2)] assms(3)
  by (auto simp: lift_result_def elim!: and_thenE attemptE dest!: emit_result)

lemma native_build_milestones:
  "native_build env pj p limit s = (r, s') \<Longrightarrow> milestones s' = milestones s @ [Built p r]"
  unfolding native_build_def by (rule recorded_result [OF _ quiet_native_build_result]) auto

lemma refresh_milestones:
  "refresh_actor env ws s = (r, s') \<Longrightarrow> milestones s' = milestones s @ [Refreshed r]"
  unfolding refresh_actor_def by (rule recorded_result [OF _ quiet_framed [OF framed_refresh]]) auto

lemma audit_milestones:
  assumes "quiet_op validate" and "audit validate s = (r, s')"
  shows "milestones s' = milestones s @ [Audited (case r of Inl _ \<Rightarrow> False | Inr _ \<Rightarrow> True)]"
  using assms(2) unfolding audit_def
  by (rule recorded_result [where ev = "\<lambda>r. Audited (case r of Inl _ \<Rightarrow> False | Inr _ \<Rightarrow> True)", OF _ assms(1)]) auto

lemma quiet_io: "quiet_op (io f)" "quiet_op (io_value g)"
  unfolding io_def io_value_def by (auto intro!: quiet_rules)

text \<open>A successful replacement happened; a failed one may have happened (the rename is done before
  the directory is synced).\<close>

lemma atomic_write_milestones:
  assumes "atomic_write env p bytes s = (r, s')"
  shows "(case r of
      Inr _ \<Rightarrow> milestones s' = milestones s @ [SourceReplaced p bytes]
    | Inl e \<Rightarrow> \<exists>w \<in> {[], [SourceReplaced p bytes]}. milestones s' = milestones s @ w)"
  using assms unfolding atomic_write_def
  by (auto simp: lift_result_def elim!: and_thenE map_errE
      dest!: quiet_opD [OF quiet_io(1)] quiet_opD [OF quiet_io(2)] emit_result split: sum.splits)

section \<open>The specification of a publication\<close>

text \<open>
  The abstract transaction, over the milestones: \<open>owned\<close> bytes are bytes with the expected digest.
  A rollback reads the source, writes the original back only over owned bytes, and then builds and
  refreshes; if the write itself fails it ends there. An admission builds, checks, refreshes, checks,
  audits and checks, in this order, and fails at the first of them that fails.
\<close>

definition owned :: "('w, 'z) fs_env_scheme \<Rightarrow> digest \<Rightarrow> string option \<Rightarrow> bool" where
  "owned env d c \<longleftrightarrow> (case c of None \<Rightarrow> False | Some bytes \<Rightarrow> digest_of env bytes = d)"

definition both_ok :: "err + unit \<Rightarrow> pet_error + unit \<Rightarrow> bool \<Rightarrow> err + bool \<Rightarrow> bool" where
  "both_ok b rf restored r \<longleftrightarrow>
     (if b = Inr () \<and> rf = Inr () then r = Inr restored else (\<exists>e. r = Inl e))"

inductive rollback ::
  "('w, 'z) fs_env_scheme \<Rightarrow> path \<Rightarrow> string \<Rightarrow> digest \<Rightarrow> sys_event list \<Rightarrow> err + bool \<Rightarrow> bool"
  for env p original d where
  write_failed: "owned env d c \<Longrightarrow> w \<in> {[], [SourceReplaced p original]} \<Longrightarrow>
    rollback env p original d (SourceRead p c # w) (Inl e)"
| restored: "owned env d c \<Longrightarrow> both_ok b rf True r \<Longrightarrow>
    rollback env p original d [SourceRead p c, SourceReplaced p original, Built p b, Refreshed rf] r"
| foreign: "\<not> owned env d c \<Longrightarrow> both_ok b rf False r \<Longrightarrow>
    rollback env p original d [SourceRead p c, Built p b, Refreshed rf] r"

inductive_cases rollbackE: "rollback env p original d ms r"

inductive admission :: "('w, 'z) fs_env_scheme \<Rightarrow> path \<Rightarrow> digest \<Rightarrow> sys_event list \<Rightarrow> bool \<Rightarrow> bool"
  for env p d where
  build_failed: "admission env p d [Built p (Inl e)] False"
| built_foreign: "\<not> owned env d c \<Longrightarrow> admission env p d [Built p (Inr ()), SourceRead p c] False"
| refresh_failed: "owned env d c \<Longrightarrow>
    admission env p d [Built p (Inr ()), SourceRead p c, Refreshed (Inl x)] False"
| refreshed_foreign: "owned env d c \<Longrightarrow> \<not> owned env d c' \<Longrightarrow>
    admission env p d [Built p (Inr ()), SourceRead p c, Refreshed (Inr ()), SourceRead p c'] False"
| audit_failed: "owned env d c \<Longrightarrow> owned env d c' \<Longrightarrow>
    admission env p d [Built p (Inr ()), SourceRead p c, Refreshed (Inr ()), SourceRead p c', Audited False] False"
| audited_last: "owned env d c \<Longrightarrow> owned env d c' \<Longrightarrow> owned env d c'' = ok \<Longrightarrow>
    admission env p d [Built p (Inr ()), SourceRead p c, Refreshed (Inr ()), SourceRead p c', Audited True,
      SourceRead p c''] ok"

inductive_cases admissionE: "admission env p d ms ok"

inductive publication ::
  "('w, 'z) fs_env_scheme \<Rightarrow> prepared \<Rightarrow> sys_event list \<Rightarrow> err + 'a \<Rightarrow> bool"
  for env pp where
  lost_race: "\<not> owned env (digest_of env (pp_original pp)) c \<Longrightarrow>
    rollback env (pp_path pp) (pp_original pp) (pp_replacement_digest pp) rb r \<Longrightarrow>
    publication env pp (SourceRead (pp_path pp) c # rb) (Inl e)"
| not_written: "owned env (digest_of env (pp_original pp)) c \<Longrightarrow>
    w \<in> {[], [SourceReplaced (pp_path pp) (pp_replacement pp)]} \<Longrightarrow>
    rollback env (pp_path pp) (pp_original pp) (pp_replacement_digest pp) rb r \<Longrightarrow>
    publication env pp (SourceRead (pp_path pp) c # w @ rb) (Inl e)"
| published: "owned env (digest_of env (pp_original pp)) c \<Longrightarrow>
    admission env (pp_path pp) (pp_replacement_digest pp) adm True \<Longrightarrow>
    publication env pp (SourceRead (pp_path pp) c # SourceReplaced (pp_path pp) (pp_replacement pp) # adm) (Inr v)"
| rolled_back: "owned env (digest_of env (pp_original pp)) c \<Longrightarrow>
    admission env (pp_path pp) (pp_replacement_digest pp) adm False \<Longrightarrow>
    rollback env (pp_path pp) (pp_original pp) (pp_replacement_digest pp) rb r \<Longrightarrow>
    publication env pp
      (SourceRead (pp_path pp) c # SourceReplaced (pp_path pp) (pp_replacement pp) # adm @ rb) (Inl e)"

inductive_cases publicationE: "publication env pp ms r"

lemma attempt_map_err_result:
  assumes "attempt (map_err g m) s = (r, s')"
  shows "\<exists>y. m s = (y, s') \<and> r = Inr (result_map_err g y)"
  using assms by (auto elim!: attemptE map_errE)

lemma rebuild_selected_result:
  assumes "rebuild_selected env pj p ws limit restored s = (r, s')"
  shows "\<exists>b rf. milestones s' = milestones s @ [Built p b, Refreshed rf] \<and> both_ok b rf restored r"
proof -
  obtain s1 where s1: "progress ''rollback_build'' ''building the source selected by rollback'' s = (Inr () :: err + unit, s1)"
    "milestones s1 = milestones s"
    using progress_result by (metis surj_pair)
  obtain b s2 where s2: "native_build env pj p limit s1 = (b, s2)" by fastforce
  obtain s3 where s3: "progress ''rollback_refresh'' ''refreshing PET after rollback build'' s2 = (Inr () :: err + unit, s3)"
    "milestones s3 = milestones s2"
    using progress_result by (metis surj_pair)
  obtain rf s4 where s4: "refresh_actor env ws s3 = (rf, s4)" by fastforce
  have "milestones s4 = milestones s @ [Built p b, Refreshed rf]"
    using s1 s3 native_build_milestones [OF s2] refresh_milestones [OF s4] by simp
  moreover have "s' = s4 \<and> both_ok b rf restored r"
    using assms s1 s2 s3 s4 unfolding rebuild_selected_def
    by (cases b; cases rf) (auto simp: and_then_def attempt_def map_err_def ret_def throw_def both_ok_def)
  ultimately show ?thesis by blast
qed

lemma restore_rollback:
  assumes "restore_epoch env pj p ws original d limit s = (r, s')"
  shows "\<exists>rb. milestones s' = milestones s @ rb \<and> rollback env p original d rb r"
proof -
  obtain c s1 where read: "read_source env p s = (Inr c :: err + string option, s1)" "milestones s1 = milestones s @ [SourceRead p c]"
    by (metis read_source_result surj_pair)
  show ?thesis
  proof (cases "owned env d c")
    case False
    with assms read have "rebuild_selected env pj p ws limit False s1 = (r, s')"
      by (simp add: restore_epoch_def owned_def ret_def and_then_def split: option.splits)
    from rebuild_selected_result [OF this] False read(2) show ?thesis by (fastforce intro: foreign)
  next
    case True
    then obtain bytes where bytes: "c = Some bytes" "digest_of env bytes = d"
      by (auto simp: owned_def split: option.splits)
    obtain x s2 where w: "atomic_write env p original s1 = (x, s2)" by fastforce
    show ?thesis
    proof (cases x)
      case (Inl e)
      with w assms read bytes have "r = Inl e" "s' = s2"
        by (auto simp: restore_epoch_def and_then_def)
      with atomic_write_milestones [OF w] Inl read True show ?thesis
        by (fastforce intro: write_failed)
    next
      case (Inr u)
      with w assms read bytes have "rebuild_selected env pj p ws limit True s2 = (r, s')"
        by (simp add: restore_epoch_def ret_def and_then_def)
      from rebuild_selected_result [OF this] atomic_write_milestones [OF w] Inr read(2) True
      show ?thesis by (fastforce intro: restored)
    qed
  qed
qed

lemma require_digest_result:
  assumes "require_digest env p d s = (r, s')"
  shows "\<exists>c. milestones s' = milestones s @ [SourceRead p c] \<and> (r = Inr () \<longleftrightarrow> owned env d c) \<and> (\<forall>x. r = Inr x \<longrightarrow> owned env d c)"
  using assms unfolding require_digest_def
  by (auto simp: lift_result_def when_err_def throw_def ret_def owned_def elim!: and_thenE
      dest!: read_source_result split: option.splits if_splits)

lemma admit_admission:
  assumes "quiet_op validate" and "admit env pj p ws d limit validate s = (r, s')"
  shows "\<exists>adm. milestones s' = milestones s @ adm \<and> admission env p d adm (case r of Inl _ \<Rightarrow> False | Inr _ \<Rightarrow> True)"
  using assms(2) unfolding admit_def
  by (auto simp: ret_def elim!: and_thenE map_errE
      dest!: progress_result native_build_milestones refresh_milestones audit_milestones [OF assms(1)]
        require_digest_result intro: admission.intros)

lemma publish_publication:
  fixes r :: "err + 'c"
  assumes quiet: "quiet_op validate"
    and run: "publish_with_progress env pj pp limit validate s = (r, s')"
  shows "\<exists>ms. milestones s' = milestones s @ ms \<and> publication env pp ms r"
proof -
  let ?p = "pp_path pp" and ?d = "pp_replacement_digest pp"
  let ?restore = "restore_epoch env pj ?p (pp_workspace pp) (pp_original pp) ?d limit"
  let ?own = "owned env (digest_of env (pp_original pp))"
  obtain s1 where s1: "progress ''writeback'' ''checking source ownership before atomic write'' s = (Inr () :: err + unit, s1)"
    "milestones s1 = milestones s"
    using progress_result by (metis surj_pair)
  obtain c s2 where s2: "read_source env ?p s1 = (Inr c :: err + string option, s2)"
    "milestones s2 = milestones s @ [SourceRead ?p c]"
    using read_source_result s1(2) by (metis surj_pair)
  have n1: "and_then (progress ''writeback'' ''checking source ownership before atomic write'') f s = f () s1"
    for f :: "unit \<Rightarrow> (_, err, 'c) eff" by (simp add: and_then_def s1(1))
  have n2: "and_then (read_source env ?p) f s1 = f c s2"
    for f :: "string option \<Rightarrow> (_, err, 'c) eff" by (simp add: and_then_def s2(1))
  have guard: "(case c of None \<Rightarrow> True | Some bytes \<Rightarrow> digest_of env bytes \<noteq> digest_of env (pp_original pp)) \<longleftrightarrow> \<not> ?own c"
    by (simp add: owned_def split: option.splits)
  have failing: "\<exists>rb res. milestones s' = milestones s3 @ rb \<and> rollback env ?p (pp_original pp) ?d rb res \<and> (\<exists>e. r = Inl e)"
    if "and_then ?restore f s3 = (r, s')" "\<And>x t. \<exists>e. f x t = (Inl e, t)" for f s3
    using that(1)
  proof (rule and_thenE)
    fix e assume "?restore s3 = (Inl e, s')" "r = Inl e"
    with restore_rollback show ?thesis by blast
  next
    fix x t assume "?restore s3 = (Inr x, t)" "f x t = (r, s')"
    with restore_rollback that(2) [of x t] show ?thesis by fastforce
  qed
  show ?thesis
  proof (cases "?own c")
    case False
    with run have "and_then ?restore (\<lambda>_. throw (error_new DeclarationChanged
        ''target source changed before publication commit'')) s2 = (r, s')"
      by (simp add: publish_with_progress_def Let_def n1 n2 guard)
    from failing [OF this] False s2(2) show ?thesis
      by (fastforce simp: throw_def intro: lost_race)
  next
    case True
    obtain w s3 where w: "atomic_write env ?p (pp_replacement pp) s2 = (w, s3)" by fastforce
    have n3: "and_then (attempt (atomic_write env ?p (pp_replacement pp))) f s2 = f w s3"
      for f :: "err + unit \<Rightarrow> (_, err, 'c) eff" by (simp add: and_then_def attempt_def w)
    show ?thesis
    proof (cases w)
      case (Inl e)
      with True run have "and_then ?restore (\<lambda>_. throw e) s3 = (r, s')"
        by (simp add: publish_with_progress_def Let_def n1 n2
            n3 guard)
      from failing [OF this] obtain rb res e' where rb: "milestones s' = milestones s3 @ rb"
        "rollback env ?p (pp_original pp) ?d rb res" "r = Inl e'" by (auto simp: throw_def)
      from atomic_write_milestones [OF w] Inl obtain ws where
        "ws \<in> {[], [SourceReplaced ?p (pp_replacement pp)]}" "milestones s3 = milestones s2 @ ws" by auto
      with rb True s2(2) show ?thesis
        by (intro exI [of _ "SourceRead ?p c # ws @ rb"]) (auto intro: not_written)
    next
      case (Inr u)
      let ?admit = "admit env pj ?p (pp_workspace pp) ?d limit validate"
      have m3: "milestones s3 = milestones s @ [SourceRead ?p c, SourceReplaced ?p (pp_replacement pp)]"
        using atomic_write_milestones [OF w] Inr s2(2) by simp
      obtain a s4 where a: "?admit s3 = (a, s4)" by fastforce
      have n4: "and_then (attempt ?admit) f s3 = f a s4"
        for f :: "err + 'c \<Rightarrow> (_, err, 'c) eff" by (simp add: and_then_def attempt_def a)
      from admit_admission [OF quiet a] obtain adm where adm: "milestones s4 = milestones s3 @ adm"
        "admission env ?p ?d adm (case a of Inl _ \<Rightarrow> False | Inr _ \<Rightarrow> True)" by blast
      show ?thesis
      proof (cases a)
        case (Inr v)
        with True run \<open>w = Inr u\<close> have "r = Inr v" "s' = s4"
          by (simp_all add: publish_with_progress_def Let_def n1 n2
            n3 n4 guard ret_def)
        with adm Inr m3 True show ?thesis
          by (intro exI [of _ "SourceRead ?p c # SourceReplaced ?p (pp_replacement pp) # adm"]) (auto intro: published)
      next
        case (Inl e)
        obtain s5 where s5: "progress ''rollback_build'' ''restoring and rebuilding the previous source'' s4 = (Inr () :: err + unit, s5)"
          "milestones s5 = milestones s4"
          using progress_result by (metis surj_pair)
        then have n5: "and_then (progress ''rollback_build'' ''restoring and rebuilding the previous source'') f s4 = f () s5"
          for f :: "unit \<Rightarrow> (_, err, 'c) eff" by (simp add: and_then_def)
        from Inl True run \<open>w = Inr u\<close> have "and_then ?restore (\<lambda>restored.
            if restored then throw e else throw (error_new DeclarationChanged
              (''source changed during failed publication; original error: '' @ err_message e))) s5 = (r, s')"
          by (simp add: publish_with_progress_def Let_def n1 n2
            n3 n4 n5 guard)
        from failing [OF this] have "\<exists>rb res. milestones s' = milestones s5 @ rb
            \<and> rollback env ?p (pp_original pp) ?d rb res \<and> (\<exists>e. r = Inl e)"
          by (simp add: throw_def if_distrib [where f = "\<lambda>m. m _"])
        then obtain rb res e' where rb: "milestones s' = milestones s5 @ rb"
          "rollback env ?p (pp_original pp) ?d rb res" "r = Inl e'" by blast
        with adm Inl m3 True s5(2) show ?thesis
          by (intro exI [of _ "SourceRead ?p c # SourceReplaced ?p (pp_replacement pp) # adm @ rb"])
             (auto intro: rolled_back)
      qed
    qed
  qed
qed

text \<open>
  C2. Publication implements its specification. For every project, prepared publication, audit that
  touches no source, and behaviour of the file system, Dune and PET, the milestones of a run are
  those of the abstract transaction with the result that the run returns: a lost race or a failed
  write is rolled back and reported, a success is exactly replace, build, check, refresh, check,
  audit, check over the replaced bytes, and a failure after the replacement is rolled back.
\<close>

theorem publish_refines_publication:
  assumes "quiet_op validate"
    and "publish_with_progress env pj pp limit validate s = (r, s')"
  shows "\<exists>ms. milestones s' = milestones s @ ms \<and> publication env pp ms r"
  by (rule publish_publication [OF assms])

text \<open>No replacement without the check: the event before it is a read of bytes with the digest of
  what is replaced, the original by the replacement, or our replacement by the original.\<close>

fun guarded :: "('w, 'z) fs_env_scheme \<Rightarrow> prepared \<Rightarrow> sys_event option \<Rightarrow> sys_event list \<Rightarrow> bool" where
  "guarded env pp prev [] \<longleftrightarrow> True"
| "guarded env pp prev (ev # ms) \<longleftrightarrow>
     (case ev of
        SourceReplaced p b \<Rightarrow> p = pp_path pp \<and>
          (case prev of
             Some (SourceRead q (Some bytes)) \<Rightarrow> q = pp_path pp \<and>
               (b = pp_replacement pp \<and> digest_of env bytes = digest_of env (pp_original pp)
                \<or> b = pp_original pp \<and> digest_of env bytes = pp_replacement_digest pp)
           | _ \<Rightarrow> False)
      | _ \<Rightarrow> True) \<and> guarded env pp (Some ev) ms"

definition replacements :: "sys_event list \<Rightarrow> nat" where
  "replacements ms = length (filter (\<lambda>ev. case ev of SourceReplaced p b \<Rightarrow> True | _ \<Rightarrow> False) ms)"

lemma replacements_simps [simp]:
  "replacements [] = 0" "replacements (ms @ ns) = replacements ms + replacements ns"
  "replacements (SourceReplaced p b # ms) = Suc (replacements ms)"
  "replacements (SourceRead p c # ms) = replacements ms" "replacements (Built p x # ms) = replacements ms"
  "replacements (Refreshed y # ms) = replacements ms" "replacements (Audited ok # ms) = replacements ms"
  by (simp_all add: replacements_def)

lemma guarded_rollback:
  "rollback env (pp_path pp) (pp_original pp) (pp_replacement_digest pp) ms r \<Longrightarrow>
   guarded env pp prev ms"
  by (erule rollbackE) (auto simp: owned_def split: option.splits)

lemma replacements_rollback: "rollback env p original d ms r \<Longrightarrow> replacements ms \<le> 1"
  by (erule rollbackE) auto

lemma guarded_admission:
  "admission env (pp_path pp) d ms ok \<Longrightarrow> (\<And>prev. guarded env pp prev ns) \<Longrightarrow>
   guarded env pp prev (ms @ ns) \<and> replacements ms = 0"
  by (erule admissionE) auto

lemma guarded_publication:
  assumes "publication env pp ms r" shows "guarded env pp None ms \<and> replacements ms \<le> 2"
  using assms
proof cases
  case (lost_race c rb ra e)
  with guarded_rollback [OF lost_race(4)] replacements_rollback [OF lost_race(4)] show ?thesis by simp
next
  case (not_written c w rb ra e)
  with guarded_rollback [OF not_written(5)] replacements_rollback [OF not_written(5)] show ?thesis by (auto simp: owned_def split: option.splits)
next
  case (published c adm v)
  with guarded_admission [OF published(4), of "[]"] show ?thesis
    by (auto simp: owned_def split: option.splits)
next
  case (rolled_back c adm rb ra e)
  note g = guarded_rollback [OF rolled_back(5)] replacements_rollback [OF rolled_back(5)]
  from guarded_admission [OF rolled_back(4) g(1)] rolled_back g(2) show ?thesis
    by (auto simp: owned_def split: option.splits)
qed

text \<open>
  C3. A source is replaced only over the bytes that were checked. During a publication every
  replacement of the source comes right after a read of that source whose digest is the expected
  one: the replacement goes over the bytes the transaction was prepared from, and the rollback goes
  only over our own replacement, so bytes of an external editor that a read has seen are never
  overwritten; and the source is replaced at most twice.
\<close>

theorem publish_never_overwrites:
  assumes "quiet_op validate"
    and "publish_with_progress env pj pp limit validate s = (r, s')"
  shows "\<exists>ms. milestones s' = milestones s @ ms \<and> guarded env pp None ms \<and> replacements ms \<le> 2"
  using publish_publication [OF assms] guarded_publication by blast

text \<open>The comment on the transaction says that any failure after the replacement rebuilds the source
  and refreshes PET before it returns; a rollback whose own write fails returns before both.\<close>

lemma rollback_without_refresh:
  assumes "\<And>w. read_file env p w = (Some bytes, w)" and "digest_of env bytes = d"
    and "\<And>w. file_mode env p w = (None, w)" and "path_parent p = Some parent"
  shows "\<exists>s'. restore_epoch env pj p ws original d limit s =
      (Inl (invalid_conf ''atomic source replacement failed''), s')
    \<and> milestones s' = milestones s @ [SourceRead p (Some bytes)]"
  using assms
  by (simp add: restore_epoch_def read_source_def and_then_def external_def emit_def modify_def ret_def
      atomic_write_def lift_result_def map_err_def io_value_def milestones_def)

definition sample_fs_env :: "unit fs_env" where
  "sample_fs_env = dune_env.extend sample_dune_env
     \<lparr>sha256 = (\<lambda>t. t), file_mode = (\<lambda>p w. (Some 420, w)), temp_create = (\<lambda>p w. (Some 3, w)),
      temp_write = (\<lambda>h t w. (True, w)), temp_sync = (\<lambda>h w. (True, w)), temp_mode = (\<lambda>h m w. (True, w)),
      temp_persist = (\<lambda>h p w. (True, w)), dir_sync = (\<lambda>p w. (True, w))\<rparr>"

definition sample_pj :: dune_project where
  "sample_pj = \<lparr>pj_root = sample_project, pj_layout = sample_layout, pj_probe = []\<rparr>"

definition sample_source :: path where
  "sample_source = [RootDir, Normal ''p'', Normal ''A.v'']"

definition sample_prepared :: prepared where
  "sample_prepared = \<lparr>pp_path = sample_source, pp_workspace = layout_ws sample_layout,
     pp_original = ''old'', pp_replacement = ''new'', pp_replacement_digest = ''new''\<rparr>"

lemma quiet_ret: "quiet_op (ret x)"
  by (rule quiet_framed) (rule frame)

theorem publish_refines_publication_witness:
  "quiet_op (ret () :: (unit sys, err, unit) eff)
   \<and> (\<exists>ms. publication sample_fs_env sample_prepared ms
        (fst (publish_with_progress sample_fs_env sample_pj sample_prepared None (ret ()) idle_sys)))"
  using publish_refines_publication [OF quiet_ret surjective_pairing,
      of sample_fs_env sample_pj sample_prepared None "()" idle_sys]
  by (intro conjI quiet_ret) blast

theorem publish_never_overwrites_witness:
  "\<exists>ms. milestones (snd (publish_with_progress sample_fs_env sample_pj sample_prepared None (ret ()) idle_sys)) =
      milestones idle_sys @ ms \<and> guarded sample_fs_env sample_prepared None ms \<and> replacements ms \<le> 2"
  using publish_never_overwrites [OF quiet_ret surjective_pairing,
      of sample_fs_env sample_pj sample_prepared None "()" idle_sys] by blast

section \<open>The replacement text\<close>

text \<open>The target of the published text: the same declaration, its range over the new body.\<close>

definition republished :: "declaration_target \<Rightarrow> nat \<Rightarrow> declaration_target" where
  "republished target len = target\<lparr>anchor := (anchor target)\<lparr>anchor_declaration :=
     \<lparr>pr_start = pr_start (anchor_declaration (anchor target)),
      pr_end = pr_start (anchor_declaration (anchor target)) + len\<rparr>\<rparr>\<rparr>"

lemma republished_simps [simp]:
  "pr_start (anchor_declaration (anchor (republished target n))) = pr_start (anchor_declaration (anchor target))"
  "pr_end (anchor_declaration (anchor (republished target n))) = pr_start (anchor_declaration (anchor target)) + n"
  "info (republished target n) = info target" "new_header (republished target n) = new_header target"
  "anchor_header (anchor (republished target n)) = anchor_header (anchor target)"
  by (simp_all add: republished_def)

lemma replacement_shape:
  assumes "replacement original target fragments = Inr out"
  shows "\<exists>head body. replacement_head original target = Inr head \<and> prefix head body
    \<and> suffix (terminator (kind (info target)) @ [CHR 0x0A]) body
    \<and> pr_start (anchor_declaration (anchor target)) \<le> pr_end (anchor_declaration (anchor target))
    \<and> pr_end (anchor_declaration (anchor target)) \<le> length original
    \<and> body = head @ (if kind (info target) \<noteq> KDefinition then ''Proof.'' @ [CHR 0x0A] else [])
              @ concat (map (\<lambda>fragment. trim fragment @ [CHR 0x0A]) fragments)
              @ terminator (kind (info target)) @ [CHR 0x0A]
    \<and> out = take (pr_start (anchor_declaration (anchor target))) original @ body
        @ drop (pr_end (anchor_declaration (anchor target))) original"
proof -
  let ?b = "\<lambda>head. head @ (if kind (info target) \<noteq> KDefinition then ''Proof.'' @ [CHR 0x0A] else [])
              @ concat (map (\<lambda>fragment. trim fragment @ [CHR 0x0A]) fragments)
              @ terminator (kind (info target)) @ [CHR 0x0A]"
  obtain head where "replacement_head original target = Inr head"
    "pr_start (anchor_declaration (anchor target)) \<le> pr_end (anchor_declaration (anchor target))"
    "pr_end (anchor_declaration (anchor target)) \<le> length original"
    "out = take (pr_start (anchor_declaration (anchor target))) original @ ?b head
        @ drop (pr_end (anchor_declaration (anchor target))) original"
    using assms unfolding replacement_def Let_def
    by (auto simp del: append_assoc append.simps split: if_splits)
  moreover have "suffix (terminator (kind (info target)) @ [CHR 0x0A]) (?b head)"
    unfolding append_assoc [symmetric] by (rule suffixI) simp
  ultimately show ?thesis by (intro exI [of _ head] exI [of _ "?b head"]) simp
qed

text \<open>
  The replacement changes the declaration and nothing else, and publishing again changes
  nothing. When \<open>replacement\<close> succeeds, the bytes before and after the declaration's range are those
  of the original, the new text opens with the declaration's header and ends with the terminator of
  its kind; and, for a declaration that was in the source, the same fragments rendered against the
  published bytes give those bytes again.
\<close>

theorem replacement_republish:
  assumes "replacement original target fragments = Inr out"
  shows "\<exists>head body. out = take (pr_start (anchor_declaration (anchor target))) original @ body
        @ drop (pr_end (anchor_declaration (anchor target))) original
    \<and> replacement_head original target = Inr head \<and> prefix head body
    \<and> suffix (terminator (kind (info target)) @ [CHR 0x0A]) body
    \<and> (new_header target = None \<longrightarrow> replacement out (republished target (length body)) fragments = Inr out)"
proof -
  let ?first = "pr_start (anchor_declaration (anchor target))" and ?last = "pr_end (anchor_declaration (anchor target))"
  obtain head body where hb: "replacement_head original target = Inr head" "prefix head body"
    "suffix (terminator (kind (info target)) @ [CHR 0x0A]) body" "?first \<le> ?last" "?last \<le> length original"
    "body = head @ (if kind (info target) \<noteq> KDefinition then ''Proof.'' @ [CHR 0x0A] else [])
              @ concat (map (\<lambda>fragment. trim fragment @ [CHR 0x0A]) fragments)
              @ terminator (kind (info target)) @ [CHR 0x0A]"
    "out = take ?first original @ body @ drop ?last original"
    using replacement_shape [OF assms] by blast
  have idem: "replacement out (republished target (length body)) fragments = Inr out" if none: "new_header target = None"
  proof -
    let ?he = "pr_end (anchor_header (anchor target))"
    define header where "header = take (?he - ?first) (drop ?first original)"
    have he: "?first \<le> ?he" "?he \<le> ?last" and u: "utf8 header"
      and head: "head = header @ (if str_ends_with (trim_end header) ''.'' then [] else ''.'') @ [CHR 0x0A]"
      using hb(1) none by (auto simp: replacement_head_def Let_def header_def split: if_splits)
    have len: "length header = ?he - ?first" using he hb(5) by (simp add: header_def)
    obtain rest where rest: "body = header @ rest" using hb(6) head by auto
    have first: "length (take ?first original) = ?first" using hb(4,5) by simp
    have "take (?he - ?first) (drop ?first out) = header"
      using hb(7) rest first len by simp
    moreover have "?he \<le> ?first + length body" using rest len he by simp
    ultimately have rh: "replacement_head out (republished target (length body)) = Inr head"
      using none he u by (simp add: replacement_head_def Let_def head)
    have parts: "drop (?first + length body) out = drop ?last original" "take ?first out = take ?first original"
      "?first + length body \<le> length out"
      unfolding hb(7) using first by simp_all
    have "replacement out (republished target (length body)) fragments =
        Inr (take ?first out @ body @ drop (?first + length body) out)"
      using rh parts(3) unfolding replacement_def Let_def hb(6) by simp
    then show ?thesis by (simp only: parts hb(7) [symmetric])
  qed
  show ?thesis
    by (intro exI [of _ head] exI [of _ body] conjI impI hb(1,2,3,7) idem)
qed

definition sample_target :: declaration_target where
  "sample_target = \<lparr>info = \<lparr>identity = \<lparr>id_file = ''A.v'', qualified_path = [''A'', ''t'']\<rparr>, kind = KLemma,
       statement = ''True''\<rparr>,
     anchor = \<lparr>anchor_source = sample_source, anchor_digest = ''(* *)Lemma t : True. Admitted.'',
       anchor_header = \<lparr>pr_start = 5, pr_end = 20\<rparr>, anchor_declaration = \<lparr>pr_start = 5, pr_end = 30\<rparr>,
       replaceable = True\<rparr>, new_header = None\<rparr>"

lemma sample_replacement:
  "replacement ''(* *)Lemma t : True. Admitted.'' sample_target ['' exact I. ''] =
     Inr (''(* *)Lemma t : True.'' @ [CHR 0x0A] @ ''Proof.'' @ [CHR 0x0A] @ ''exact I.'' @ [CHR 0x0A] @ ''Qed.'' @ [CHR 0x0A])"
proof -
  have "utf8 ''Lemma t : True.''" by (simp add: utf8_all_ascii byte_def)
  moreover have "trim_end ''Lemma t : True.'' = ''Lemma t : True.''" "trim '' exact I. '' = ''exact I.''"
    by (simp_all add: trim_def trim_end_def trim_start_def strip_front.simps ws_chars_def)
  ultimately show ?thesis
    by (simp add: replacement_def sample_target_def replacement_head_def str_ends_with_def suffix_def terminator_def)
qed

theorem replacement_republish_witness:
  "\<exists>head body. replacement ''(* *)Lemma t : True. Admitted.'' sample_target ['' exact I. ''] =
      Inr (take 5 ''(* *)Lemma t : True. Admitted.'' @ body @ drop 30 ''(* *)Lemma t : True. Admitted.'')
    \<and> prefix head body
    \<and> replacement (take 5 ''(* *)Lemma t : True. Admitted.'' @ body @ drop 30 ''(* *)Lemma t : True. Admitted.'')
        (republished sample_target (length body)) ['' exact I. ''] =
      Inr (take 5 ''(* *)Lemma t : True. Admitted.'' @ body @ drop 30 ''(* *)Lemma t : True. Admitted.'')"
proof -
  have sel: "pr_start (anchor_declaration (anchor sample_target)) = 5"
    "pr_end (anchor_declaration (anchor sample_target)) = 30" "new_header sample_target = None"
    by (simp_all add: sample_target_def)
  from replacement_republish [OF sample_replacement] sample_replacement show ?thesis
    unfolding sel by metis
qed

section \<open>Preparing and admitting\<close>

lemma prepare_result:
  assumes "prepare env pj target fragments s = (r, s')"
  shows "(milestones s' = milestones s \<or> (\<exists>c. milestones s' = milestones s @ [SourceRead (anchor_source (anchor target)) c]))
    \<and> (case r of Inl _ \<Rightarrow> True
       | Inr pp \<Rightarrow> milestones s' = milestones s @ [SourceRead (pp_path pp) (Some (pp_original pp))]
           \<and> pp_path pp = anchor_source (anchor target) \<and> replaceable (anchor target)
           \<and> project_workspace pj (pp_path pp) = Inr (pp_workspace pp)
           \<and> digest_of env (pp_original pp) = anchor_digest (anchor target)
           \<and> replacement (pp_original pp) target fragments = Inr (pp_replacement pp)
           \<and> pp_replacement_digest pp = digest_of env (pp_replacement pp))"
  using assms unfolding prepare_def Let_def
  by (auto simp: when_err_def throw_def ret_def lift_result_def elim!: and_thenE
      dest!: read_source_result split: if_splits)

text \<open>
  A prepared publication is the compare-and-swap it says. \<open>prepare\<close> reads the source at most once
  and replaces, builds and refreshes nothing; when it succeeds, the source read is the one whose
  digest PET anchored the declaration to, the replacement is the rendering of exactly those bytes,
  and the digest kept for the rollback is that of the replacement.
\<close>

theorem prepare_is_checked:
  "case prepare env pj target fragments s of (r, s') \<Rightarrow>
     (milestones s' = milestones s \<or> (\<exists>c. milestones s' = milestones s @ [SourceRead (anchor_source (anchor target)) c]))
     \<and> (case r of Inl _ \<Rightarrow> True
        | Inr pp \<Rightarrow> milestones s' = milestones s @ [SourceRead (pp_path pp) (Some (pp_original pp))]
            \<and> pp_path pp = anchor_source (anchor target) \<and> replaceable (anchor target)
            \<and> project_workspace pj (pp_path pp) = Inr (pp_workspace pp)
            \<and> digest_of env (pp_original pp) = anchor_digest (anchor target)
            \<and> replacement (pp_original pp) target fragments = Inr (pp_replacement pp)
            \<and> pp_replacement_digest pp = digest_of env (pp_replacement pp))"
  using prepare_result [of env pj target fragments s]
  by (cases "prepare env pj target fragments s") blast

text \<open>
  A build epoch refreshes PET whatever the build says. For a source of the project,
  \<open>build_and_refresh\<close> builds once and then refreshes once, also after a rejected, cancelled or timed
  out build; it audits only when both succeeded and answers with the audit; otherwise the refresh
  error wins over the build error.
\<close>

theorem build_epoch_refreshes:
  assumes "quiet_op validate" and "project_workspace pj source = Inr ws"
  shows "\<exists>r s' b rf. build_and_refresh env pj source limit validate s = (r, s')
    \<and> (case (b, rf) of
        (Inr _, Inr _) \<Rightarrow> milestones s' = milestones s @ [Built source b, Refreshed rf,
            Audited (case r of Inl _ \<Rightarrow> False | Inr _ \<Rightarrow> True)]
      | (Inl e, Inr _) \<Rightarrow> milestones s' = milestones s @ [Built source b, Refreshed rf] \<and> r = Inl e
      | (_, Inl e) \<Rightarrow> milestones s' = milestones s @ [Built source b, Refreshed rf] \<and> r = Inl (refresh_error e))"
proof -
  obtain s1 where s1: "progress ''dune_build'' ''building the selected Dune target'' s = (Inr () :: err + unit, s1)"
    "milestones s1 = milestones s" using progress_result by (metis surj_pair)
  obtain b s2 where s2: "native_build env pj source limit s1 = (b, s2)" by fastforce
  obtain s3 where s3: "progress ''pet_refresh'' ''refreshing PET after native build'' s2 = (Inr () :: err + unit, s3)"
    "milestones s3 = milestones s2" using progress_result by (metis surj_pair)
  obtain rf s4 where s4: "refresh_actor env ws s3 = (rf, s4)" by fastforce
  obtain s5 where s5: "progress ''trust_audit'' ''auditing the completed declaration'' s4 = (Inr () :: err + unit, s5)"
    "milestones s5 = milestones s4" using progress_result by (metis surj_pair)
  obtain r6 s6 where s6: "audit validate s5 = (r6, s6)" by fastforce
  have m4: "milestones s4 = milestones s @ [Built source b, Refreshed rf]"
    using s1 s3 native_build_milestones [OF s2] refresh_milestones [OF s4] by simp
  let ?rs = "case rf of Inl e \<Rightarrow> (Inl (refresh_error e), s4)
      | Inr _ \<Rightarrow> (case b of Inl e \<Rightarrow> (Inl e, s4) | Inr _ \<Rightarrow> (r6, s6))"
  have eq: "build_and_refresh env pj source limit validate s = ?rs"
    using assms(2) s1(1) s2 s3(1) s4 s5(1) s6
    by (simp add: build_and_refresh_def and_then_def attempt_def map_err_def lift_result_def throw_def
        split: sum.splits)
  show ?thesis
  proof (intro exI conjI)
    show "build_and_refresh env pj source limit validate s = (fst ?rs, snd ?rs)" using eq by simp
    show "case (b, rf) of
        (Inr _, Inr _) \<Rightarrow> milestones (snd ?rs) = milestones s @ [Built source b, Refreshed rf,
            Audited (case fst ?rs of Inl _ \<Rightarrow> False | Inr _ \<Rightarrow> True)]
      | (Inl e, Inr _) \<Rightarrow> milestones (snd ?rs) = milestones s @ [Built source b, Refreshed rf] \<and> fst ?rs = Inl e
      | (_, Inl e) \<Rightarrow> milestones (snd ?rs) = milestones s @ [Built source b, Refreshed rf] \<and> fst ?rs = Inl (refresh_error e)"
      using m4 s5(2) audit_milestones [OF assms(1) s6] by (cases rf; cases b) simp_all
  qed
qed

theorem build_epoch_refreshes_witness:
  "quiet_op (ret () :: (unit sys, err, unit) eff) \<and> project_workspace sample_pj sample_source = Inr (layout_ws sample_layout)
   \<and> (\<exists>r s' b rf. build_and_refresh sample_fs_env sample_pj sample_source None (ret ()) idle_sys = (r, s')
      \<and> (case (b, rf) of
        (Inr _, Inr _) \<Rightarrow> milestones s' = milestones idle_sys @ [Built sample_source b, Refreshed rf,
            Audited (case r of Inl _ \<Rightarrow> False | Inr _ \<Rightarrow> True)]
      | (Inl e, Inr _) \<Rightarrow> milestones s' = milestones idle_sys @ [Built sample_source b, Refreshed rf] \<and> r = Inl e
      | (_, Inl e) \<Rightarrow> milestones s' = milestones idle_sys @ [Built sample_source b, Refreshed rf] \<and> r = Inl (refresh_error e)))"
proof -
  have ws: "project_workspace sample_pj sample_source = Inr (layout_ws sample_layout)"
    by (simp add: project_workspace_def layout_pet_workspace_def contains_file_def sample_pj_def sample_layout_def
        sample_source_def bt_get_def)
  show ?thesis
    by (intro conjI quiet_ret ws build_epoch_refreshes [OF quiet_ret ws])
qed

end
