(* ===== verification/Engine_Errors.thy ===== *)
theory Engine_Errors
  imports Writeback
begin

text \<open>
  The projections of PET errors onto the engine's error classes (\<open>engine.rs\<close>, end of the file, and
  \<open>refresh_error\<close> of \<open>writeback.rs\<close>). The layers above tell from the class alone whether the PET
  process is gone; the locale \<open>error_projection\<close> is that contract, and every projection of the
  program is an instance of it.
\<close>

section \<open>The projections\<close>

datatype pet_operation = OpDeclaration | OpProofStep | OpQuery

fun remote_pet_kind :: "pet_remote_kind \<Rightarrow> pet_operation \<Rightarrow> error_kind" where
  "remote_pet_kind MethodNotFound _ = InvalidConfiguration"
| "remote_pet_kind Anomaly _ = PetFailure"
| "remote_pet_kind System _ = PetFailure"
| "remote_pet_kind (UnknownCode _) _ = PetFailure"
| "remote_pet_kind TheoremNotFound OpQuery = NotFound"
| "remote_pet_kind NoNodeAtPoint OpQuery = NotFound"
| "remote_pet_kind ReferenceNotFound OpQuery = NotFound"
| "remote_pet_kind Interrupted OpQuery = QueryFailed"
| "remote_pet_kind Parsing OpQuery = QueryFailed"
| "remote_pet_kind Coq OpQuery = QueryFailed"
| "remote_pet_kind TheoremNotFound OpDeclaration = NotFound"
| "remote_pet_kind NoNodeAtPoint OpDeclaration = NotFound"
| "remote_pet_kind Interrupted OpDeclaration = InvalidDeclaration"
| "remote_pet_kind Parsing OpDeclaration = InvalidDeclaration"
| "remote_pet_kind Coq OpDeclaration = InvalidDeclaration"
| "remote_pet_kind ReferenceNotFound OpDeclaration = InvalidDeclaration"
| "remote_pet_kind TheoremNotFound OpProofStep = NotFound"
| "remote_pet_kind NoNodeAtPoint OpProofStep = NotFound"
| "remote_pet_kind Interrupted OpProofStep = ProofStepFailed"
| "remote_pet_kind Parsing OpProofStep = ProofStepFailed"
| "remote_pet_kind Coq OpProofStep = ProofStepFailed"
| "remote_pet_kind ReferenceNotFound OpProofStep = ProofStepFailed"

definition projected_pet_error :: "error_kind \<Rightarrow> pet_error \<Rightarrow> bool \<Rightarrow> err" where
  "projected_pet_error k e preserve =
     (let diagnostic = (if preserve then (case e of Remote _ _ _ d \<Rightarrow> d | _ \<Rightarrow> None) else None);
          result = error_new k (public_message e);
          result = (if pet_is_semantic e then semantic result else result)
      in case diagnostic of Some d \<Rightarrow> with_diagnostic d result | None \<Rightarrow> result)"

text \<open>The common shape of the three projections: they differ in the class of an invalid request and
  in the table for remote rejections.\<close>

definition step_kind :: "error_kind \<Rightarrow> pet_operation \<Rightarrow> pet_error \<Rightarrow> error_kind" where
  "step_kind invalid operation e =
     (case e of
        Cancelled \<Rightarrow> RequestCancelled
      | TimedOut _ \<Rightarrow> ProofStepTimeout
      | _ \<Rightarrow> if lost e then PetLost
             else (case e of
                Environment _ \<Rightarrow> InvalidConfiguration
              | Invalid _ \<Rightarrow> invalid
              | Remote _ k _ _ \<Rightarrow> remote_pet_kind k operation
              | _ \<Rightarrow> PetLost))"

definition missing_identifier :: "(string \<times> json) list" where
  "missing_identifier =
     [(''kind'', JString ''missing_identifier''),
      (''note'', JString ''the declaration statement environment lacks an import for this identifier''),
      (''suggested_imports'', JArray []), (''candidates'', JArray [])]"

definition declaration_pet_error :: "pet_error \<Rightarrow> err" where
  "declaration_pet_error e =
     (let projected = projected_pet_error (step_kind InvalidDeclaration OpDeclaration e) e True in
      case e of
        Remote _ ReferenceNotFound _ _ \<Rightarrow> with_resolution (json_obj missing_identifier) projected
      | _ \<Rightarrow> projected)"

definition step_pet_error :: "pet_error \<Rightarrow> err" where
  "step_pet_error e = projected_pet_error (step_kind InvalidRequest OpProofStep e) e True"

definition finalizer_pet_error :: "pet_error \<Rightarrow> err" where
  "finalizer_pet_error e = (step_pet_error e)\<lparr>err_diagnostic := None\<rparr>"

definition query_pet_error :: "pet_error \<Rightarrow> err" where
  "query_pet_error e = projected_pet_error (step_kind InvalidRequest OpQuery e) e False"

section \<open>What every projection promises\<close>

text \<open>The classes that mean that the process is gone.\<close>

definition ends_process :: "error_kind \<Rightarrow> bool" where
  "ends_process k \<longleftrightarrow> k = PetLost \<or> k = RequestCancelled \<or> k = ProofStepTimeout"

definition remote_range :: "pet_error \<Rightarrow> proof_diagnostic option" where
  "remote_range e = (case e of Remote _ _ _ d \<Rightarrow> d | _ \<Rightarrow> None)"

definition classifies :: "(pet_error \<Rightarrow> err) \<Rightarrow> bool \<Rightarrow> pet_error \<Rightarrow> bool" where
  "classifies project ranged e \<longleftrightarrow>
     (err_kind (project e) = PetLost \<longleftrightarrow> lost e)
     \<and> (ends_process (err_kind (project e)) \<longleftrightarrow> invalidates_process e)
     \<and> err_message (project e) = public_message e
     \<and> err_semantic (project e) = pet_is_semantic e
     \<and> err_diagnostic (project e) = (if ranged then remote_range e else None)"

locale error_projection =
  fixes project :: "pet_error \<Rightarrow> err" and ranged :: bool
  assumes cancelled: "err_kind (project Cancelled) = RequestCancelled"
    and timed_out: "err_kind (project (TimedOut ms)) = ProofStepTimeout"
    and transport: "lost e \<Longrightarrow> err_kind (project e) = PetLost"
    and others: "\<not> invalidates_process e \<Longrightarrow> \<not> ends_process (err_kind (project e))"
    and internal: "is_internal_failure e \<Longrightarrow> err_kind (project e) = PetFailure"
    and message: "err_message (project e) = public_message e"
    and semantic_flag: "err_semantic (project e) = pet_is_semantic e"
    and range: "err_diagnostic (project e) = (if ranged then remote_range e else None)"
begin

lemma ends_process_iff: "ends_process (err_kind (project e)) \<longleftrightarrow> invalidates_process e"
proof (cases "invalidates_process e")
  case True
  then consider "e = Cancelled" | ms where "e = TimedOut ms" | "lost e"
    by (auto simp: invalidates_process_def lost_def split: pet_error.splits)
  then show ?thesis using True cancelled timed_out transport by cases (auto simp: ends_process_def)
next
  case False
  with others show ?thesis by blast
qed

lemma classified: "classifies project ranged e"
proof -
  have "lost e" if "err_kind (project e) = PetLost"
  proof (rule ccontr)
    assume "\<not> lost e"
    then have "\<not> invalidates_process e"
      using that cancelled timed_out by (auto simp: invalidates_process_def lost_def split: pet_error.splits)
    with others that show False by (fastforce simp: ends_process_def)
  qed
  then show ?thesis 
    using transport ends_process_iff message semantic_flag range unfolding classifies_def by blast
qed

end

lemma semantic_simps [simp]:
  "err_diagnostic (semantic e) = err_diagnostic e" "err_resolution (semantic e) = err_resolution e"
  by (simp_all add: semantic_def)

lemma projected_simps [simp]:
  "err_kind (projected_pet_error k e b) = k" "err_message (projected_pet_error k e b) = public_message e"
  "err_semantic (projected_pet_error k e b) = pet_is_semantic e"
  "err_diagnostic (projected_pet_error k e b) = (if b then remote_range e else None)"
  by (simp_all add: projected_pet_error_def Let_def error_new_def semantic_def with_diagnostic_def
      remote_range_def split: option.splits pet_error.splits)

lemma remote_kind_stays: "\<not> ends_process (remote_pet_kind k op)"
  by (cases k; cases op) (simp_all add: ends_process_def)

lemma step_kind_laws:
  assumes "\<not> ends_process bad"
  shows "lost e \<Longrightarrow> step_kind bad op e = PetLost"
    and "\<not> invalidates_process e \<Longrightarrow> \<not> ends_process (step_kind bad op e)"
    and "is_internal_failure e \<Longrightarrow> step_kind bad op e = PetFailure"
proof -
  show "lost e \<Longrightarrow> step_kind bad op e = PetLost"
    by (cases e) (simp_all add: step_kind_def lost_def)
  show "\<not> invalidates_process e \<Longrightarrow> \<not> ends_process (step_kind bad op e)"
    using assms remote_kind_stays
    by (cases e) (simp_all add: step_kind_def lost_def invalidates_process_def ends_process_def)
  show "is_internal_failure e \<Longrightarrow> step_kind bad op e = PetFailure"
    by (cases e) (auto simp: step_kind_def lost_def is_internal_failure_def split: pet_remote_kind.splits)
qed

lemma declaration_simps [simp]:
  "err_kind (declaration_pet_error e) = step_kind InvalidDeclaration OpDeclaration e"
  "err_message (declaration_pet_error e) = public_message e"
  "err_semantic (declaration_pet_error e) = pet_is_semantic e"
  "err_diagnostic (declaration_pet_error e) = remote_range e"
  by (simp_all add: declaration_pet_error_def Let_def with_resolution_def remote_range_def
      split: pet_error.splits pet_remote_kind.splits)

lemma not_ending [simp]: "\<not> ends_process InvalidDeclaration" "\<not> ends_process InvalidRequest"
  by (simp_all add: ends_process_def)

lemma step_kind_fixed [simp]:
  "step_kind bad op Cancelled = RequestCancelled" "step_kind bad op (TimedOut ms) = ProofStepTimeout"
  by (simp_all add: step_kind_def)

interpretation declaring: error_projection declaration_pet_error True
  by unfold_locales (simp_all add: step_kind_laws)

interpretation stepping: error_projection step_pet_error True
  by unfold_locales (simp_all add: step_pet_error_def step_kind_laws)

interpretation finalizing: error_projection finalizer_pet_error False
  by unfold_locales (simp_all add: finalizer_pet_error_def step_pet_error_def step_kind_laws)

interpretation querying: error_projection query_pet_error False
  by unfold_locales (simp_all add: query_pet_error_def step_kind_laws)

lemma refresh_simps [simp]:
  "err_message (refresh_error e) = public_message e" "err_semantic (refresh_error e) = pet_is_semantic e"
  "err_diagnostic (refresh_error e) = None"
  by (simp_all add: refresh_error_def Let_def error_new_def semantic_def)

interpretation refreshing: error_projection refresh_error False
  by unfold_locales
    (auto simp: refresh_error_def Let_def lost_def invalidates_process_def ends_process_def is_internal_failure_def
      split: pet_error.splits pet_remote_kind.splits)

text \<open>
  C25. The error class tells whether the process is gone. For each of the five projections and every
  PET error: the class is \<open>PetLost\<close> exactly for a transport loss; it is one of \<open>PetLost\<close>,
  \<open>RequestCancelled\<close> and \<open>ProofStepTimeout\<close> exactly when the error invalidates the process, so the
  coordinator can decide from the class; the message is the public one; the semantic flag is PET's;
  and the range is kept for declarations and steps and never for finalizers, queries and refreshes,
  whose text is not the caller's.
\<close>

theorem pet_errors_classified:
  "classifies declaration_pet_error True e \<and> classifies step_pet_error True e
   \<and> classifies finalizer_pet_error False e \<and> classifies query_pet_error False e
   \<and> classifies refresh_error False e"
  using declaring.classified stepping.classified finalizing.classified querying.classified
    refreshing.classified by blast

end
