(* ===== verification/Engine_Project.thy ===== *)
theory Engine_Project
  imports Engine_Errors
begin

text \<open>
  The project side of \<open>rocq-engine/src/engine.rs\<close>: the paths that a project derives from its layout,
  the probe of the layout inputs with attach and refresh, validation of file and declaration
  identities, artifact fingerprints, the candidate index for symbols (\<open>.glob\<close> files and identifier
  search), and the rendering of goals. Directory listings and modification times are calls on the
  world.
\<close>

section \<open>Environment\<close>

datatype file_kind = KindDir | KindFile | KindOther

text \<open>An entry of \<open>read_dir\<close>; the entry itself or its type may be unavailable.\<close>

record dir_entry =
  entry_name :: string
  entry_kind :: "file_kind option"

record 'w engine_env = "'w fs_env" +
  command_timeout :: "nat option"
  read_dir :: "path \<Rightarrow> 'w \<Rightarrow> dir_entry option list option \<times> 'w"
  modified :: "path \<Rightarrow> 'w \<Rightarrow> nat option \<times> 'w"
  read_artifact :: "path \<Rightarrow> 'w \<Rightarrow> (bool + string) \<times> 'w"

section \<open>Paths of a project\<close>

definition validate_file_id :: "file_id \<Rightarrow> err + unit" where
  "validate_file_id file =
     (if file = [] \<or> path_is_absolute (path_of file)
         \<or> list_ex (\<lambda>c. case c of Normal _ \<Rightarrow> False | _ \<Rightarrow> True) (path_of file)
      then Inl (error_new InvalidRequest ''file must be a safe project-relative path'') else Inr ())"

definition project_source ::
  "('w, 'z) engine_env_scheme \<Rightarrow> dune_project \<Rightarrow> file_id \<Rightarrow> (('w, 's) sys_scheme, err, path) eff" where
  "project_source env pj file =
     and_then (lift_result (validate_file_id file)) (\<lambda>_.
     and_then (external (canonicalize env (path_join (pj_root pj) (path_of file)))) (\<lambda>r.
     and_then (lift_result (ok_or (error_new NotFound ''requested source file is unavailable'') r)) (\<lambda>p.
     if \<not> contains_file (pj_layout pj) p
     then throw (error_new NotFound ''Dune has not selected the requested source file'')
     else ret p)))"

definition project_build_root :: "('w, 'z) engine_env_scheme \<Rightarrow> dune_project \<Rightarrow> path" where
  "project_build_root env pj =
     (case dune_build_dir env of
        Some value \<Rightarrow> (let p = path_of value in if path_is_absolute p then p else path_join (pj_root pj) p)
      | None \<Rightarrow> path_join (pj_root pj) [Normal ''_build''])"

text \<open>\<open>PathBuf::set_extension\<close> on a path that ends with a file name.\<close>

definition with_extension :: "string \<Rightarrow> path \<Rightarrow> path" where
  "with_extension ext p =
     (case rev p of
        Normal name # rest \<Rightarrow> rev rest @ [Normal (file_stem name @ ''.'' @ ext)]
      | _ \<Rightarrow> p)"

definition artifact_path :: "('w, 'z) engine_env_scheme \<Rightarrow> dune_project \<Rightarrow> path \<Rightarrow> err + path" where
  "artifact_path env pj source =
     result_bind (project_build_target pj source) (\<lambda>target.
     Inr (path_join (path_join (project_build_root env pj) [Normal ''default'']) target))"

definition glob_path :: "('w, 'z) engine_env_scheme \<Rightarrow> dune_project \<Rightarrow> path \<Rightarrow> err + path" where
  "glob_path env pj source =
     result_bind (project_build_target pj source) (\<lambda>target.
     Inr (with_extension ''glob'' (path_join (path_join (project_build_root env pj) [Normal ''default'']) target)))"

definition pet_source ::
  "('w, 'z) engine_env_scheme \<Rightarrow> dune_project \<Rightarrow> path \<Rightarrow> (('w, 's) sys_scheme, err, path) eff" where
  "pet_source env pj source =
     and_then (lift_result (project_build_target pj source)) (\<lambda>target.
     let p = with_extension ''v'' (path_join (path_join (project_build_root env pj) [Normal ''default'']) target) in
     and_then (external (is_file env p)) (\<lambda>present. ret (if present then p else source)))"

definition project_library :: "dune_project \<Rightarrow> path \<Rightarrow> err + logical_library" where
  "project_library pj source = layout_library (pj_layout pj) source"

definition project_source_for_constant :: "dune_project \<Rightarrow> string \<Rightarrow> path option" where
  "project_source_for_constant pj constant = source_for_constant (pj_layout pj) constant"

definition project_files :: "dune_project \<Rightarrow> path list" where
  "project_files pj = layout_files (pj_layout pj)"

definition file_count :: "dune_project \<Rightarrow> nat" where
  "file_count pj = length (layout_files (pj_layout pj))"

section \<open>The probe of the layout inputs\<close>

definition LAYOUT_NAMES :: "string list" where
  "LAYOUT_NAMES = [''dune'', ''dune-project'', ''dune-workspace'', ''dune-workspace.dev'', ''_CoqProject'', ''_RocqProject'']"

definition relative_name :: "path \<Rightarrow> path \<Rightarrow> string" where
  "relative_name root p =
     backslash_to_slash (path_str (case path_strip_prefix root p of Some r \<Rightarrow> r | None \<Rightarrow> p))"

text \<open>\<open>Path::extension\<close> of a file name.\<close>

definition has_extension :: "string \<Rightarrow> string \<Rightarrow> bool" where
  "has_extension ext name \<longleftrightarrow> file_stem name \<noteq> name \<and> name = file_stem name @ ''.'' @ ext"

text \<open>
  The walk of \<open>visit\<close>. Its recursion is the depth of the directory tree: a directory below more than
  2048 others has a path longer than \<open>PATH_MAX\<close> (4096 bytes, two for each component), and reading it
  is an error, as the walk without fuel is. The entries of one directory come in the order of
  \<open>read_dir\<close>.
\<close>

type_synonym probe_entry = "string \<times> string option"

definition probe_file ::
  "('w, 'z) engine_env_scheme \<Rightarrow> path \<Rightarrow> path \<Rightarrow> string \<Rightarrow> probe_entry list
   \<Rightarrow> (('w, 's) sys_scheme, unit, probe_entry list) eff" where
  "probe_file env root p name entries =
     (if has_extension ''v'' name
      then ret (entries @ [(''source:'' @ relative_name root p, None)])
      else if name \<in> set LAYOUT_NAMES
      then and_then (io_value (read_file env p)) (\<lambda>bytes.
        ret (entries @ [(''layout:'' @ relative_name root p, Some bytes)]))
      else ret entries)"

fun visit ::
  "nat \<Rightarrow> ('w, 'z) engine_env_scheme \<Rightarrow> path \<Rightarrow> path \<Rightarrow> probe_entry list
   \<Rightarrow> (('w, 's) sys_scheme, unit, probe_entry list) eff" where
  "visit 0 env root directory entries = throw ()"
| "visit (Suc fuel) env root directory entries =
     and_then (io_value (read_dir env directory)) (\<lambda>listing.
     for_each (\<lambda>entry acc.
       case entry of
         None \<Rightarrow> throw ()
       | Some e \<Rightarrow>
           (let p = path_join directory [Normal (entry_name e)] in
            if entry_name e = ''.git'' \<or> entry_name e = ''_build'' \<or> entry_name e = ''target'' then ret acc
            else (case entry_kind e of
                None \<Rightarrow> throw ()
              | Some KindDir \<Rightarrow> visit fuel env root p acc
              | Some KindFile \<Rightarrow> probe_file env root p (entry_name e) acc
              | Some KindOther \<Rightarrow> ret acc))) listing entries)"

definition probe_bytes :: "probe_entry list \<Rightarrow> string" where
  "probe_bytes entries =
     concat (map (\<lambda>(name, contents). name @ [CHR 0x00] @ (case contents of Some c \<Rightarrow> c | None \<Rightarrow> []) @ [CHR 0xFF])
       (sort_key fst entries))"

definition layout_probe ::
  "('w, 'z) engine_env_scheme \<Rightarrow> path \<Rightarrow> (('w, 's) sys_scheme, err, digest) eff" where
  "layout_probe env root =
     and_then (map_err (\<lambda>_. invalid_conf ''project layout inputs are unavailable'') (visit 2048 env root root [])) (\<lambda>entries.
     ret (sha256 env (probe_bytes entries)))"

section \<open>Attach and refresh\<close>

definition attach ::
  "('w, 'z) engine_env_scheme \<Rightarrow> path \<Rightarrow> (('w, 's) sys_scheme, err, dune_project) eff" where
  "attach env requested =
     and_then (canonical_or env requested ''project path is unavailable'') (\<lambda>requested.
     and_then (layout_load env requested (command_timeout env)) (\<lambda>(root, l).
     and_then (layout_probe env root) (\<lambda>probe.
     ret \<lparr>pj_root = root, pj_layout = l, pj_probe = probe\<rparr>)))"

text \<open>The locked layout is replaced when it differs; the probe is replaced in any case. The result is
  whether the layout changed, with the project as the lock holds it afterwards.\<close>

definition replace_layout :: "layout \<Rightarrow> dune_project \<Rightarrow> bool \<times> dune_project" where
  "replace_layout l pj = (if pj_layout pj = l then (False, pj) else (True, pj\<lparr>pj_layout := l\<rparr>))"

definition refresh_project ::
  "('w, 'z) engine_env_scheme \<Rightarrow> dune_project \<Rightarrow> (('w, 's) sys_scheme, err, bool \<times> dune_project) eff" where
  "refresh_project env pj =
     and_then (layout_probe env (pj_root pj)) (\<lambda>probe.
     if probe = pj_probe pj then ret (False, pj)
     else
       and_then (layout_load env (pj_root pj) (command_timeout env)) (\<lambda>(root, l).
       if root \<noteq> pj_root pj
       then throw (invalid_conf ''Dune workspace identity changed; call start again'')
       else (case replace_layout l pj of (changed, pj') \<Rightarrow> ret (changed, pj'\<lparr>pj_probe := probe\<rparr>))))"

definition list_files :: "dune_project \<Rightarrow> err + file_id list" where
  "list_files pj =
     collect_results (\<lambda>p. result_map_err (error_new InvalidConfiguration) (file_id_from_path (pj_root pj) p))
       (project_files pj)"

section \<open>Identities and fragments\<close>

definition validate_identity :: "declaration_identity \<Rightarrow> err + unit" where
  "validate_identity d =
     result_bind (validate_file_id (id_file d)) (\<lambda>_.
     if qualified_path d = [] \<or> list_ex (\<lambda>part. part = []) (qualified_path d)
     then Inl (error_new InvalidDeclaration ''declaration path is empty'') else Inr ())"

definition relative_path :: "declaration_identity \<Rightarrow> logical_library \<Rightarrow> err + string list" where
  "relative_path d library =
     (if \<not> prefix library (qualified_path d) \<or> length (qualified_path d) \<le> length library
      then Inl (error_new InvalidDeclaration ''declaration path is outside its Dune logical library'')
      else Inr (drop (length library) (qualified_path d)))"

definition declared_identity :: "file_id \<Rightarrow> logical_library \<Rightarrow> string \<Rightarrow> err + declaration_identity" where
  "declared_identity file library name =
     (let parts = split_char (CHR ''.'') name in
      if list_ex (\<lambda>part. part = []) parts
      then Inl (error_new InvalidDeclaration ''name contains an empty component'')
      else if prefix library parts
      then Inl (error_new InvalidDeclaration ''name must not repeat its Dune compilation-unit prefix'')
      else Inr \<lparr>id_file = file, qualified_path = library @ parts\<rparr>)"

definition declaration_kind_of :: "string \<Rightarrow> declaration_kind option" where
  "declaration_kind_of value =
     map_of [(''Theorem'', KTheorem), (''Lemma'', KLemma), (''Fact'', KFact), (''Remark'', KRemark),
       (''Corollary'', KCorollary), (''Proposition'', KProposition), (''Definition'', KDefinition)] value"

definition validate_fragment :: "string \<Rightarrow> err + unit" where
  "validate_fragment fragment =
     (if trim fragment = [] then Inl (error_new InvalidRequest ''proof fragment is empty'')
      else if 1024 * 1024 < length fragment then Inl (error_new InvalidRequest ''proof fragment exceeds 1 MiB'')
      else Inr ())"

definition validate_fragments :: "string list \<Rightarrow> err + unit" where
  "validate_fragments fragments =
     (if fragments = [] \<or> 20 < length fragments
      then Inl (error_new InvalidRequest ''attempts must contain 1 to 20 fragments'')
      else result_bind (collect_results validate_fragment fragments) (\<lambda>_. Inr ()))"

section \<open>Artifacts\<close>

definition digest_if_present ::
  "('w, 'z) engine_env_scheme \<Rightarrow> path \<Rightarrow> (('w, 's) sys_scheme, err, digest option) eff" where
  "digest_if_present env p =
     and_then (external (read_artifact env p)) (\<lambda>r.
     case r of
       Inr bytes \<Rightarrow> ret (Some (sha256 env bytes))
     | Inl not_found \<Rightarrow> if not_found then ret None else throw (invalid_conf ''Dune artifact is unavailable''))"

definition read_or ::
  "('w, 'z) engine_env_scheme \<Rightarrow> path \<Rightarrow> err \<Rightarrow> (('w, 's) sys_scheme, err, string) eff" where
  "read_or env p e = and_then (external (read_file env p)) (\<lambda>r. lift_result (ok_or e r))"

definition artifact_fingerprint ::
  "('w, 'z) engine_env_scheme \<Rightarrow> dune_project \<Rightarrow> file_id \<Rightarrow> (('w, 's) sys_scheme, err, artifact_fingerprint) eff" where
  "artifact_fingerprint env pj file =
     and_then (project_source env pj file) (\<lambda>source.
     and_then (read_or env source (error_new DeclarationChanged ''target source is unavailable'')) (\<lambda>bytes.
     and_then (lift_result (artifact_path env pj source)) (\<lambda>artifact.
     and_then (digest_if_present env artifact) (\<lambda>vo.
     and_then (digest_if_present env (with_extension ''glob'' artifact)) (\<lambda>glob.
     ret \<lparr>af_source = sha256 env bytes, af_vo = vo, af_glob = glob\<rparr>)))))"

definition reconcile_source ::
  "('w, 'z) engine_env_scheme \<Rightarrow> dune_project \<Rightarrow> file_id \<Rightarrow> (('w, 's) sys_scheme, err, artifact_fingerprint) eff" where
  "reconcile_source env pj file =
     and_then (project_source env pj file) (\<lambda>source.
     and_then (native_build env pj source (command_timeout env)) (\<lambda>_.
     artifact_fingerprint env pj file))"

section \<open>The candidate index for symbols\<close>

definition symbol_match_kind :: "string \<Rightarrow> string \<Rightarrow> string \<Rightarrow> string option" where
  "symbol_match_kind qualified leaf symbol =
     (if qualified = symbol then Some ''exact''
      else if CHR ''.'' \<in> set symbol \<and> str_ends_with qualified (''.'' @ symbol) then Some ''suffix''
      else if CHR ''.'' \<notin> set symbol \<and> leaf = symbol then Some ''leaf''
      else None)"

definition match_rank :: "string \<Rightarrow> nat" where
  "match_rank k = (if k = ''exact'' then 0 else if k = ''suffix'' then 1 else if k = ''leaf'' then 2 else 3)"

text \<open>\<open>rsplit('.').next()\<close>\<close>

definition last_part :: "string \<Rightarrow> string" where
  "last_part symbol = last (split_char (CHR ''.'') symbol)"

text \<open>\<open>str::lines\<close> and \<open>split_whitespace\<close>.\<close>

definition strip_cr :: "string \<Rightarrow> string" where
  "strip_cr line = (if suffix [CHR 0x0D] line then butlast line else line)"

definition text_lines :: "string \<Rightarrow> string list" where
  "text_lines s =
     (let parts = split_char (CHR 0x0A) s
      in map strip_cr (if last parts = [] then butlast parts else parts))"

fun blank_split :: "string list \<Rightarrow> string \<Rightarrow> string list" where
  "blank_split [] word = (if word = [] then [] else [word])"
| "blank_split (c # cs) word =
     (if char_whitespace c then (if word = [] then blank_split cs [] else word # blank_split cs [])
      else blank_split cs (word @ c))"

definition split_whitespace :: "string \<Rightarrow> string list" where
  "split_whitespace s = blank_split (utf8_chars s) []"

definition glob_line_matches :: "string \<Rightarrow> string \<Rightarrow> string \<Rightarrow> bool" where
  "glob_line_matches module symbol line \<longleftrightarrow>
     (if line = [] \<or> prefix ''R'' line then False
      else (case split_whitespace line of
          _ # _ # section # name # _ \<Rightarrow>
            (let qualified = (if section = ''<>'' then module @ ''.'' @ name
                  else module @ ''.'' @ section @ ''.'' @ name)
             in symbol_match_kind qualified name symbol \<noteq> None
                \<or> CHR ''.'' \<in> set symbol
                    \<and> (str_ends_with qualified (''.'' @ symbol) \<or> name = last_part symbol)
                \<or> CHR ''.'' \<notin> set symbol \<and> name = last_part symbol)
        | _ \<Rightarrow> False))"

definition glob_text_matches :: "string \<Rightarrow> string \<Rightarrow> bool option" where
  "glob_text_matches text symbol =
     (case text_lines text of
        _ # header # rest \<Rightarrow>
          (if prefix ''F'' header then Some (list_ex (glob_line_matches (tl header) symbol) rest) else None)
      | _ \<Rightarrow> None)"

definition glob_matches ::
  "('w, 'z) engine_env_scheme \<Rightarrow> path \<Rightarrow> path \<Rightarrow> string \<Rightarrow> (('w, 's) sys_scheme, err, bool option) eff" where
  "glob_matches env source glob symbol =
     and_then (external (modified env source)) (\<lambda>source_time.
     case source_time of
       None \<Rightarrow> ret None
     | Some st \<Rightarrow>
         and_then (external (modified env glob)) (\<lambda>glob_time.
         case glob_time of
           None \<Rightarrow> ret None
         | Some gt \<Rightarrow>
             (if gt < st then ret None
              else and_then (external (read_file env glob)) (\<lambda>bytes.
                ret (Option.bind (utf8_text bytes) (\<lambda>text. glob_text_matches text symbol))))))"

text \<open>The search for a whole identifier, on the characters of the source.\<close>

definition identifier_char :: "(string \<Rightarrow> bool) \<Rightarrow> string \<Rightarrow> bool" where
  "identifier_char unicode c \<longleftrightarrow> c = ''_'' \<or> c = [CHR 0x27] \<or> char_alphanumeric unicode c"

fun sub_find :: "'a list \<Rightarrow> 'a list \<Rightarrow> nat option" where
  "sub_find p [] = (if p = [] then Some 0 else None)"
| "sub_find p (c # s) = (if prefix p (c # s) then Some 0 else map_option Suc (sub_find p s))"

lemma sub_find_Some:
  "sub_find p s = Some i \<Longrightarrow> i + length p \<le> length s \<and> prefix p (drop i s) \<and> (\<forall>j < i. \<not> prefix p (drop j s))"
proof (induction s arbitrary: i)
  case (Cons c s)
  show ?case
  proof (cases "prefix p (c # s)")
    case True
    with Cons.prems show ?thesis by (auto dest: prefix_length_le)
  next
    case False
    with Cons.prems obtain k where k: "i = Suc k" "sub_find p s = Some k" by auto
    have "\<not> prefix p (drop j (c # s))" if "j < i" for j
      using that Cons.IH [OF k(2)] k(1) False by (cases j) auto
    with Cons.IH [OF k(2)] k(1) show ?thesis by auto
  qed
qed (auto split: if_splits)

lemma sub_find_None: "sub_find p s = None \<Longrightarrow> \<not> prefix p (drop j s)"
proof (induction s arbitrary: j)
  case (Cons c s)
  then show ?case by (cases j) (auto split: if_splits)
qed (auto split: if_splits)

definition char_before :: "'a list \<Rightarrow> nat \<Rightarrow> 'a option" where
  "char_before s i = (if i = 0 then None else Some (s ! (i - 1)))"

definition char_at :: "'a list \<Rightarrow> nat \<Rightarrow> 'a option" where
  "char_at s i = (if i < length s then Some (s ! i) else None)"

definition some_identifier :: "(string \<Rightarrow> bool) \<Rightarrow> string option \<Rightarrow> bool" where
  "some_identifier unicode c \<longleftrightarrow> (case c of None \<Rightarrow> False | Some x \<Rightarrow> identifier_char unicode x)"

function identifier_from :: "(string \<Rightarrow> bool) \<Rightarrow> string list \<Rightarrow> string list \<Rightarrow> nat \<Rightarrow> bool" where
  "identifier_from unicode source needle offset =
     (if needle = [] then False
      else (case sub_find needle (drop offset source) of
          None \<Rightarrow> False
        | Some relative \<Rightarrow>
            (let start = offset + relative; last = start + length needle in
             if \<not> some_identifier unicode (char_before source start) \<and> \<not> some_identifier unicode (char_at source last)
             then True
             else if length source \<le> last then False
             else identifier_from unicode source needle last)))"
  by pat_completeness auto
termination
  by (relation "measure (\<lambda>(_, source, _, offset). length source - offset)") (auto simp flip: length_greater_0_conv)

declare identifier_from.simps [simp del]

definition contains_identifier :: "(string \<Rightarrow> bool) \<Rightarrow> string \<Rightarrow> string \<Rightarrow> bool" where
  "contains_identifier unicode source needle =
     (if needle = [] then False else identifier_from unicode (utf8_chars source) (utf8_chars needle) 0)"

text \<open>The reference: some occurrence is not part of a longer identifier.\<close>

definition whole_at :: "(string \<Rightarrow> bool) \<Rightarrow> string list \<Rightarrow> string list \<Rightarrow> nat \<Rightarrow> bool" where
  "whole_at unicode source needle i \<longleftrightarrow> prefix needle (drop i source) \<and> i + length needle \<le> length source
     \<and> \<not> some_identifier unicode (char_before source i)
     \<and> \<not> some_identifier unicode (char_at source (i + length needle))"

definition occurs_whole :: "(string \<Rightarrow> bool) \<Rightarrow> string \<Rightarrow> string \<Rightarrow> bool" where
  "occurs_whole unicode source needle \<longleftrightarrow>
     needle \<noteq> [] \<and> (\<exists>i. whole_at unicode (utf8_chars source) (utf8_chars needle) i)"

text \<open>An occurrence that overlaps an earlier one follows a character of the needle.\<close>

lemma overlap_before:
  assumes "prefix needle (drop i source)" and "i < j" and "j < i + length needle" and "i + length needle \<le> length source"
  shows "char_before source j = Some (needle ! (j - 1 - i))"
proof -
  obtain rest where "drop i source = needle @ rest" using assms(1) by (auto simp: prefix_def)
  moreover have "j - 1 - i < length needle" using assms(2,3) by linarith
  ultimately have "needle ! (j - 1 - i) = drop i source ! (j - 1 - i)"
    by (simp only: nth_append if_True)
  also have "\<dots> = source ! (j - 1)" using assms(2,3,4) by simp
  finally show ?thesis using assms(2) by (simp add: char_before_def)
qed

lemma identifier_from_iff:
  assumes "needle \<noteq> []" and "list_all (identifier_char unicode) needle"
  shows "identifier_from unicode source needle offset \<longleftrightarrow> (\<exists>i \<ge> offset. whole_at unicode source needle i)"
proof (induction "length source - offset" arbitrary: offset rule: less_induct)
  case less
  show ?case
  proof (cases "sub_find needle (drop offset source)")
    case None
    have "\<not> prefix needle (drop i source)" if "offset \<le> i" for i
      using sub_find_None [OF None, of "i - offset"] that by simp
    with None assms(1) show ?thesis by (subst identifier_from.simps) (auto simp: whole_at_def)
  next
    case (Some r)
    let ?start = "offset + r" and ?last = "offset + r + length needle"
    have pos: "0 < length needle" using assms(1) by simp
    from sub_find_Some [OF Some] have found: "r + length needle \<le> length source - offset"
      "prefix needle (drop r (drop offset source))" "\<And>j. j < r \<Longrightarrow> \<not> prefix needle (drop j (drop offset source))"
      by auto
    have occ: "prefix needle (drop ?start source)" "?last \<le> length source"
      using found(2) apply (simp add: add.commute)
      using found(1) pos by linarith
    have first: "\<not> prefix needle (drop (offset + j) source)" if "j < r" for j
      using found(3) [OF that] by (simp add: add.commute)
    have noskip: "\<not> whole_at unicode source needle i" if "offset \<le> i" "i < ?last" "i \<noteq> ?start" for i
    proof (cases "i < ?start")
      case True
      with first [of "i - offset"] that show ?thesis by (simp add: whole_at_def)
    next
      case False
      with that have "?start < i" by simp
      from overlap_before [OF occ(1) this] that(2) occ(2)
      have before: "char_before source i = Some (needle ! (i - 1 - ?start))" by simp
      have "i - 1 - ?start < length needle" using that(2) \<open>?start < i\<close> by simp
      with assms(2) have "identifier_char unicode (needle ! (i - 1 - ?start))" by (simp add: list_all_length)
      with before show ?thesis by (simp add: whole_at_def some_identifier_def)
    qed
    have step: "identifier_from unicode source needle offset \<longleftrightarrow> whole_at unicode source needle ?start
        \<or> (\<not> length source \<le> ?last \<and> identifier_from unicode source needle ?last)"
      using Some assms(1) occ by (subst identifier_from.simps) (simp add: whole_at_def Let_def)
    show ?thesis
    proof (cases "whole_at unicode source needle ?start")
      case True
      with step show ?thesis by (metis le_add1)
    next
      case False
      have later: "(\<exists>i \<ge> offset. whole_at unicode source needle i) \<longleftrightarrow> (\<exists>i \<ge> ?last. whole_at unicode source needle i)"
        using noskip False by (metis add.assoc le_add1 le_trans not_le)
      show ?thesis
      proof (cases "length source \<le> ?last")
        case True
        have "\<not> whole_at unicode source needle i" if "?last \<le> i" for i
          using that True pos by (auto simp: whole_at_def)
        with True False step later show ?thesis by blast
      next
        case inner: False
        have "length source - ?last < length source - offset"
          using inner pos by linarith
        from less [OF this] inner False step later show ?thesis by blast
      qed
    qed
  qed
qed

text \<open>
  C33. The identifier search is exact. For a needle of identifier characters, \<open>contains_identifier\<close>,
  which skips past each rejected occurrence, answers true exactly when the text has the needle as a
  whole identifier: the skipped overlaps can never be whole. So the fallback index has neither false
  negatives nor substring matches.
\<close>

theorem contains_identifier_exact:
  assumes "list_all (identifier_char unicode) (utf8_chars needle)"
  shows "contains_identifier unicode source needle \<longleftrightarrow> occurs_whole unicode source needle"
proof (cases "needle = []")
  case False
  then have "utf8_chars needle \<noteq> []" using concat_utf8_chars [of needle] by fastforce
  from identifier_from_iff [OF this assms, of "utf8_chars source" 0] False show ?thesis
    by (simp add: contains_identifier_def occurs_whole_def)
qed (simp add: contains_identifier_def occurs_whole_def)

theorem contains_identifier_exact_witness:
  "list_all (identifier_char (\<lambda>_. False)) (utf8_chars ''sound'')
   \<and> occurs_whole (\<lambda>_. False) ''unsound. sound.'' ''sound''
   \<and> \<not> occurs_whole (\<lambda>_. False) ''unsound sounds'' ''sound''"
proof -
  note eval = utf8_chars_ascii byte_def
  have ok: "list_all (identifier_char (\<lambda>_. False)) (utf8_chars ''sound'')"
    by (simp add: eval identifier_char_def char_alphanumeric_def between_def)
  have "contains_identifier (\<lambda>_. False) ''unsound. sound.'' ''sound''"
    "\<not> contains_identifier (\<lambda>_. False) ''unsound sounds'' ''sound''"
    by (simp_all add: contains_identifier_def identifier_from.simps eval char_before_def char_at_def
        some_identifier_def identifier_char_def char_alphanumeric_def between_def Let_def)
  with contains_identifier_exact [OF ok] ok show ?thesis by blast
qed

text \<open>The probe separates a file name from its contents by a zero byte and ends it with \<open>0xFF\<close>, but
  contents may hold both: two different listings can have the same bytes, hence the same probe.\<close>

lemma probe_bytes_collide:
  "probe_bytes [(''layout:dune'', Some ([CHR 0xFF] @ ''source:b.v'' @ [CHR 0x00]))] =
   probe_bytes [(''layout:dune'', Some []), (''source:b.v'', None)]"
  by (simp add: probe_bytes_def)

section \<open>Goals as text and as data\<close>

definition goal_detail_of :: "pet_goal \<Rightarrow> goal_detail" where
  "goal_detail_of g =
     \<lparr>gd_evar = pg_evar g, gd_name = pg_name g,
      gd_hypotheses = map (\<lambda>h. \<lparr>hyp_names = ph_names h, hyp_definition = ph_definition h, hyp_ty = ph_ty h\<rparr>) (pg_hypotheses g),
      gd_ty = pg_ty g\<rparr>"

definition structured_goals_of :: "pet_goals \<Rightarrow> structured_goals" where
  "structured_goals_of g =
     (let stack = map (\<lambda>f. \<lparr>detail_left = map goal_detail_of (pf_left f), detail_right = map goal_detail_of (pf_right f)\<rparr>) (pgs_stack g)
      in \<lparr>sg_focused = map goal_detail_of (pgs_focused g), sg_stack = stack,
          sg_unfocused = concat (map (\<lambda>f. detail_left f @ detail_right f) stack),
          sg_shelved = map goal_detail_of (pgs_shelved g), sg_given_up = map goal_detail_of (pgs_given_up g),
          sg_next_bullet = pgs_bullet g\<rparr>)"

definition render_hypothesis :: "pet_hypothesis \<Rightarrow> string" where
  "render_hypothesis h =
     (case ph_definition h of
        Some value \<Rightarrow> join '' '' (ph_names h) @ '' := '' @ value @ '' : '' @ ph_ty h
      | None \<Rightarrow> join '' '' (ph_names h) @ '' : '' @ ph_ty h)"

definition render_goal :: "pet_goal \<Rightarrow> nat \<Rightarrow> string" where
  "render_goal g index =
     join [CHR 0x0A]
       ((case pg_name g of Some name \<Rightarrow> [''goal '' @ show_nat (index + 1) @ '' ('' @ name @ '')''] | None \<Rightarrow> [])
        @ map render_hypothesis (pg_hypotheses g)
        @ [''============================'', pg_ty g])"

definition selected_goals :: "pet_goals \<Rightarrow> goal_scope \<Rightarrow> pet_goal list" where
  "selected_goals g scope =
     (if scope = Focused \<or> scope = AllGoals then pgs_focused g else [])
     @ (if scope = Unfocused \<or> scope = AllGoals then concat (map (\<lambda>f. pf_left f @ pf_right f) (pgs_stack g)) else [])
     @ (if scope = Shelved \<or> scope = AllGoals then pgs_shelved g else [])
     @ (if scope = GivenUp \<or> scope = AllGoals then pgs_given_up g else [])"

definition render_goals :: "pet_goals \<Rightarrow> goal_scope \<Rightarrow> json list option \<Rightarrow> string option" where
  "render_goals g scope goal_id =
     (case goal_id of
        Some i \<Rightarrow> map_option (\<lambda>goal. render_goal goal 0) (find (\<lambda>goal. pg_evar goal = i) (selected_goals g scope))
      | None \<Rightarrow> Some (join ([CHR 0x0A] @ [CHR 0x0A])
          (map (\<lambda>(index, goal). render_goal goal index) (List.enumerate 0 (selected_goals g scope)))))"

definition proof_state_with_rendering :: "declaration_info \<Rightarrow> pet_goals \<Rightarrow> string \<Rightarrow> proof_state" where
  "proof_state_with_rendering di g rendered =
     \<lparr>ps_theorem = di, ps_lifecycle = Open, ps_goals = rendered, ps_goal_focus = pet_focus g,
      ps_structured_goals = None\<rparr>"

text \<open>The rendering without a goal identifier always exists (\<open>render_goals_none\<close>), so the \<open>expect\<close>
  of the source cannot fail.\<close>

definition proof_state_of :: "declaration_info \<Rightarrow> pet_goals \<Rightarrow> proof_state" where
  "proof_state_of di g = proof_state_with_rendering di g (case render_goals g Focused None of Some t \<Rightarrow> t | None \<Rightarrow> [])"

definition completed_state :: "declaration_info \<Rightarrow> proof_state" where
  "completed_state di =
     \<lparr>ps_theorem = di, ps_lifecycle = Completed, ps_goals = [],
      ps_goal_focus = \<lparr>gf_focused = [], gf_stack = [], gf_shelved = [], gf_given_up = [], gf_next_bullet = None\<rparr>,
      ps_structured_goals = None\<rparr>"

lemma render_goals_none [simp]: "render_goals g scope None \<noteq> None"
  by (simp add: render_goals_def)

text \<open>The two projections of one PET answer agree: same identifiers in the same places, same counts.\<close>

lemma structured_agrees:
  "map gd_evar (sg_focused (structured_goals_of g)) = gf_focused (pet_focus g)"
  "map gd_evar (sg_shelved (structured_goals_of g)) = gf_shelved (pet_focus g)"
  "map gd_evar (sg_given_up (structured_goals_of g)) = gf_given_up (pet_focus g)"
  "structured_total_count (structured_goals_of g) = total_count (pet_focus g)"
  by (simp_all add: structured_goals_of_def pet_focus_def goal_ids_def goal_detail_of_def Let_def comp_def
      structured_total_count_def total_count_def unfocused_count_def length_concat)

end
