(* ===== verification/Engine.thy ===== *)
theory Engine
  imports Engine_Project "HOL-Library.Product_Lexorder"
begin

text \<open>
  The operations of \<open>Engine\<close> (\<open>rocq-engine/src/engine.rs\<close>): declarations of a source as PET reports
  them, symbol lookup, opening, declaring and replaying a proof, running fragments, goals, queries,
  closing, the trust audit and publication. The engine keeps no state of its own: an operation reads
  the project, calls the actor and the file system, and releases every PET state it does not return.
\<close>

section \<open>Declarations\<close>

record resolved_declaration =
  rd_identity :: declaration_identity
  rd_target :: "declaration_target option"
  rd_proof_finished :: bool
  rd_explicit_axiom :: bool

definition row_consistent :: "nat \<Rightarrow> pet_declaration \<Rightarrow> bool" where
  "row_consistent len row \<longleftrightarrow>
     \<not> (pd_qualified_path row = []
        \<or> pr_end (pd_range row) \<le> pr_start (pd_range row)
        \<or> pr_start (pd_declaration_range row) \<noteq> pr_start (pd_range row)
        \<or> pr_end (pd_declaration_range row) < pr_end (pd_range row)
        \<or> len < pr_end (pd_declaration_range row))"

definition ranges_meet :: "pet_range \<Rightarrow> pet_range \<Rightarrow> bool" where
  "ranges_meet a b \<longleftrightarrow> pr_start a < pr_end b \<and> pr_start b < pr_end a"

definition replaceable_declaration_ranges :: "pet_declaration list \<Rightarrow> bool list" where
  "replaceable_declaration_ranges rows =
     map (\<lambda>i. \<not> list_ex (\<lambda>j. i \<noteq> j
            \<and> ranges_meet (pd_declaration_range (rows ! i)) (pd_declaration_range (rows ! j))) [0 ..< length rows])
       [0 ..< length rows]"

definition declaration_target_of ::
  "path \<Rightarrow> digest \<Rightarrow> file_id \<Rightarrow> pet_declaration \<Rightarrow> bool \<Rightarrow> declaration_kind \<Rightarrow> declaration_target" where
  "declaration_target_of source digest file row replaceable_row k =
     \<lparr>info = \<lparr>identity = \<lparr>id_file = file, qualified_path = pd_qualified_path row\<rparr>, kind = k,
         statement = pd_statement row\<rparr>,
      anchor = \<lparr>anchor_source = source, anchor_digest = digest, anchor_header = pd_range row,
         anchor_declaration = pd_declaration_range row, replaceable = replaceable_row\<rparr>,
      new_header = None\<rparr>"

definition quoted :: "string \<Rightarrow> string" where
  "quoted s = [CHR 0x27] @ s @ [CHR 0x27]"

text \<open>The rows in order, with the identities seen so far.\<close>

fun resolve_rows ::
  "path \<Rightarrow> digest \<Rightarrow> file_id \<Rightarrow> logical_library \<Rightarrow> declaration_identity list \<Rightarrow> (pet_declaration \<times> bool) list
   \<Rightarrow> err + resolved_declaration list" where
  "resolve_rows source digest file library seen [] = Inr []"
| "resolve_rows source digest file library seen ((row, replaceable_row) # rows) =
     (if \<not> prefix library (pd_qualified_path row) \<or> length (pd_qualified_path row) \<le> length library
      then Inl (invalid_conf (''declaration path '' @ quoted (join ''.'' (pd_qualified_path row))
          @ '' disagrees with Dune compilation unit '' @ quoted (join ''.'' library)))
      else
        (let d = \<lparr>id_file = file, qualified_path = pd_qualified_path row\<rparr> in
         if d \<in> set seen then Inl (error_new Ambiguous ''declaration identity is ambiguous'')
         else
           result_bind (resolve_rows source digest file library (d # seen) rows) (\<lambda>rest.
           Inr (\<lparr>rd_identity = d,
                 rd_target = map_option (declaration_target_of source digest file row replaceable_row)
                   (declaration_kind_of (pd_kind row)),
                 rd_proof_finished = pd_proof_finished row,
                 rd_explicit_axiom = (pd_kind row = ''Axiom'')\<rparr> # rest))))"

definition declaration_rows ::
  "path \<Rightarrow> digest \<Rightarrow> file_id \<Rightarrow> logical_library \<Rightarrow> nat \<Rightarrow> pet_declaration list \<Rightarrow> err + resolved_declaration list" where
  "declaration_rows source digest file library len rows =
     (if \<not> list_all (row_consistent len) rows
      then Inl (invalid_conf ''declaration metadata is inconsistent with the selected source bytes'')
      else resolve_rows source digest file library [] (zip rows (replaceable_declaration_ranges rows)))"

definition declarations ::
  "('w, 'z) engine_env_scheme \<Rightarrow> dune_project \<Rightarrow> file_id \<Rightarrow> (('w, 's) sys_scheme, err, resolved_declaration list) eff" where
  "declarations env pj file =
     and_then (project_source env pj file) (\<lambda>source.
     and_then (lift_result (project_workspace pj source)) (\<lambda>ws.
     and_then (pet_source env pj source) (\<lambda>document.
     and_then (map_err declaration_pet_error (document_declarations env ws document)) (\<lambda>rows.
     and_then (read_or env source (error_new DeclarationChanged ''declaration source is unavailable'')) (\<lambda>bytes.
     and_then (lift_result (project_library pj source)) (\<lambda>library.
     lift_result (declaration_rows source (sha256 env bytes) file library (length bytes) rows)))))))"

definition resolve ::
  "('w, 'z) engine_env_scheme \<Rightarrow> dune_project \<Rightarrow> declaration_identity \<Rightarrow> (('w, 's) sys_scheme, err, resolved_declaration) eff" where
  "resolve env pj d =
     and_then (declarations env pj (id_file d)) (\<lambda>rows.
     lift_result (ok_or (error_new NotFound ''declaration is not present in the selected source context'')
       (find (\<lambda>r. rd_identity r = d) rows)))"

definition list_decls ::
  "('w, 'z) engine_env_scheme \<Rightarrow> dune_project \<Rightarrow> file_id \<Rightarrow> (('w, 's) sys_scheme, err, declaration_info list) eff" where
  "list_decls env pj file =
     and_then (declarations env pj file) (\<lambda>rows. ret (map info (List.map_filter rd_target rows)))"

section \<open>Symbols\<close>

definition candidate_file ::
  "('w, 'z) engine_env_scheme \<Rightarrow> dune_project \<Rightarrow> string \<Rightarrow> file_id \<Rightarrow> file_id list
   \<Rightarrow> (('w, 's) sys_scheme, err, file_id list) eff" where
  "candidate_file env pj symbol file acc =
     and_then (observe_signal env) (\<lambda>c.
     if request_cancelled c then throw (error_new RequestCancelled ''symbol lookup cancelled'')
     else
       and_then (project_source env pj file) (\<lambda>source.
       and_then (case glob_path env pj source of Inl _ \<Rightarrow> ret None | Inr glob \<Rightarrow> glob_matches env source glob symbol) (\<lambda>indexed.
       and_then (case indexed of
           Some matches \<Rightarrow> ret matches
         | None \<Rightarrow>
             and_then (read_or env source (error_new DeclarationChanged ''declaration source is unavailable'')) (\<lambda>bytes.
             ret (contains_identifier (unicode_alphanumeric env) (utf8_lossy env bytes) (last_part symbol)))) (\<lambda>candidate.
       ret (if candidate then acc @ [file] else acc)))))"

definition locate_symbol_candidates ::
  "('w, 'z) engine_env_scheme \<Rightarrow> dune_project \<Rightarrow> string \<Rightarrow> (('w, 's) sys_scheme, err, file_id list) eff" where
  "locate_symbol_candidates env pj text =
     (let symbol = trim text in
      if symbol = [] then throw (error_new InvalidRequest ''symbol must not be empty'')
      else
        and_then (lift_result (list_files pj)) (\<lambda>files.
        case (if CHR ''.'' \<in> set symbol then project_source_for_constant pj symbol else None) of
          None \<Rightarrow> for_each (candidate_file env pj symbol) files []
        | Some source \<Rightarrow>
            lift_result (result_bind (result_map_err (error_new InvalidConfiguration)
              (file_id_from_path (pj_root pj) source)) (\<lambda>file. Inr [file]))))"

definition symbol_location_of :: "logical_library \<Rightarrow> declaration_info \<Rightarrow> string \<Rightarrow> symbol_location" where
  "symbol_location_of library d match_kind =
     \<lparr>sl_identity = identity d, sl_qualified_name = qualified_name (identity d), sl_kind = kind d,
      sl_statement = statement d, sl_require_import = ''Require Import '' @ join ''.'' library @ ''.'',
      sl_match_kind = match_kind\<rparr>"

text \<open>The declarations of one document, until the limit is reached.\<close>

fun collect_matches ::
  "nat \<Rightarrow> logical_library \<Rightarrow> string \<Rightarrow> declaration_info list \<Rightarrow> symbol_location list \<Rightarrow> symbol_location list" where
  "collect_matches limit library symbol [] acc = acc"
| "collect_matches limit library symbol (d # ds) acc =
     (let q = qualified_name (identity d);
          leaf = (if qualified_path (identity d) = [] then [] else last (qualified_path (identity d))) in
      case symbol_match_kind q leaf symbol of
        None \<Rightarrow> collect_matches limit library symbol ds acc
      | Some k \<Rightarrow>
          (let acc' = acc @ [symbol_location_of library d k] in
           if limit \<le> length acc' then acc' else collect_matches limit library symbol ds acc'))"

fun resolve_files ::
  "('w, 'z) engine_env_scheme \<Rightarrow> dune_project \<Rightarrow> string \<Rightarrow> nat \<Rightarrow> file_id list \<Rightarrow> symbol_location list
   \<Rightarrow> (('w, 's) sys_scheme, err, symbol_location list) eff" where
  "resolve_files env pj symbol limit [] acc = ret acc"
| "resolve_files env pj symbol limit (file # files) acc =
     and_then (observe_signal env) (\<lambda>c.
     if request_cancelled c then throw (error_new RequestCancelled ''symbol lookup cancelled'')
     else
       and_then (project_source env pj file) (\<lambda>source.
       and_then (lift_result (project_library pj source)) (\<lambda>library.
       and_then (list_decls env pj file) (\<lambda>ds.
       let acc' = collect_matches limit library symbol ds acc in
       if limit \<le> length acc' then ret acc' else resolve_files env pj symbol limit files acc'))))"

definition location_key :: "symbol_location \<Rightarrow> nat \<times> string \<times> string" where
  "location_key l = (match_rank (sl_match_kind l), sl_qualified_name l, id_file (sl_identity l))"

definition resolve_symbol_candidates ::
  "('w, 'z) engine_env_scheme \<Rightarrow> dune_project \<Rightarrow> string \<Rightarrow> nat \<Rightarrow> file_id list
   \<Rightarrow> (('w, 's) sys_scheme, err, symbol_location list) eff" where
  "resolve_symbol_candidates env pj text limit files =
     (let symbol = trim text; bound = max 1 (min limit 101) in
      if symbol = [] then throw (error_new InvalidRequest ''symbol must not be empty'')
      else
        and_then (resolve_files env pj symbol bound files []) (\<lambda>found.
        ret (take bound (sort_key location_key found))))"

definition locate_symbols ::
  "('w, 'z) engine_env_scheme \<Rightarrow> dune_project \<Rightarrow> string \<Rightarrow> nat \<Rightarrow> (('w, 's) sys_scheme, err, symbol_location list) eff" where
  "locate_symbols env pj symbol limit =
     and_then (locate_symbol_candidates env pj symbol) (\<lambda>files.
     resolve_symbol_candidates env pj symbol limit files)"

section \<open>Opening a proof\<close>

definition validate_target ::
  "('w, 'z) engine_env_scheme \<Rightarrow> dune_project \<Rightarrow> declaration_target \<Rightarrow> (('w, 's) sys_scheme, err, unit) eff" where
  "validate_target env pj target =
     and_then (map_err (\<lambda>e. if err_kind e = NotFound
         then error_new DeclarationChanged ''Dune no longer selects the proof's source file'' else e)
       (project_source env pj (id_file (identity (info target))))) (\<lambda>selected.
     and_then (when_err (selected \<noteq> anchor_source (anchor target))
       (error_new DeclarationChanged ''Dune source selection changed'')) (\<lambda>_.
     and_then (read_or env selected (error_new DeclarationChanged ''target source is unavailable'')) (\<lambda>bytes.
     when_err (sha256 env bytes \<noteq> anchor_digest (anchor target))
       (error_new DeclarationChanged ''target source changed while proof was open''))))"

definition safe_open :: "pet_execution \<Rightarrow> bool" where
  "safe_open x \<longleftrightarrow> pgs_proof_mode (px_goals x) \<and> pgs_given_up (px_goals x) = []"

definition require_open_proof :: "pet_execution \<Rightarrow> err + unit" where
  "require_open_proof x =
     (if \<not> safe_open x then Inl (error_new InvalidDeclaration ''the declaration did not open a safe proof state'')
      else Inr ())"

definition opened_of :: "declaration_target \<Rightarrow> pet_execution \<Rightarrow> opened_proof" where
  "opened_of target x =
     \<lparr>op_target = target, op_state = px_state x, op_view = proof_state_of (info target) (px_goals x),
      op_finished = px_proof_finished x\<rparr>"

text \<open>\<open>if let Err(error) = require_open_proof(..) { release; return Err }\<close>, the end of every opening.\<close>

definition finish_open ::
  "('w, 'z) engine_env_scheme \<Rightarrow> declaration_target \<Rightarrow> pet_execution \<Rightarrow> (('w, 's) sys_scheme, err, opened_proof) eff" where
  "finish_open env target x =
     (case require_open_proof x of
        Inl e \<Rightarrow> and_then (map_err declaration_pet_error (release_states env [px_state x])) (\<lambda>_. throw e)
      | Inr _ \<Rightarrow> ret (opened_of target x))"

definition open_target ::
  "('w, 'z) engine_env_scheme \<Rightarrow> dune_project \<Rightarrow> declaration_target \<Rightarrow> (('w, 's) sys_scheme, err, opened_proof) eff" where
  "open_target env pj target =
     and_then (lift_result (project_workspace pj (anchor_source (anchor target)))) (\<lambda>ws.
     and_then (pet_source env pj (anchor_source (anchor target))) (\<lambda>document.
     and_then (map_err declaration_pet_error
       (state_at env ws document (pr_end (anchor_header (anchor target))))) (\<lambda>opened.
     finish_open env target opened)))"

definition open_declaration ::
  "('w, 'z) engine_env_scheme \<Rightarrow> dune_project \<Rightarrow> declaration_identity \<Rightarrow> (('w, 's) sys_scheme, err, open_result) eff" where
  "open_declaration env pj d =
     and_then (lift_result (validate_identity d)) (\<lambda>_.
     and_then (resolve env pj d) (\<lambda>r.
     and_then (lift_result (ok_or (error_new InvalidDeclaration ''target is not a proof declaration'') (rd_target r))) (\<lambda>target.
     if rd_proof_finished r then ret (Published target)
     else if \<not> replaceable (anchor target)
     then throw (error_new InvalidDeclaration ''declaration shares one source command with another declaration'')
     else and_then (open_target env pj target) (\<lambda>opened. ret (OpenProof opened)))))"

text \<open>The result of an operation on a temporary state, after that state is released; a failed release
  wins.\<close>

definition release_after ::
  "('w, 'z) engine_env_scheme \<Rightarrow> pet_state_id \<Rightarrow> err + 'a \<Rightarrow> (('w, 's) sys_scheme, err, 'a) eff" where
  "release_after env st result =
     and_then (map_err declaration_pet_error (release_states env [st])) (\<lambda>_. lift_result result)"

section \<open>Declaring\<close>

text \<open>The range of a rejected header, moved back to the statement the caller submitted.\<close>

definition translated_range :: "string \<Rightarrow> nat \<Rightarrow> proof_diagnostic option \<Rightarrow> proof_diagnostic option" where
  "translated_range stmt skip diagnostic =
     Option.bind diagnostic (\<lambda>d.
       if skip \<le> byte_start d \<and> skip \<le> byte_end d
          \<and> byte_start d - skip \<le> byte_end d - skip \<and> byte_end d - skip \<le> length stmt
          \<and> is_char_boundary stmt (byte_start d - skip) \<and> is_char_boundary stmt (byte_end d - skip)
       then Some \<lparr>byte_start = byte_start d - skip, byte_end = byte_end d - skip\<rparr> else None)"

definition probe_of :: "string \<Rightarrow> proof_diagnostic option \<Rightarrow> string" where
  "probe_of stmt r =
     (case Option.bind r (\<lambda>d. str_get stmt (byte_start d) (byte_end d)) of
        None \<Rightarrow> [] | Some t \<Rightarrow> trim t)"

definition candidate_json :: "symbol_location \<Rightarrow> json" where
  "candidate_json c = json_obj
     [(''id'', json_obj [(''file'', JString (id_file (sl_identity c))),
        (''qualified_path'', JArray (map JString (qualified_path (sl_identity c))))]),
      (''qualified_name'', JString (sl_qualified_name c)), (''kind'', JString (keyword (sl_kind c))),
      (''statement'', JString (sl_statement c)), (''require_import'', JString (sl_require_import c)),
      (''match'', JString (sl_match_kind c))]"

definition resolution_json :: "string \<Rightarrow> symbol_location list \<Rightarrow> json" where
  "resolution_json probe candidates = json_obj
     [(''kind'', JString ''missing_identifier''),
      (''note'', JString ''the declaration statement environment lacks an import for this identifier''),
      (''identifier'', JString probe),
      (''suggested_imports'', JArray (map JString (remdups_adj (sort (map sl_require_import candidates))))),
      (''candidates'', JArray (map candidate_json candidates))]"

definition enrich_declaration_error ::
  "('w, 'z) engine_env_scheme \<Rightarrow> dune_project \<Rightarrow> err \<Rightarrow> string \<Rightarrow> declaration_kind \<Rightarrow> string
   \<Rightarrow> (('w, 's) sys_scheme, err, err) eff" where
  "enrich_declaration_error env pj e stmt k leaf =
     (if err_resolution e = None then ret e
      else
        (let skip = length (keyword k @ '' '' @ leaf @ '' : '');
             translated = translated_range stmt skip (err_diagnostic e);
             probe = probe_of stmt translated
         in and_then (if probe = [] then ret (Inr []) else attempt (locate_symbols env pj probe 20)) (\<lambda>found.
            let candidates = (case found of Inr xs \<Rightarrow> xs | Inl (_ :: err) \<Rightarrow> []);
                resolution = resolution_json probe candidates
            in ret (case translated of
                 Some r \<Rightarrow> e\<lparr>err_diagnostic := Some r, err_resolution := Some (json_set ''statement_byte_range''
                     (json_obj [(''start'', json_nat (byte_start r)), (''end'', json_nat (byte_end r))]) resolution)\<rparr>
               | None \<Rightarrow> e\<lparr>err_resolution := Some resolution\<rparr>))))"

definition trim_end_dots :: "string \<Rightarrow> string" where
  "trim_end_dots s = rev (dropWhile (\<lambda>c. c = CHR ''.'') (rev s))"

text \<open>The target of a declaration that is not in the source yet: an empty range at the insertion point.\<close>

definition new_target :: "path \<Rightarrow> digest \<Rightarrow> declaration_identity \<Rightarrow> declaration_kind \<Rightarrow> nat \<Rightarrow> string \<Rightarrow> declaration_target" where
  "new_target source digest d k insertion header =
     \<lparr>info = \<lparr>identity = d, kind = k, statement = header\<rparr>,
      anchor = \<lparr>anchor_source = source, anchor_digest = digest,
        anchor_header = \<lparr>pr_start = insertion, pr_end = insertion\<rparr>,
        anchor_declaration = \<lparr>pr_start = insertion, pr_end = insertion\<rparr>, replaceable = True\<rparr>,
      new_header = Some header\<rparr>"

text \<open>From the checked name on: the header is run at PET's insertion state.\<close>

definition declare_at ::
  "('w, 'z) engine_env_scheme \<Rightarrow> dune_project \<Rightarrow> path \<Rightarrow> declaration_identity \<Rightarrow> declaration_kind \<Rightarrow> string
   \<Rightarrow> string list \<Rightarrow> string \<Rightarrow> (('w, 's) sys_scheme, err, opened_proof) eff" where
  "declare_at env pj source d k leaf modules stmt =
     and_then (lift_result (project_workspace pj source)) (\<lambda>ws.
     and_then (pet_source env pj source) (\<lambda>document.
     and_then (map_err declaration_pet_error (insertion_point env ws document modules)) (\<lambda>insertion.
     and_then (read_or env source (error_new DeclarationChanged ''target source is unavailable'')) (\<lambda>bytes.
     and_then (when_err (length bytes < insertion) (invalid_conf ''declaration insertion metadata is invalid'')) (\<lambda>_.
     let header = keyword k @ '' '' @ leaf @ '' : '' @ stmt in
     and_then (map_err declaration_pet_error (state_at env ws document insertion)) (\<lambda>base.
     and_then (attempt (map_err declaration_pet_error (pet_run env (px_state base) (header @ ''.'')))) (\<lambda>opened.
     and_then (attempt (release_after env (px_state base) opened)) (\<lambda>opened.
     case opened of
       Inl e \<Rightarrow> and_then (enrich_declaration_error env pj e stmt k leaf) throw
     | Inr x \<Rightarrow> finish_open env (new_target source (sha256 env bytes) d k insertion header) x))))))))"

definition declare_proof ::
  "('w, 'z) engine_env_scheme \<Rightarrow> dune_project \<Rightarrow> declaration_kind \<Rightarrow> file_id \<Rightarrow> string \<Rightarrow> string
   \<Rightarrow> (('w, 's) sys_scheme, err, opened_proof) eff" where
  "declare_proof env pj k file name text =
     and_then (project_source env pj file) (\<lambda>source.
     and_then (lift_result (project_library pj source)) (\<lambda>library.
     and_then (lift_result (declared_identity file library name)) (\<lambda>d.
     and_then (lift_result (validate_identity d)) (\<lambda>_.
     let stmt = trim (trim_end_dots (trim text)) in
     and_then (when_err (stmt = []) (error_new InvalidDeclaration ''declaration statement is empty'')) (\<lambda>_.
     and_then (lift_result (relative_path d library)) (\<lambda>relative.
     and_then (when_err (relative = []) (error_new InvalidDeclaration ''declaration path is empty'')) (\<lambda>_.
     and_then (declarations env pj (id_file d)) (\<lambda>rows.
     and_then (when_err (list_ex (\<lambda>r. rd_identity r = d) rows)
       (error_new InvalidDeclaration ''declaration identity is already present'')) (\<lambda>_.
     declare_at env pj source d k (last relative) (butlast relative) stmt)))))))))"

section \<open>Replaying and running\<close>

definition replay_root ::
  "('w, 'z) engine_env_scheme \<Rightarrow> dune_project \<Rightarrow> declaration_target \<Rightarrow> (('w, 's) sys_scheme, err, opened_proof) eff" where
  "replay_root env pj target =
     and_then (validate_target env pj target) (\<lambda>_.
     case new_header target of
       Some header \<Rightarrow>
         and_then (lift_result (project_workspace pj (anchor_source (anchor target)))) (\<lambda>ws.
         and_then (pet_source env pj (anchor_source (anchor target))) (\<lambda>document.
         and_then (map_err declaration_pet_error
           (state_at env ws document (pr_start (anchor_header (anchor target))))) (\<lambda>base.
         and_then (attempt (map_err declaration_pet_error (pet_run env (px_state base) (header @ ''.'')))) (\<lambda>opened.
         and_then (release_after env (px_state base) opened) (\<lambda>x.
         finish_open env target x)))))
     | None \<Rightarrow>
         and_then (map_err (\<lambda>e. if err_kind e = NotFound
             then error_new DeclarationChanged ''target identity changed in the current project context'' else e)
           (resolve env pj (identity (info target)))) (\<lambda>r.
         and_then (lift_result (ok_or (error_new DeclarationChanged ''declaration kind changed'') (rd_target r))) (\<lambda>current.
         if info current \<noteq> info target \<or> anchor_digest (anchor current) \<noteq> anchor_digest (anchor target)
         then throw (error_new DeclarationChanged ''target declaration changed while proof was open'')
         else open_target env pj current)))"

definition unsafe_step :: err where
  "unsafe_step = error_new ProofStepFailed ''fragment closes proof mode, runs a global command, or gives up a goal''"

definition step_view :: "declaration_target \<Rightarrow> pet_goals \<Rightarrow> proof_state" where
  "step_view target g = (proof_state_of (info target) g)\<lparr>ps_structured_goals := Some (structured_goals_of g)\<rparr>"

text \<open>A step that left the proof is released and rejected; both kinds of run end with this.\<close>

definition finish_step ::
  "('w, 'z) engine_env_scheme \<Rightarrow> declaration_target \<Rightarrow> pet_execution \<Rightarrow> (('w, 's) sys_scheme, err, proof_step) eff" where
  "finish_step env target x =
     (if \<not> safe_open x
      then and_then (map_err step_pet_error (release_states env [px_state x])) (\<lambda>_. throw unsafe_step)
      else ret \<lparr>st_state = px_state x, st_view = step_view target (px_goals x), st_finished = px_proof_finished x\<rparr>)"

definition run_fragment ::
  "('w, 'z) engine_env_scheme \<Rightarrow> dune_project \<Rightarrow> declaration_target \<Rightarrow> pet_state_id \<Rightarrow> string \<Rightarrow> nat option
   \<Rightarrow> (('w, 's) sys_scheme, err, proof_step) eff" where
  "run_fragment env pj target st fragment limit =
     and_then (validate_target env pj target) (\<lambda>_.
     and_then (lift_result (validate_fragment fragment)) (\<lambda>_.
     and_then (map_err step_pet_error (run_with_timeout env st fragment limit)) (\<lambda>x.
     finish_step env target x)))"

definition checked_trace_success ::
  "('w, 'z) engine_env_scheme \<Rightarrow> declaration_target \<Rightarrow> pet_execution \<Rightarrow> (('w, 's) sys_scheme, err, traced_proof_step) eff" where
  "checked_trace_success env target x = and_then (finish_step env target x) (\<lambda>step. ret (TracedSuccess step))"

definition trace_step_of :: "pet_trace_step \<Rightarrow> proof_trace_step" where
  "trace_step_of t = \<lparr>sentence_index = ts_sentence_index t,
     byte_range = \<lparr>byte_start = ts_byte_start t, byte_end = ts_byte_end t\<rparr>, tr_command = ts_command t\<rparr>"

definition proof_failure_of :: "declaration_target \<Rightarrow> pet_trace_failure \<Rightarrow> proof_failure" where
  "proof_failure_of target f =
     \<lparr>pf_error = step_pet_error (tf_error f), pf_sentence_index = tf_sentence_index f,
      pf_sentence_range = tf_sentence_range f, pf_before = step_view target (tf_before_goals f),
      pf_trace = map trace_step_of (tf_trace f)\<rparr>"

definition run_traced ::
  "('w, 'z) engine_env_scheme \<Rightarrow> dune_project \<Rightarrow> declaration_target \<Rightarrow> pet_state_id \<Rightarrow> string \<Rightarrow> bool \<Rightarrow> nat option
   \<Rightarrow> (('w, 's) sys_scheme, err, traced_proof_step) eff" where
  "run_traced env pj target st fragment include_trace limit =
     and_then (validate_target env pj target) (\<lambda>_.
     and_then (lift_result (validate_fragment fragment)) (\<lambda>_.
     and_then (map_err step_pet_error (run_traced_with_timeout env st fragment include_trace limit)) (\<lambda>outcome.
     case outcome of
       OutcomeSuccess x \<Rightarrow> checked_trace_success env target x
     | OutcomeFailure f \<Rightarrow>
         and_then (map_err step_pet_error (release_states env [tf_before_state f])) (\<lambda>_.
         ret (TracedFailure (proof_failure_of target f))))))"

definition engine_goals ::
  "('w, 'z) engine_env_scheme \<Rightarrow> dune_project \<Rightarrow> declaration_target \<Rightarrow> pet_state_id \<Rightarrow> goal_scope \<Rightarrow> json list option
   \<Rightarrow> (('w, 's) sys_scheme, err, proof_state) eff" where
  "engine_goals env pj target st scope goal_id =
     and_then (validate_target env pj target) (\<lambda>_.
     and_then (map_err step_pet_error (goals_of env st)) (\<lambda>g.
     if \<not> pgs_proof_mode g then throw (error_new NotFound ''proof state is no longer open'')
     else
       and_then (lift_result (ok_or (error_new NotFound ''goal_id is not in this state'') (render_goals g scope goal_id))) (\<lambda>rendered.
       ret ((proof_state_with_rendering (info target) g rendered)
         \<lparr>ps_structured_goals := Some (structured_goals_of g)\<rparr>))))"

section \<open>Queries\<close>

definition query_state ::
  "('w, 'z) engine_env_scheme \<Rightarrow> dune_project \<Rightarrow> declaration_target \<Rightarrow> pet_state_id \<Rightarrow> pet_query
   \<Rightarrow> (('w, 's) sys_scheme, err, string) eff" where
  "query_state env pj target st q =
     and_then (validate_target env pj target) (\<lambda>_. map_err query_pet_error (run_query env st q))"

definition query_at ::
  "('w, 'z) engine_env_scheme \<Rightarrow> dune_project \<Rightarrow> declaration_identity \<Rightarrow> pet_query \<Rightarrow> (('w, 's) sys_scheme, err, string) eff" where
  "query_at env pj d q =
     and_then (resolve env pj d) (\<lambda>r.
     and_then (lift_result (ok_or (error_new InvalidDeclaration ''query target is not supported'') (rd_target r))) (\<lambda>target.
     and_then (lift_result (project_workspace pj (anchor_source (anchor target)))) (\<lambda>ws.
     and_then (pet_source env pj (anchor_source (anchor target))) (\<lambda>document.
     and_then (map_err query_pet_error
       (state_at env ws document (pr_end (anchor_declaration (anchor target))))) (\<lambda>context.
     and_then (attempt (map_err query_pet_error (run_query env (px_state context) q))) (\<lambda>result.
     and_then (map_err query_pet_error (release_states env [px_state context])) (\<lambda>_.
     lift_result result)))))))"

section \<open>The trust audit\<close>

fun assumption_text :: "pet_assumption_kind \<Rightarrow> string" where
  "assumption_text Positive = ''unchecked positivity''"
| "assumption_text Guarded = ''unchecked guardedness''"
| "assumption_text TypeInType = ''unsafe universe hierarchy''"
| "assumption_text Uip = ''definitional UIP''"
| "assumption_text SectionVariable = ''section variable''"
| "assumption_text Opaque = ''opaque constant''"
| "assumption_text Transparent = ''transparent constant''"
| "assumption_text AxiomAssumption = ''axiom''"

definition unsafe_theory :: "pet_theory_assumptions \<Rightarrow> string list" where
  "unsafe_theory t =
     (if rewrite_rules t then [''rewrite rules''] else [])
     @ (if impredicative_set t then [''impredicative Set''] else [])
     @ (if type_in_type t then [''type-in-type''] else [])"

definition audit_assumption ::
  "('w, 'z) engine_env_scheme \<Rightarrow> dune_project \<Rightarrow> pet_assumption \<Rightarrow> (('w, 's) sys_scheme, err, unit) eff" where
  "audit_assumption env pj x =
     (let canonical = join ''.'' (pa_qualified_path x) in
      if pa_kind x \<noteq> AxiomAssumption
      then throw (error_new AxiomDependencyOutOfScope
        (''proof relies on '' @ assumption_text (pa_kind x) @ '' '' @ quoted canonical))
      else
        and_then (lift_result (ok_or (error_new AxiomDependencyOutOfScope
          (''axiom dependency is outside the Dune project: '' @ canonical))
          (project_source_for_constant pj canonical))) (\<lambda>source.
        and_then (lift_result (result_map_err (error_new InvalidConfiguration)
          (file_id_from_path (pj_root pj) source))) (\<lambda>file.
        and_then (declarations env pj file) (\<lambda>rows.
        and_then (lift_result (ok_or (error_new AxiomDependencyOutOfScope
          (''could not classify axiom dependency: '' @ canonical))
          (find (\<lambda>r. qualified_name (rd_identity r) = canonical) rows))) (\<lambda>r.
        when_err (\<not> rd_explicit_axiom r) (error_new UnfinishedDependency
          (''proof depends on unfinished declaration '' @ quoted canonical)))))))"

definition audit_state ::
  "('w, 'z) engine_env_scheme \<Rightarrow> dune_project \<Rightarrow> declaration_target \<Rightarrow> pet_state_id \<Rightarrow> (('w, 's) sys_scheme, err, unit) eff" where
  "audit_state env pj target st =
     and_then (map_err query_pet_error (assumptions env st (qualified_path (identity (info target))))) (\<lambda>report.
     and_then (when_err (unsafe_theory (theory_flags report) \<noteq> []) (error_new AxiomDependencyOutOfScope
       (''proof relies on unsafe Rocq theory features: '' @ join '', '' (unsafe_theory (theory_flags report))))) (\<lambda>_.
     for_each (\<lambda>x _. audit_assumption env pj x) (assumptions_list report) ()))"

definition audit_target ::
  "('w, 'z) engine_env_scheme \<Rightarrow> dune_project \<Rightarrow> declaration_target \<Rightarrow> (('w, 's) sys_scheme, err, unit) eff" where
  "audit_target env pj target =
     and_then (lift_result (project_workspace pj (anchor_source (anchor target)))) (\<lambda>ws.
     and_then (read_or env (anchor_source (anchor target)) (error_new DeclarationChanged ''audit source is unavailable'')) (\<lambda>bytes.
     and_then (pet_source env pj (anchor_source (anchor target))) (\<lambda>document.
     and_then (map_err query_pet_error (state_at env ws document (length bytes))) (\<lambda>context.
     and_then (attempt (audit_state env pj target (px_state context))) (\<lambda>result.
     and_then (attempt (map_err query_pet_error (release_states env [px_state context]))) (\<lambda>released.
     case result of Inl e \<Rightarrow> throw e | Inr _ \<Rightarrow> lift_result released))))))"

section \<open>Closing and publishing\<close>

definition close_proof ::
  "('w, 'z) engine_env_scheme \<Rightarrow> dune_project \<Rightarrow> declaration_target \<Rightarrow> pet_state_id \<Rightarrow> (('w, 's) sys_scheme, err, unit) eff" where
  "close_proof env pj target final =
     and_then (validate_target env pj target) (\<lambda>_.
     and_then (map_err finalizer_pet_error (pet_run env final (terminator (kind (info target))))) (\<lambda>closed.
     if pgs_proof_mode (px_goals closed) \<or> \<not> px_proof_finished closed
     then and_then (map_err finalizer_pet_error (release_states env [px_state closed])) (\<lambda>_.
       throw (error_new ProofStepFailed ''the generated proof terminator did not close the proof''))
     else map_err finalizer_pet_error (release_states env [px_state closed])))"

text \<open>The check of a built declaration: PET reports it finished, it is the target, the audit passes.\<close>

definition written_declaration ::
  "('w, 'z) engine_env_scheme \<Rightarrow> dune_project \<Rightarrow> declaration_target \<Rightarrow> (('w, 's) sys_scheme, err, proof_state) eff" where
  "written_declaration env pj target =
     and_then (resolve env pj (identity (info target))) (\<lambda>r.
     and_then (when_err (\<not> rd_proof_finished r)
       (error_new InvalidDeclaration ''written declaration is not a completed proof'')) (\<lambda>_.
     and_then (lift_result (ok_or (error_new InvalidDeclaration ''written declaration disappeared'') (rd_target r))) (\<lambda>current.
     and_then (when_err (identity (info current) \<noteq> identity (info target) \<or> kind (info current) \<noteq> kind (info target))
       (error_new DeclarationChanged ''written declaration identity changed'')) (\<lambda>_.
     and_then (audit_target env pj current) (\<lambda>_.
     ret (completed_state (info current)))))))"

definition engine_publish ::
  "('w, 'z) engine_env_scheme \<Rightarrow> dune_project \<Rightarrow> declaration_target \<Rightarrow> string list
   \<Rightarrow> (('w, 's) sys_scheme \<Rightarrow> ('w, 's) sys_scheme) \<Rightarrow> (('w, 's) sys_scheme, err, proof_state) eff" where
  "engine_publish env pj target fragments begin_epoch =
     and_then (validate_target env pj target) (\<lambda>_.
     and_then (progress ''prepare_writeback'' ''rendering the source transaction'') (\<lambda>_.
     and_then (prepare env pj target fragments) (\<lambda>publication.
     and_then (modify begin_epoch) (\<lambda>_.
     publish_with_progress env pj publication (command_timeout env) (written_declaration env pj target)))))"

definition built_declaration ::
  "('w, 'z) engine_env_scheme \<Rightarrow> dune_project \<Rightarrow> declaration_target \<Rightarrow> (('w, 's) sys_scheme, err, proof_state) eff" where
  "built_declaration env pj target =
     and_then (validate_target env pj target) (\<lambda>_.
     and_then (resolve env pj (identity (info target))) (\<lambda>r.
     and_then (when_err (\<not> rd_proof_finished r)
       (error_new InvalidDeclaration ''built declaration is not a completed proof'')) (\<lambda>_.
     and_then (lift_result (ok_or (error_new InvalidDeclaration ''built declaration disappeared'') (rd_target r))) (\<lambda>current.
     and_then (audit_target env pj current) (\<lambda>_.
     ret (completed_state (info current)))))))"

definition validate_published ::
  "('w, 'z) engine_env_scheme \<Rightarrow> dune_project \<Rightarrow> declaration_target \<Rightarrow> (('w, 's) sys_scheme, err, proof_state) eff" where
  "validate_published env pj target =
     and_then (validate_target env pj target) (\<lambda>_.
     build_and_refresh env pj (anchor_source (anchor target)) (command_timeout env) (built_declaration env pj target))"

section \<open>What the declarations of a source are\<close>

text \<open>The rows that PET reported, against the bytes that were read.\<close>

definition resolved_ok ::
  "path \<Rightarrow> digest \<Rightarrow> file_id \<Rightarrow> logical_library \<Rightarrow> nat \<Rightarrow> resolved_declaration \<Rightarrow> bool" where
  "resolved_ok source digest file library len r \<longleftrightarrow>
     id_file (rd_identity r) = file
     \<and> strict_prefix library (qualified_path (rd_identity r))
     \<and> (case rd_target r of None \<Rightarrow> True
        | Some t \<Rightarrow> identity (info t) = rd_identity r \<and> new_header t = None
            \<and> anchor_source (anchor t) = source \<and> anchor_digest (anchor t) = digest
            \<and> pr_start (anchor_declaration (anchor t)) = pr_start (anchor_header (anchor t))
            \<and> pr_start (anchor_header (anchor t)) < pr_end (anchor_header (anchor t))
            \<and> pr_end (anchor_header (anchor t)) \<le> pr_end (anchor_declaration (anchor t))
            \<and> pr_end (anchor_declaration (anchor t)) \<le> len)"

lemma resolve_rows_ok:
  assumes "resolve_rows source digest file library seen rows = Inr rs"
    and "\<forall>(row, b) \<in> set rows. row_consistent len row"
  shows "(\<forall>r \<in> set rs. resolved_ok source digest file library len r \<and> rd_identity r \<notin> set seen)
    \<and> distinct (map rd_identity rs)
    \<and> list_all2 (\<lambda>(row, b) r. rd_target r = map_option (declaration_target_of source digest file row b)
          (declaration_kind_of (pd_kind row)) \<and> rd_explicit_axiom r = (pd_kind row = ''Axiom'')) rows rs"
  using assms
proof (induction rows arbitrary: seen rs)
  case (Cons p rows)
  obtain row b where p: "p = (row, b)" by (cases p)
  note prems = Cons.prems [unfolded p]
  let ?d = "\<lparr>id_file = file, qualified_path = pd_qualified_path row\<rparr>"
  from prems(1) obtain rest where rest: "resolve_rows source digest file library (?d # seen) rows = Inr rest"
    and rs: "rs = \<lparr>rd_identity = ?d, rd_target = map_option (declaration_target_of source digest file row b)
        (declaration_kind_of (pd_kind row)), rd_proof_finished = pd_proof_finished row,
        rd_explicit_axiom = (pd_kind row = ''Axiom'')\<rparr> # rest"
    and lib: "prefix library (pd_qualified_path row)" "length library < length (pd_qualified_path row)"
    and new: "?d \<notin> set seen"
    by (auto simp: Let_def split: if_splits)
  have ih: "(\<forall>r \<in> set rest. resolved_ok source digest file library len r \<and> rd_identity r \<notin> set (?d # seen))
    \<and> distinct (map rd_identity rest)
    \<and> list_all2 (\<lambda>(row, b) r. rd_target r = map_option (declaration_target_of source digest file row b)
          (declaration_kind_of (pd_kind row)) \<and> rd_explicit_axiom r = (pd_kind row = ''Axiom'')) rows rest"
    using Cons.IH [OF rest] prems(2) by auto
  have "strict_prefix library (pd_qualified_path row)" using lib by (auto simp: strict_prefix_def)
  moreover have "row_consistent len row" using prems(2) by auto
  ultimately have "resolved_ok source digest file library len
      \<lparr>rd_identity = ?d, rd_target = map_option (declaration_target_of source digest file row b)
        (declaration_kind_of (pd_kind row)), rd_proof_finished = pd_proof_finished row,
        rd_explicit_axiom = (pd_kind row = ''Axiom'')\<rparr>"
    by (auto simp: resolved_ok_def declaration_target_of_def row_consistent_def split: option.splits)
  with ih new show ?case unfolding rs p by auto
qed simp

text \<open>A declaration that PET's ranges allow to replace shares no byte with another one.\<close>

definition separate :: "resolved_declaration list \<Rightarrow> bool" where
  "separate rs \<longleftrightarrow> (\<forall>i < length rs. \<forall>j < length rs. i \<noteq> j \<longrightarrow>
     (case (rd_target (rs ! i), rd_target (rs ! j)) of
        (Some t, Some u) \<Rightarrow> replaceable (anchor t) \<longrightarrow>
          \<not> ranges_meet (anchor_declaration (anchor t)) (anchor_declaration (anchor u))
      | _ \<Rightarrow> True))"

lemma resolve_rows_separate:
  assumes "list_all2 (\<lambda>(row, b) r. rd_target r = map_option (declaration_target_of source digest file row b)
          (declaration_kind_of (pd_kind row)) \<and> rd_explicit_axiom r = (pd_kind row = ''Axiom''))
      (zip rows (replaceable_declaration_ranges rows)) rs"
  shows "separate rs"
  unfolding separate_def
proof (intro allI impI)
  fix i j assume ij: "i < length rs" "j < length rs" "i \<noteq> j"
  have len: "length (replaceable_declaration_ranges rows) = length rows"
    by (simp add: replaceable_declaration_ranges_def)
  with assms have lens: "length rs = length rows" by (auto dest: list_all2_lengthD)
  have target: "rd_target (rs ! k) = map_option (declaration_target_of source digest file (rows ! k)
      (replaceable_declaration_ranges rows ! k)) (declaration_kind_of (pd_kind (rows ! k)))" if "k < length rs" for k
    using list_all2_nthD2 [OF assms that] len lens that by simp
  have "replaceable_declaration_ranges rows ! i \<Longrightarrow>
      \<not> ranges_meet (pd_declaration_range (rows ! i)) (pd_declaration_range (rows ! j))"
    using ij lens by (auto simp: replaceable_declaration_ranges_def list_ex_iff)
  then show "case (rd_target (rs ! i), rd_target (rs ! j)) of
        (Some t, Some u) \<Rightarrow> replaceable (anchor t) \<longrightarrow>
          \<not> ranges_meet (anchor_declaration (anchor t)) (anchor_declaration (anchor u))
      | _ \<Rightarrow> True"
    using target [OF ij(1)] target [OF ij(2)]
    by (auto simp: declaration_target_of_def split: option.splits)
qed

lemma declaration_rows_ok:
  assumes "declaration_rows source digest file library len rows = Inr rs"
  shows "list_all (resolved_ok source digest file library len) rs \<and> distinct (map rd_identity rs) \<and> separate rs"
proof -
  from assms have ok: "list_all (row_consistent len) rows"
    and rows: "resolve_rows source digest file library [] (zip rows (replaceable_declaration_ranges rows)) = Inr rs"
    by (auto simp: declaration_rows_def split: if_splits)
  have "\<forall>(row, b) \<in> set (zip rows (replaceable_declaration_ranges rows)). row_consistent len row"
    using ok by (auto simp: list_all_iff dest: set_zip_leftD)
  from resolve_rows_ok [OF rows this] resolve_rows_separate show ?thesis
    by (fastforce simp: list_all_iff)
qed

lemma read_orE:
  assumes "read_or env p e s = (Inr bytes, s')"
  obtains w w' where "read_file env p w = (Some bytes, w')"
  using assms unfolding read_or_def external_def
  by (auto simp: lift_result_def elim!: and_thenE split: prod.splits)

lemma lift_resultE:
  assumes "lift_result r s = (x, s')"
  obtains "r = x" "s' = s"
  using assms by (simp add: lift_result_def)

lemma declarations_run:
  assumes "declarations env pj file s = (Inr rs, s')"
  obtains source library bytes rows w w' t t' where
    "project_source env pj file s = (Inr source, t)" "project_library pj source = Inr library"
    "read_file env source w = (Some bytes, w')"
    "declaration_rows source (sha256 env bytes) file library (length bytes) rows = Inr rs"
  using assms unfolding declarations_def
  by (elim and_thenE lift_resultE read_orE) auto

lemma project_source_selected:
  assumes "project_source env pj file s = (Inr source, s')"
  shows "validate_file_id file = Inr () \<and> contains_file (pj_layout pj) source"
  using assms unfolding project_source_def
  by (auto simp: external_def lift_result_def throw_def ret_def elim!: and_thenE split: if_splits prod.splits)

text \<open>
  C17. The declarations of a source are well typed. When \<open>declarations\<close> answers, the source is one
  that Dune selected, and for the bytes that were read of it: every row has an identity of that file
  strictly below its logical library, no identity occurs twice, every supported row has a target with
  this identity, anchored to that source and to the digest of those bytes, with a nonempty header at
  the start of a declaration inside those bytes; and a target that may be replaced shares no byte
  with another target.
\<close>

theorem declarations_typed:
  assumes "declarations env pj file s = (Inr rs, s')"
  shows "\<exists>source library bytes w w'. contains_file (pj_layout pj) source
    \<and> project_library pj source = Inr library \<and> read_file env source w = (Some bytes, w')
    \<and> list_all (resolved_ok source (sha256 env bytes) file library (length bytes)) rs
    \<and> distinct (map rd_identity rs) \<and> separate rs"
  using assms by (elim declarations_run) (metis declaration_rows_ok project_source_selected)

section \<open>A concrete project\<close>

text \<open>One source of two declarations, an axiom and an unfinished lemma, and a PET that is already
  configured for it and answers with the given bodies.\<close>

definition sample_text :: string where
  "sample_text = ''Axiom ax : True. Lemma t : True. Admitted.''"

definition row_json :: "string \<Rightarrow> string \<Rightarrow> nat \<Rightarrow> nat \<Rightarrow> nat \<Rightarrow> json" where
  "row_json name k b h e = JArray [JArray (map JString [''P'', ''A'', name]), JString k,
     JArray [json_nat b, json_nat h], JArray [json_nat b, json_nat e], JBool False, JString ''True'']"

definition rows_json :: json where
  "rows_json = JArray [row_json ''ax'' ''Axiom'' 0 16 16, row_json ''t'' ''Lemma'' 17 32 42]"

definition sample_engine_env :: "(string \<Rightarrow> string + json) \<Rightarrow> unit engine_env" where
  "sample_engine_env de = fs_env.extend
     (sample_fs_env\<lparr>json_de := de, read_file := (\<lambda>p w. (Some sample_text, w))\<rparr>)
     \<lparr>command_timeout = None, read_dir = (\<lambda>p w. (Some [], w)), modified = (\<lambda>p w. (Some 0, w)),
      read_artifact = (\<lambda>p w. (Inl True, w))\<rparr>"

definition sample_sys :: "string list \<Rightarrow> unit sys" where
  "sample_sys bodies = idle_sys\<lparr>process := Some (scripted_process bodies), actor_ws := Some (layout_ws sample_layout)\<rparr>"

text \<open>The actor will answer with these bodies, under request numbers from \<open>i\<close> on.\<close>

definition ready :: "u64 \<Rightarrow> string list \<Rightarrow> unit sys \<Rightarrow> bool" where
  "ready i bodies a \<longleftrightarrow> actor_ws a = Some (layout_ws sample_layout)
     \<and> (\<exists>p. process a = Some p \<and> next_id p = i \<and> will_answer p a bodies)"

lemma ready_world [simp]: "ready i bodies (a\<lparr>world := w\<rparr>) \<longleftrightarrow> ready i bodies a"
  by (simp add: ready_def will_answer_def reader_of_def)

lemma sample_sys_ready:
  "list_all (\<lambda>b. length b \<le> MAX_RESPONSE_BYTES) bodies \<Longrightarrow> ready 1 bodies (sample_sys bodies)"
  unfolding ready_def sample_sys_def
  by (auto simp: idle_sys_def idle_actor_def actor.defs scripted_process_def
      intro!: scripted_will_answer [unfolded scripted_process_def])

lemma ready_rpc:
  assumes "ready i (b # bs) a" and "de b = Inr (answer i v)" and "Suc (unat i) < 2 ^ 64"
  obtains p p' a' where "process a = Some p" "rpc (sample_engine_env de) meth params p a = ((Inr v, p'), a')"
    "ready (i + 1) bs (a'\<lparr>process := Some p'\<rparr>)"
proof -
  from assms(1) obtain p where p: "process a = Some p" "next_id p = i" "will_answer p a (b # bs)"
    by (auto simp: ready_def)
  have "\<exists>p' a'. rpc (sample_engine_env de) meth params p a = ((Inr v, p'), a') \<and> will_answer p' a' bs
    \<and> handle p' = handle p \<and> next_id p' = next_id p + 1 \<and> process a' = process a \<and> actor_ws a' = actor_ws a"
    using assms p
    by (intro rpc_answers [where rq = "''request''" and v = "answer i v"])
       (auto simp: sample_engine_env_def sample_fs_env_def sample_dune_env_def scripted_env_def pet_env.defs
         dune_env.defs fs_env.defs quiet_def MAX_REQUEST_BYTES_def)
  then obtain p' a' where "rpc (sample_engine_env de) meth params p a = ((Inr v, p'), a')" "will_answer p' a' bs"
    "next_id p' = i + 1" "actor_ws a' = actor_ws a" using p(2) by auto
  with that [OF p(1)] assms(1) show ?thesis by (simp add: ready_def will_answer_def reader_of_def)
qed

lemma ready_calls:
  assumes "ready i (b # bs) a" and "de b = Inr (answer i v)" and "Suc (unat i) < 2 ^ 64"
  shows "\<exists>a'. call_in_workspace (sample_engine_env de) (layout_ws sample_layout) meth params a = (Inr v, a') \<and> ready (i + 1) bs a'"
    "\<exists>a'. call_live (sample_engine_env de) meth params a = (Inr v, a') \<and> ready (i + 1) bs a'"
proof -
  obtain p p' a' where r: "process a = Some p" "rpc (sample_engine_env de) meth params p a = ((Inr v, p'), a')"
    "ready (i + 1) bs (a'\<lparr>process := Some p'\<rparr>)" by (rule ready_rpc [where de = de and v = v and meth = meth and params = params, OF assms])
  from assms(1) have ws: "actor_ws a = Some (layout_ws sample_layout)" by (simp add: ready_def)
  from r ws show "\<exists>a'. call_in_workspace (sample_engine_env de) (layout_ws sample_layout) meth params a = (Inr v, a') \<and> ready (i + 1) bs a'"
    by (auto simp: call_in_workspace_def and_then_def ensure_process_def actor_rpc_def rpc_def)
  from r ws show "\<exists>a'. call_live (sample_engine_env de) meth params a = (Inr v, a') \<and> ready (i + 1) bs a'"
    by (auto simp: call_live_def call_live_with_timeout_def actor_rpc_def rpc_def)
qed

definition sample_resolved :: "resolved_declaration list" where
  "sample_resolved =
     [\<lparr>rd_identity = \<lparr>id_file = ''A.v'', qualified_path = [''P'', ''A'', ''ax'']\<rparr>, rd_target = None,
       rd_proof_finished = False, rd_explicit_axiom = True\<rparr>,
      \<lparr>rd_identity = \<lparr>id_file = ''A.v'', qualified_path = [''P'', ''A'', ''t'']\<rparr>,
       rd_target = Some \<lparr>info = \<lparr>identity = \<lparr>id_file = ''A.v'', qualified_path = [''P'', ''A'', ''t'']\<rparr>,
           kind = KLemma, statement = ''True''\<rparr>,
         anchor = \<lparr>anchor_source = sample_source, anchor_digest = sample_text,
           anchor_header = \<lparr>pr_start = 17, pr_end = 32\<rparr>, anchor_declaration = \<lparr>pr_start = 17, pr_end = 42\<rparr>,
           replaceable = True\<rparr>, new_header = None\<rparr>,
       rd_proof_finished = False, rd_explicit_axiom = False\<rparr>]"

definition sample_row :: "string \<Rightarrow> string \<Rightarrow> nat \<Rightarrow> nat \<Rightarrow> nat \<Rightarrow> pet_declaration" where
  "sample_row name k b h e = \<lparr>pd_qualified_path = [''P'', ''A'', name], pd_kind = k,
     pd_range = \<lparr>pr_start = b, pr_end = h\<rparr>, pd_declaration_range = \<lparr>pr_start = b, pr_end = e\<rparr>,
     pd_proof_finished = False, pd_statement = ''True''\<rparr>"

definition sample_rows :: "pet_declaration list" where
  "sample_rows = [sample_row ''ax'' ''Axiom'' 0 16 16, sample_row ''t'' ''Lemma'' 17 32 42]"

lemma as_usize_nat: "n < 2 ^ 64 \<Longrightarrow> as_usize (json_nat n) = Some n"
  by (simp add: as_usize_def json_nat_def unat_of_nat)

lemma de_row:
  assumes "b < 2 ^ 64" "h < 2 ^ 64" "e < 2 ^ 64"
  shows "de_declaration (row_json name k b h e) = Some (sample_row name k b h e)"
  using assms
  by (simp add: row_json_def de_declaration_def de_range_def struct_fields_def field_def
      as_usize_nat sample_row_def de_list_def)

lemma de_rows: "de_list de_declaration rows_json = Some sample_rows"
  by (simp add: de_list_def rows_json_def sample_rows_def de_row)

lemma sample_replaceable: "replaceable_declaration_ranges sample_rows = [True, True]"
  by (simp add: replaceable_declaration_ranges_def ranges_meet_def sample_rows_def sample_row_def upt_rec)

lemma sample_consistent: "list_all (row_consistent (length sample_text)) sample_rows"
  by (simp add: sample_rows_def sample_row_def row_consistent_def sample_text_def)

lemma sample_declaration_rows:
  "declaration_rows sample_source sample_text ''A.v'' [''P'', ''A''] (length sample_text) sample_rows = Inr sample_resolved"
  unfolding declaration_rows_def sample_replaceable using sample_consistent
  by (simp add: sample_rows_def sample_row_def sample_resolved_def declaration_kind_of_def declaration_target_of_def Let_def)

lemma sample_engine_simps [simp]:
  "canonicalize (sample_engine_env de) = (\<lambda>p w. (Some p, w))" "is_file (sample_engine_env de) = (\<lambda>p w. (True, w))"
  "read_file (sample_engine_env de) = (\<lambda>p w. (Some sample_text, w))" "dune_build_dir (sample_engine_env de) = None"
  "sha256 (sample_engine_env de) = (\<lambda>t. t)"
  by (simp_all add: sample_engine_env_def sample_fs_env_def sample_dune_env_def pet_env.defs dune_env.defs fs_env.defs)

lemma sample_path: "path_of ''A.v'' = [Normal ''A.v'']"
  by (simp add: path_of_def component_of_def)

lemma sample_project_facts:
  "contains_file (pj_layout sample_pj) sample_source" "project_workspace sample_pj sample_source = Inr (layout_ws sample_layout)"
  "project_library sample_pj sample_source = Inr [''P'', ''A'']" "project_build_target sample_pj sample_source = Inr [Normal ''A.vo'']"
  by (simp_all add: contains_file_def sample_pj_def sample_layout_def sample_source_def bt_get_def project_workspace_def
      layout_pet_workspace_def project_library_def layout_library_def project_build_target_def build_target_def)

lemma sample_file_ok: "validate_file_id ''A.v'' = Inr ()"
  by (simp add: validate_file_id_def sample_path path_is_absolute_def)

lemma sample_project_source:
  "project_source (sample_engine_env de) sample_pj ''A.v'' a = (Inr sample_source, a\<lparr>world := world a\<rparr>)"
proof -
  have "path_join (pj_root sample_pj) (path_of ''A.v'') = sample_source"
    by (simp add: sample_path path_join_def path_is_absolute_def sample_pj_def sample_project_def sample_source_def)
  then show ?thesis
    by (simp add: project_source_def sample_file_ok lift_result_def and_then_def external_def sample_project_facts ret_def)
qed

lemma sample_pet_source:
  "\<exists>p. pet_source (sample_engine_env de) sample_pj sample_source a = (Inr p, a\<lparr>world := world a\<rparr>)"
  by (simp add: pet_source_def lift_result_def and_then_def external_def sample_project_facts ret_def Let_def)

lemma sample_declarations:
  assumes "ready i (b # bs) a" "de b = Inr (answer i rows_json)" "Suc (unat i) < 2 ^ 64"
  shows "\<exists>a'. declarations (sample_engine_env de) sample_pj ''A.v'' a = (Inr sample_resolved, a') \<and> ready (i + 1) bs a'"
proof -
  let ?env = "sample_engine_env de"
  let ?a = "a\<lparr>world := ()\<rparr>"
  obtain p where p: "pet_source ?env sample_pj sample_source ?a = (Inr p, ?a)"
    using sample_pet_source [of de ?a] by auto
  obtain a1 where a1: "call_in_workspace ?env (layout_ws sample_layout) ''petanque/document_declarations''
      (json_obj [(''uri'', JString (file_uri p))]) ?a = (Inr rows_json, a1)" "ready (i + 1) bs a1"
    using ready_calls(1) [where de = de and v = rows_json and a = ?a, of i b bs] assms by fastforce
  then have rows: "document_declarations ?env (layout_ws sample_layout) p ?a = (Inr sample_rows, a1)"
    by (simp add: document_declarations_def and_then_def checked_def de_rows ret_def)
  have "declarations ?env sample_pj ''A.v'' a = (Inr sample_resolved, a1\<lparr>world := ()\<rparr>)"
    by (simp add: declarations_def and_then_def sample_project_source lift_result_def sample_project_facts p
        map_err_def rows read_or_def external_def sample_declaration_rows)
  with a1 show ?thesis by simp
qed

definition declarations_de :: "string \<Rightarrow> string + json" where
  "declarations_de b = Inr (answer 1 rows_json)"

theorem declarations_typed_witness:
  "\<exists>s'. declarations (sample_engine_env declarations_de) sample_pj ''A.v'' (sample_sys [''x'']) = (Inr sample_resolved, s')
    \<and> length sample_resolved = 2
    \<and> (\<exists>source library bytes w w'. contains_file (pj_layout sample_pj) source
      \<and> project_library sample_pj source = Inr library
      \<and> read_file (sample_engine_env declarations_de) source w = (Some bytes, w')
      \<and> list_all (resolved_ok source (sha256 (sample_engine_env declarations_de) bytes) ''A.v'' library (length bytes)) sample_resolved
      \<and> distinct (map rd_identity sample_resolved) \<and> separate sample_resolved)"
proof -
  have "ready 1 [''x''] (sample_sys [''x''])"
    by (rule sample_sys_ready) (simp add: MAX_RESPONSE_BYTES_def)
  from sample_declarations [where de = declarations_de, OF this] obtain s' where
    run: "declarations (sample_engine_env declarations_de) sample_pj ''A.v'' (sample_sys [''x'']) = (Inr sample_resolved, s')"
    by (auto simp: declarations_de_def)
  have "length sample_resolved = 2" by (simp add: sample_resolved_def)
  with run declarations_typed [OF run] show ?thesis by blast
qed

end
