(* ===== verification/Wire.thy ===== *)
theory Wire
  imports Engine "HOL-Library.Multiset"
begin

text \<open>
  The wire side of the MCP adapter: argument shapes (\<open>rocq-mcp/src/validation.rs\<close> and the parsers of
  \<open>rocq-mcp/src/adapter.rs\<close>), public errors, proof states and goals as JSON, text pages, and the
  comparison of two goal contexts. Nothing here has state.
\<close>

section \<open>Arguments\<close>

definition required_string :: "json \<Rightarrow> string \<Rightarrow> err + string" where
  "required_string v k =
     (case Option.bind (json_get v k) as_str of
        Some t \<Rightarrow> if t = [] then Inl (error_new InvalidRequest (k @ '' must be a non-empty string'')) else Inr t
      | None \<Rightarrow> Inl (error_new InvalidRequest (k @ '' must be a non-empty string'')))"

definition reject_unknown :: "json \<Rightarrow> string list \<Rightarrow> err + unit" where
  "reject_unknown v allowed =
     (case as_object v of
        None \<Rightarrow> Inl (error_new InvalidRequest ''arguments must be an object'')
      | Some m \<Rightarrow>
          (case find (\<lambda>k. k \<notin> set allowed) (map fst m) of
             Some k \<Rightarrow> Inl (error_new InvalidRequest (''unexpected field '' @ quoted k))
           | None \<Rightarrow> Inr ()))"

definition identity_part :: "json \<Rightarrow> err + string" where
  "identity_part v =
     ok_or (error_new InvalidRequest ''qualified_path must contain non-empty strings'')
       (Option.bind (as_str v) (\<lambda>t. if t = [] then None else Some t))"

definition declaration_id :: "json \<Rightarrow> string \<Rightarrow> err + declaration_identity" where
  "declaration_id v k =
     result_bind (ok_or (error_new InvalidRequest (k @ '' must be an object'')) (as_object v)) (\<lambda>m.
     if \<not> list_all (\<lambda>(key, _). key = ''file'' \<or> key = ''qualified_path'') m
     then Inl (error_new InvalidRequest (k @ '' has an unknown field''))
     else
       result_bind (ok_or (error_new InvalidRequest (k @ ''.file is required''))
         (Option.bind (Option.bind (bt_get m ''file'') as_str) (\<lambda>f. if f = [] then None else Some f))) (\<lambda>file.
       result_bind (ok_or (error_new InvalidRequest (k @ ''.qualified_path is required''))
         (Option.bind (Option.bind (bt_get m ''qualified_path'') as_array) (\<lambda>ps. if ps = [] then None else Some ps))) (\<lambda>parts.
       result_bind (collect_results identity_part parts) (\<lambda>q.
       Inr \<lparr>id_file = backslash_to_slash file, qualified_path = q\<rparr>))))"

definition attempts :: "json \<Rightarrow> err + string list" where
  "attempts args =
     result_bind (ok_or (error_new InvalidRequest ''attempts must be an array'')
       (Option.bind (json_get args ''attempts'') as_array)) (\<lambda>vs.
     result_bind (collect_results (\<lambda>v. ok_or (error_new InvalidRequest ''attempt must be a string'') (as_str v)) vs) (\<lambda>fs.
     result_bind (validate_fragments fs) (\<lambda>_. Inr fs)))"

definition positive_u64 :: "json \<Rightarrow> u64 option" where
  "positive_u64 v = Option.bind (as_u64 v) (\<lambda>n. if 0 < n then Some n else None)"

text \<open>A duration in milliseconds.\<close>

definition attempt_timeout :: "json \<Rightarrow> err + nat option" where
  "attempt_timeout args =
     (case json_get args ''timeout_ms'' of
        None \<Rightarrow> Inr None
      | Some v \<Rightarrow>
          (case positive_u64 v of
             Some n \<Rightarrow> Inr (Some (unat n))
           | None \<Rightarrow> Inl (error_new InvalidRequest ''timeout_ms must be a positive integer'')))"

definition optional_bool :: "json \<Rightarrow> string \<Rightarrow> err + bool" where
  "optional_bool args k =
     (case json_get args k of
        None \<Rightarrow> Inr False
      | Some (JBool b) \<Rightarrow> Inr b
      | Some _ \<Rightarrow> Inl (error_new InvalidRequest (k @ '' must be a boolean'')))"

definition bad_scope :: err where
  "bad_scope = error_new InvalidRequest ''scope must be focused, unfocused, shelved, given_up, or all''"

definition goal_scope_of :: "json \<Rightarrow> err + goal_scope" where
  "goal_scope_of args =
     (case json_get args ''scope'' of
        None \<Rightarrow> Inr Focused
      | Some (JString s) \<Rightarrow>
          (if s = ''focused'' then Inr Focused else if s = ''unfocused'' then Inr Unfocused
           else if s = ''shelved'' then Inr Shelved else if s = ''given_up'' then Inr GivenUp
           else if s = ''all'' then Inr AllGoals else Inl bad_scope)
      | Some _ \<Rightarrow> Inl bad_scope)"

text \<open>On a 64-bit target every \<open>u64\<close> is a \<open>usize\<close>, so the conversion cannot fail.\<close>

definition query_offset :: "json \<Rightarrow> err + nat" where
  "query_offset args =
     (case json_get args ''offset'' of
        None \<Rightarrow> Inr 0
      | Some v \<Rightarrow>
          (case as_u64 v of
             Some n \<Rightarrow> Inr (unat n)
           | None \<Rightarrow> Inl (error_new InvalidRequest ''offset must be a non-negative integer'')))"

text \<open>\<open>to_ascii_lowercase\<close> on bytes.\<close>

definition ascii_lower :: "string \<Rightarrow> string" where
  "ascii_lower s = map (\<lambda>c. if between 65 90 c then char_of (byte c + 32) else c) s"

definition wire_kind :: "string option \<Rightarrow> err + declaration_kind" where
  "wire_kind v =
     (let k = ascii_lower (case v of None \<Rightarrow> ''Theorem'' | Some t \<Rightarrow> t) in
      if k = ''theorem'' then Inr KTheorem else if k = ''lemma'' then Inr KLemma
      else if k = ''definition'' then Inr KDefinition
      else Inl (error_new InvalidDeclaration ''unsupported declaration kind''))"

section \<open>Public errors\<close>

fun public_kind :: "error_kind \<Rightarrow> string" where
  "public_kind InvalidRequest = ''invalid_request''"
| "public_kind InvalidConfiguration = ''invalid_configuration''"
| "public_kind InvalidDeclaration = ''invalid_declaration''"
| "public_kind NotFound = ''not_found''"
| "public_kind Ambiguous = ''ambiguous''"
| "public_kind DeclarationChanged = ''declaration_changed''"
| "public_kind ProofStepFailed = ''proof_step_failed''"
| "public_kind ProofStepTimeout = ''proof_step_timeout''"
| "public_kind RequestCancelled = ''request_cancelled''"
| "public_kind PetLost = ''pet_lost''"
| "public_kind QueryFailed = ''query_failed''"
| "public_kind QueryTimeout = ''query_timeout''"
| "public_kind PetFailure = ''pet_failure''"
| "public_kind ProjectTimeout = ''project_timeout''"
| "public_kind BuildTimeout = ''build_timeout''"
| "public_kind AxiomDependencyOutOfScope = ''axiom_dependency_out_of_scope''"
| "public_kind UnfinishedDependency = ''unfinished_dependency''"

fun next_step :: "error_kind \<Rightarrow> string" where
  "next_step InvalidConfiguration = ''check the project configuration or prover capabilities, then restart the server''"
| "next_step NotFound = ''call list_files/list_decls or query(goals) to obtain a current identity or state''"
| "next_step Ambiguous = ''use the exact declaration identity returned by list_decls''"
| "next_step DeclarationChanged = ''refresh the declaration with prove and retry the proof''"
| "next_step ProofStepFailed = ''inspect query(goals) and submit a smaller valid fragment''"
| "next_step ProofStepTimeout = ''retry with a larger timeout_ms or split the fragment into smaller steps''"
| "next_step RequestCancelled = ''retry the cancelled operation when ready''"
| "next_step PetLost = ''retry the operation; any retained proof state will be replayed automatically''"
| "next_step PetFailure = ''restart the server; if this repeats, rebuild its bundled prover''"
| "next_step ProjectTimeout = ''retry or increase ROCQ_COMMAND_TIMEOUT_SECS''"
| "next_step BuildTimeout = ''retry with a larger ROCQ_COMMAND_TIMEOUT_SECS value or unset the limit''"
| "next_step AxiomDependencyOutOfScope = ''inspect query(kind=assumptions) and replace the disallowed dependency''"
| "next_step UnfinishedDependency = ''prove or replace the unfinished dependency, then retry''"
| "next_step InvalidRequest = ''perform the stated prerequisite and correct the indicated argument, then retry''"
| "next_step InvalidDeclaration = ''inspect the declaration/source diagnostic, correct the source, and retry''"
| "next_step QueryFailed = ''retry with a valid query kind and target in the current Rocq context''"
| "next_step QueryTimeout = ''retry the query or increase ROCQ_QUERY_TIMEOUT_SECS''"

text \<open>Every class has a next step, so the branch without one is not reached.\<close>

definition advised_message :: "err \<Rightarrow> string" where
  "advised_message e =
     (if err_semantic e then err_message e
      else
        (let detail = trim_end_dots (trim (err_message e));
             detail = (if detail = [] then ''operation failed'' else detail)
         in detail @ ''. Next step: '' @ next_step (err_kind e) @ ''.''))"

definition range_json :: "proof_diagnostic \<Rightarrow> json" where
  "range_json d = json_obj [(''start'', json_nat (byte_start d)), (''end'', json_nat (byte_end d))]"

definition RESOLUTION_BYTES :: nat where
  "RESOLUTION_BYTES = 16 * 1024"

text \<open>\<open>serde_json::to_vec(..).unwrap_or_default()\<close>.\<close>

definition encoded :: "('w, 'z) pet_env_scheme \<Rightarrow> json \<Rightarrow> string" where
  "encoded env v = (case json_ser env v of Some t \<Rightarrow> t | None \<Rightarrow> [])"

definition bounded_resolution :: "('w, 'z) pet_env_scheme \<Rightarrow> json \<Rightarrow> json" where
  "bounded_resolution env r =
     (if length (encoded env r) \<le> RESOLUTION_BYTES then r
      else json_obj [(''kind'', JString ''truncated''),
        (''message'', JString ''resolution metadata exceeded the transport bound'')])"

definition public_error :: "('w, 'z) pet_env_scheme \<Rightarrow> err \<Rightarrow> json" where
  "public_error env e =
     (let v = json_obj [(''kind'', JString (public_kind (err_kind e))), (''message'', JString (advised_message e))];
          v = (case err_diagnostic e of None \<Rightarrow> v
               | Some d \<Rightarrow> json_set ''diagnostic'' (json_obj [(''byte_range'', range_json d)]) v)
      in case err_resolution e of None \<Rightarrow> v
         | Some r \<Rightarrow> json_set ''resolution'' (bounded_resolution env r) v)"

section \<open>Text pages\<close>

definition QUERY_PAGE_BYTES :: nat where
  "QUERY_PAGE_BYTES = 32 * 1024"

text \<open>A page, and the offset of the next one.\<close>

record page =
  page_text :: string
  page_next :: "nat option"

definition page_json :: "page \<Rightarrow> json" where
  "page_json p =
     (let v = json_obj [(''text'', JString (page_text p))]
      in case page_next p of None \<Rightarrow> v | Some n \<Rightarrow> json_set ''next_offset'' (json_nat n) v)"

definition text_page :: "string \<Rightarrow> nat \<Rightarrow> err + page" where
  "text_page text offset =
     (let len = length text in
      if len < offset \<or> \<not> is_char_boundary text offset \<or> offset = len \<and> text \<noteq> []
      then Inl (error_new InvalidRequest ''offset is not a valid boundary in the query result'')
      else if offset = 0 \<and> len \<le> QUERY_PAGE_BYTES then Inr \<lparr>page_text = text, page_next = None\<rparr>
      else
        (let e = cut_back text offset (min (offset + QUERY_PAGE_BYTES) len) in
         Inr \<lparr>page_text = take (e - offset) (drop offset text), page_next = (if e < len then Some e else None)\<rparr>))"

definition text_result :: "string \<Rightarrow> nat \<Rightarrow> err + json" where
  "text_result text offset = result_bind (text_page text offset) (\<lambda>p. Inr (page_json p))"

definition bounded_checkpoint_view :: "proof_state \<Rightarrow> proof_state \<times> nat option" where
  "bounded_checkpoint_view v =
     (if length (ps_goals v) \<le> QUERY_PAGE_BYTES then (v, None)
      else (let e = cut_back (ps_goals v) 0 QUERY_PAGE_BYTES in (v\<lparr>ps_goals := take e (ps_goals v)\<rparr>, Some e)))"

section \<open>Proof states\<close>

definition declaration_identity_json :: "declaration_identity \<Rightarrow> json" where
  "declaration_identity_json d = json_obj
     [(''file'', JString (id_file d)), (''qualified_path'', JArray (map JString (qualified_path d)))]"

definition declaration_json :: "declaration_info \<Rightarrow> json" where
  "declaration_json d = json_obj [(''id'', declaration_identity_json (identity d)),
     (''statement'', JString (statement d)), (''kind'', JString (keyword (kind d)))]"

text \<open>The module of \<open>Require Import M.\<close>, empty when the text has another shape.\<close>

definition module_of_import :: "string \<Rightarrow> string" where
  "module_of_import t =
     (if prefix ''Require Import '' t \<and> suffix ''.'' (drop (length ''Require Import '') t)
      then butlast (drop (length ''Require Import '') t) else [])"

definition symbol_location_json :: "symbol_location \<Rightarrow> json" where
  "symbol_location_json l = json_obj
     [(''id'', declaration_identity_json (sl_identity l)), (''qualified_name'', JString (sl_qualified_name l)),
      (''kind'', JString (keyword (sl_kind l))), (''statement'', JString (sl_statement l)),
      (''module'', JString (module_of_import (sl_require_import l))),
      (''require_import'', JString (sl_require_import l)), (''match'', JString (sl_match_kind l))]"

definition hypothesis_json :: "goal_hypothesis \<Rightarrow> json" where
  "hypothesis_json h = json_obj [(''names'', JArray (map JString (hyp_names h))),
     (''definition'', json_opt JString (hyp_definition h)), (''type'', JString (hyp_ty h))]"

definition goal_json :: "bool \<Rightarrow> goal_detail \<Rightarrow> json" where
  "goal_json include_epoch_ids g =
     (let v = json_obj [(''name'', json_opt JString (gd_name g)),
            (''hypotheses'', JArray (map hypothesis_json (gd_hypotheses g))), (''type'', JString (gd_ty g))]
      in if include_epoch_ids then json_set ''id'' (JArray (gd_evar g)) v else v)"

definition structured_goals_json :: "structured_goals \<Rightarrow> bool \<Rightarrow> json" where
  "structured_goals_json g ids =
     (let many = (\<lambda>gs. JArray (map (goal_json ids) gs)) in
      json_obj
       [(''focused'', many (sg_focused g)),
        (''stack'', JArray (map (\<lambda>f. json_obj [(''left'', many (detail_left f)), (''right'', many (detail_right f))]) (sg_stack g))),
        (''unfocused'', many (sg_unfocused g)), (''shelved'', many (sg_shelved g)), (''given_up'', many (sg_given_up g)),
        (''next_bullet'', json_opt JString (sg_next_bullet g)), (''identity_scope'', JString ''pet_epoch'')])"

definition evars_json :: "evar list \<Rightarrow> json" where
  "evars_json gs = JArray (map JArray gs)"

definition focus_json :: "proof_state \<Rightarrow> bool \<Rightarrow> json" where
  "focus_json st ids =
     (let focus = ps_goal_focus st;
          v = json_obj [(''depth'', json_nat (focus_depth focus))];
          v = (if ids
               then json_set ''given_up_goal_ids'' (evars_json (gf_given_up focus))
                 (json_set ''shelved_goal_ids'' (evars_json (gf_shelved focus))
                 (json_set ''stack'' (JArray (map (\<lambda>f. json_obj [(''left_goal_ids'', evars_json (frame_left f)),
                     (''right_goal_ids'', evars_json (frame_right f))]) (gf_stack focus)))
                 (json_set ''focused_goal_ids'' (evars_json (gf_focused focus)) v)))
               else v)
      in case gf_next_bullet focus of None \<Rightarrow> v | Some b \<Rightarrow> json_set ''next_bullet'' (JString b) v)"

definition goal_counts_json :: "goal_focus \<Rightarrow> json" where
  "goal_counts_json focus = json_obj
     [(''focused'', json_nat (length (gf_focused focus))), (''unfocused'', json_nat (unfocused_count focus)),
      (''shelved'', json_nat (length (gf_shelved focus))), (''given_up'', json_nat (length (gf_given_up focus))),
      (''total'', json_nat (total_count focus))]"

fun lifecycle_text :: "proof_lifecycle \<Rightarrow> string" where
  "lifecycle_text Open = ''Open''"
| "lifecycle_text Completed = ''Completed''"

text \<open>The rendering that a state response shows: a retained one with its continuation, or a first page.\<close>

definition state_page :: "proof_state \<Rightarrow> nat option \<Rightarrow> page" where
  "state_page st retained =
     (case retained of
        Some n \<Rightarrow> \<lparr>page_text = ps_goals st, page_next = Some n\<rparr>
      | None \<Rightarrow> (case text_page (ps_goals st) 0 of Inr p \<Rightarrow> p | Inl _ \<Rightarrow> \<lparr>page_text = [], page_next = None\<rparr>))"

definition state_json_with_options :: "proof_state \<Rightarrow> u64 option \<Rightarrow> nat option \<Rightarrow> bool \<Rightarrow> json" where
  "state_json_with_options st checkpoint retained include_structured =
     (let v = json_obj [(''target'', declaration_identity_json (identity (ps_theorem st))),
            (''status'', JString (lifecycle_text (ps_lifecycle st)))];
          v = (if ps_lifecycle st = Open
               then
                 (let p = state_page st retained;
                      v = json_set ''goals'' (JString (page_text p)) v;
                      v = (case page_next p of None \<Rightarrow> v
                           | Some n \<Rightarrow> (case checkpoint of Some _ \<Rightarrow> json_set ''goals_next_offset'' (json_nat n) v
                               | None \<Rightarrow> json_set ''goals_truncated'' (JBool True) v));
                      v = json_set ''goal_counts'' (goal_counts_json (ps_goal_focus st)) v;
                      v = json_set ''focus'' (focus_json st (checkpoint \<noteq> None)) v
                  in case (include_structured, ps_structured_goals st) of
                       (True, Some g) \<Rightarrow> json_set ''structured_goals'' (structured_goals_json g (checkpoint \<noteq> None)) v
                     | _ \<Rightarrow> v)
               else v)
      in case checkpoint of None \<Rightarrow> v | Some c \<Rightarrow> json_set ''checkpoint'' (JNumber (PosInt c)) v)"

definition proof_state_json :: "proof_state \<Rightarrow> u64 option \<Rightarrow> nat option \<Rightarrow> json" where
  "proof_state_json st checkpoint retained = state_json_with_options st checkpoint retained False"

definition trace_step_json :: "proof_trace_step \<Rightarrow> json" where
  "trace_step_json t = json_obj
     [(''sentence_index'', json_nat (sentence_index t)), (''sentence_number'', json_nat (sentence_index t + 1)),
      (''byte_range'', range_json (byte_range t)), (''command'', JString (tr_command t))]"

definition traced_failure_json :: "('w, 'z) pet_env_scheme \<Rightarrow> proof_failure \<Rightarrow> bool \<Rightarrow> json" where
  "traced_failure_json env f include_structured =
     (let v = public_error env (pf_error f);
          v = json_set ''sentence_index'' (json_nat (pf_sentence_index f)) v;
          v = json_set ''sentence_number'' (json_nat (pf_sentence_index f + 1)) v;
          v = json_set ''sentence_byte_range'' (range_json (pf_sentence_range f)) v;
          v = json_set ''before_state'' (state_json_with_options (pf_before f) None None include_structured) v
      in if pf_trace f = [] then v else json_set ''trace'' (JArray (map trace_step_json (pf_trace f))) v)"

section \<open>Comparing goal contexts\<close>

definition semantic_goal_json :: "string \<Rightarrow> goal_detail \<Rightarrow> json" where
  "semantic_goal_json scope g = json_obj
     [(''scope'', JString scope), (''name'', json_opt JString (gd_name g)),
      (''hypotheses'', JArray (map hypothesis_json (gd_hypotheses g))), (''type'', JString (gd_ty g))]"

type_synonym keyed_goal = "string \<times> json"

definition flatten_goals :: "('w, 'z) pet_env_scheme \<Rightarrow> structured_goals \<Rightarrow> keyed_goal list" where
  "flatten_goals env g =
     map (\<lambda>v. (encoded env v, v))
       (map (semantic_goal_json ''focused'') (sg_focused g) @ map (semantic_goal_json ''unfocused'') (sg_unfocused g)
        @ map (semantic_goal_json ''shelved'') (sg_shelved g) @ map (semantic_goal_json ''given_up'') (sg_given_up g))"

text \<open>The state of the matching loop.\<close>

record matching =
  used_after :: "bool list"
  removed :: "json list"
  unchanged :: nat
  is_ambiguous :: bool

definition matches :: "keyed_goal list \<Rightarrow> bool list \<Rightarrow> string \<Rightarrow> nat list" where
  "matches after used key = filter (\<lambda>i. \<not> used ! i \<and> fst (after ! i) = key) [0 ..< length after]"

definition match_one :: "keyed_goal list \<Rightarrow> keyed_goal \<Rightarrow> matching \<Rightarrow> matching" where
  "match_one after kv m =
     (let is = matches after (used_after m) (fst kv);
          m = (if 1 < length is then m\<lparr>is_ambiguous := True\<rparr> else m)
      in case is of
           i # _ \<Rightarrow> m\<lparr>used_after := (used_after m)[i := True], unchanged := unchanged m + 1\<rparr>
         | [] \<Rightarrow> m\<lparr>removed := removed m @ [snd kv]\<rparr>)"

fun match_all :: "keyed_goal list \<Rightarrow> keyed_goal list \<Rightarrow> matching \<Rightarrow> matching" where
  "match_all after [] m = m"
| "match_all after (kv # before) m = match_all after before (match_one after kv m)"

definition match_start :: "keyed_goal list \<Rightarrow> matching" where
  "match_start after = \<lparr>used_after = replicate (length after) False, removed = [], unchanged = 0, is_ambiguous = False\<rparr>"

definition added_goals :: "keyed_goal list \<Rightarrow> matching \<Rightarrow> json list" where
  "added_goals after m = map (\<lambda>i. snd (after ! i)) (filter (\<lambda>i. \<not> used_after m ! i) [0 ..< length after])"

definition goal_diff_json :: "('w, 'z) pet_env_scheme \<Rightarrow> proof_state \<Rightarrow> proof_state \<Rightarrow> json option" where
  "goal_diff_json env before after =
     Option.bind (ps_structured_goals before) (\<lambda>b.
     Option.bind (ps_structured_goals after) (\<lambda>a.
     let before = flatten_goals env b; after = flatten_goals env a; m = match_all after before (match_start after) in
     Some (json_obj
       [(''matching'', JString ''semantic_context_and_type''), (''epoch_ids_used'', JBool False),
        (''ambiguous'', JBool (is_ambiguous m)), (''before_count'', json_nat (length before)),
        (''after_count'', json_nat (length after)), (''unchanged_count'', json_nat (unchanged m)),
        (''added'', JArray (added_goals after m)), (''removed'', JArray (removed m))])))"

text \<open>The reference: multisets of keys.\<close>

definition keys_of :: "keyed_goal list \<Rightarrow> string multiset" where
  "keys_of gs = image_mset fst (mset gs)"

definition unused :: "keyed_goal list \<Rightarrow> bool list \<Rightarrow> nat set" where
  "unused after used = {i. i < length after \<and> \<not> used ! i}"

definition unused_keys :: "keyed_goal list \<Rightarrow> bool list \<Rightarrow> string multiset" where
  "unused_keys after used = image_mset (\<lambda>i. fst (after ! i)) (mset_set (unused after used))"

lemma finite_unused [simp]: "finite (unused after used)"
  by (simp add: unused_def)

lemma unused_keys_take:
  assumes "i \<in> unused after used" and "length used = length after"
  shows "unused_keys after used = add_mset (fst (after ! i)) (unused_keys after (used[i := True]))"
proof -
  have "unused after (used[i := True]) = unused after used - {i}"
    using assms by (auto simp: unused_def nth_list_update)
  then show ?thesis
    using assms by (simp add: unused_keys_def mset_set.remove)
qed

lemma matches_unused: "set (matches after used key) = {i \<in> unused after used. fst (after ! i) = key}"
  by (auto simp: matches_def unused_def)

lemma length_matches: "length (matches after used key) = count (unused_keys after used) key"
proof -
  have "length (matches after used key) = card {i \<in> unused after used. fst (after ! i) = key}"
    by (metis matches_unused distinct_card distinct_filter distinct_upt matches_def)
  also have "\<dots> = count (unused_keys after used) key"
    by (simp add: unused_keys_def count_image_mset vimage_def Int_def conj_commute)
  finally show ?thesis .
qed

lemma unused_keys_start: "unused_keys after (used_after (match_start after)) = keys_of after"
proof -
  have "unused after (replicate (length after) False) = {0 ..< length after}" by (auto simp: unused_def)
  then have "unused_keys after (used_after (match_start after)) = mset (map (\<lambda>i. fst (after ! i)) [0 ..< length after])"
    by (simp add: unused_keys_def match_start_def mset_set_upto_eq_mset_upto)
  also have "map (\<lambda>i. fst (after ! i)) [0 ..< length after] = map fst after"
    by (rule nth_equalityI) simp_all
  finally show ?thesis by (simp add: keys_of_def)
qed

text \<open>The invariant of the loop.\<close>

lemma match_all_spec:
  assumes "length (used_after m) = length after"
    and "R = unused_keys after (used_after m)" and "m' = match_all after before m"
  shows "length (used_after m') = length after
    \<and> unused_keys after (used_after m') = R - keys_of before
    \<and> unchanged m' = unchanged m + size (keys_of before \<inter># R)
    \<and> (\<exists>gone. removed m' = removed m @ map snd gone \<and> set gone \<subseteq> set before \<and> keys_of gone = keys_of before - R)
    \<and> (is_ambiguous m' \<longleftrightarrow> is_ambiguous m \<or> (\<exists>k. k \<in># keys_of before \<and> 2 \<le> count R k))"
  using assms
proof (induction before arbitrary: m R)
  case Nil
  then show ?case by (auto simp: keys_of_def)
next
  case (Cons kv before)
  obtain k v where kv: "kv = (k, v)" by (cases kv)
  let ?is = "matches after (used_after m) k" and ?m1 = "match_one after kv m"
  have cnt: "length ?is = count R k" using Cons.prems by (simp add: length_matches)
  have keys: "keys_of (kv # before) = add_mset k (keys_of before)" by (simp add: keys_of_def kv)
  show ?case
  proof (cases ?is)
    case Nil
    with cnt have notin: "k \<notin># R" by (simp add: not_in_iff)
    have m1: "?m1 = m\<lparr>removed := removed m @ [v]\<rparr>" using Nil by (simp add: match_one_def kv)
    from Cons.IH [of ?m1 R] Cons.prems m1 obtain gone where
      ih: "length (used_after m') = length after" "unused_keys after (used_after m') = R - keys_of before"
        "unchanged m' = unchanged m + size (keys_of before \<inter># R)"
        "removed m' = (removed m @ [v]) @ map snd gone" "set gone \<subseteq> set before" "keys_of gone = keys_of before - R"
        "is_ambiguous m' \<longleftrightarrow> is_ambiguous m \<or> (\<exists>k. k \<in># keys_of before \<and> 2 \<le> count R k)"
      by auto
    have "keys_of (kv # gone) = keys_of (kv # before) - R"
      using ih(6) notin by (simp add: keys_of_def kv)
    moreover have "removed m' = removed m @ map snd (kv # gone)" using ih(4) by (simp add: kv)
    moreover have "R - keys_of (kv # before) = R - keys_of before" using notin by (simp add: keys)
    moreover have "keys_of (kv # before) \<inter># R = keys_of before \<inter># R"
      using notin by (auto simp: keys not_in_iff intro!: multiset_eqI)
    ultimately show ?thesis
      using ih notin by (auto simp: keys not_in_iff intro!: exI [of _ "kv # gone"])
  next
    case (Cons i rest)
    then have i: "i \<in> unused after (used_after m)" "fst (after ! i) = k"
      using matches_unused [of after "used_after m" k] by auto
    let ?R' = "unused_keys after ((used_after m)[i := True])"
    have R: "R = add_mset k ?R'"
      using unused_keys_take [OF i(1)] Cons.prems i(2) by simp
    have m1: "used_after ?m1 = (used_after m)[i := True]" "unchanged ?m1 = unchanged m + 1" "removed ?m1 = removed m"
      "is_ambiguous ?m1 \<longleftrightarrow> is_ambiguous m \<or> 2 \<le> count R k"
      using Cons cnt by (auto simp: match_one_def kv Let_def)
    from Cons.IH [of ?m1 ?R'] Cons.prems m1 obtain gone where
      ih: "length (used_after m') = length after" "unused_keys after (used_after m') = ?R' - keys_of before"
        "unchanged m' = unchanged m + 1 + size (keys_of before \<inter># ?R')"
        "removed m' = removed m @ map snd gone" "set gone \<subseteq> set before" "keys_of gone = keys_of before - ?R'"
        "is_ambiguous m' \<longleftrightarrow> (is_ambiguous m \<or> 2 \<le> count R k) \<or> (\<exists>k. k \<in># keys_of before \<and> 2 \<le> count ?R' k)"
      by auto
    have amb: "(2 \<le> count R k \<or> (\<exists>j. j \<in># keys_of before \<and> 2 \<le> count ?R' j)) \<longleftrightarrow>
        (\<exists>j. j \<in># keys_of (kv # before) \<and> 2 \<le> count R j)"
    proof -
      have eq: "count R j = (if j = k then Suc (count ?R' k) else count ?R' j)" for j
        using arg_cong [OF R, of "\<lambda>M. count M j"] by simp
      have "2 \<le> count ?R' j \<Longrightarrow> 2 \<le> count R j" for j using eq [of j] by (metis le_SucI)
      moreover have "2 \<le> count R j \<Longrightarrow> j \<noteq> k \<Longrightarrow> 2 \<le> count ?R' j" for j using eq [of j] by simp
      ultimately show ?thesis unfolding keys set_mset_add_mset_insert by blast
    qed
    show ?thesis
      using ih amb by (auto simp: keys R intro!: exI [of _ gone])
  qed
qed

text \<open>
  C34. The goal comparison is a multiset comparison. On the keys of the goals, the serialised context,
  scope and type, the loop with its used marks counts as unchanged exactly the multiset intersection,
  reports as removed and added exactly the two multiset differences, each with the goals themselves,
  and says ambiguous exactly when some goal of the first state occurs more than once in the second.
\<close>

theorem goal_diff_is_multiset_difference:
  "let m = match_all after before (match_start after) in
     unchanged m = size (keys_of before \<inter># keys_of after)
     \<and> (\<exists>gone. removed m = map snd gone \<and> set gone \<subseteq> set before \<and> keys_of gone = keys_of before - keys_of after)
     \<and> (\<exists>new. added_goals after m = map snd new \<and> set new \<subseteq> set after \<and> keys_of new = keys_of after - keys_of before)
     \<and> (is_ambiguous m \<longleftrightarrow> (\<exists>k. k \<in># keys_of before \<and> 2 \<le> count (keys_of after) k))"
proof -
  let ?m = "match_all after before (match_start after)"
  have len: "length (used_after (match_start after)) = length after" by (simp add: match_start_def)
  have start: "unchanged (match_start after) = 0" "removed (match_start after) = []"
    "is_ambiguous (match_start after) = False" by (simp_all add: match_start_def)
  note spec = match_all_spec [OF len refl refl, of before, unfolded unused_keys_start]
  let ?is = "filter (\<lambda>i. \<not> used_after ?m ! i) [0 ..< length after]"
  let ?new = "map ((!) after) ?is"
  have "unused after (used_after ?m) = set ?is" by (auto simp: unused_def)
  then have "mset_set (unused after (used_after ?m)) = mset ?is"
    by (simp add: mset_set_set)
  then have "keys_of ?new = keys_of after - keys_of before"
    using spec by (simp add: unused_keys_def keys_of_def multiset.map_comp comp_def)
  moreover have "added_goals after ?m = map snd ?new" by (simp add: added_goals_def)
  moreover have "set ?new \<subseteq> set after" by auto
  ultimately have new: "\<exists>new. added_goals after ?m = map snd new \<and> set new \<subseteq> set after
      \<and> keys_of new = keys_of after - keys_of before" by blast
  show ?thesis
    unfolding Let_def using spec [unfolded start] new by (intro conjI) simp_all
qed


section \<open>Reading a text page by page\<close>

text \<open>
  A client that follows \<open>next_offset\<close>: the pages it gets, in order. \<open>None\<close> stands for a client that
  is still asking after \<open>fuel\<close> requests.
\<close>

fun follow :: "nat \<Rightarrow> string \<Rightarrow> nat \<Rightarrow> (err + string list) option" where
  "follow 0 text offset = None"
| "follow (Suc fuel) text offset =
     (case text_page text offset of
        Inl e \<Rightarrow> Some (Inl e)
      | Inr p \<Rightarrow>
          (case page_next p of
             None \<Rightarrow> Some (Inr [page_text p])
           | Some n \<Rightarrow> map_option (map_sum id ((#) (page_text p))) (follow fuel text n)))"

definition page_at :: "string \<Rightarrow> nat \<Rightarrow> string \<Rightarrow> bool" where
  "page_at text k p \<longleftrightarrow> length p \<le> QUERY_PAGE_BYTES \<and> is_char_boundary text k \<and> is_char_boundary text (k + length p)"

lemma first_page_total: "\<exists>p. text_page text 0 = Inr p"
  by (auto simp: text_page_def Let_def)

lemma text_page_at:
  assumes "utf8 text" "is_char_boundary text k" "k < length text \<or> k = 0 \<and> text = []"
  obtains p where "text_page text k = Inr p" "page_at text k (page_text p)"
    "page_text p = take (length (page_text p)) (drop k text)"
    "page_next p = None \<and> k + length (page_text p) = length text
     \<or> page_next p = Some (k + length (page_text p)) \<and> k + length (page_text p) < length text
       \<and> QUERY_PAGE_BYTES < length (page_text p) + 4"
proof -
  have le: "k \<le> length text" by (rule char_boundary_le [OF assms(2)])
  have no_err: "\<not> (length text < k \<or> \<not> is_char_boundary text k \<or> k = length text \<and> text \<noteq> [])"
    using assms le by auto
  show thesis
  proof (cases "k = 0 \<and> length text \<le> QUERY_PAGE_BYTES")
    case True
    with no_err have "text_page text k = Inr \<lparr>page_text = text, page_next = None\<rparr>"
      by (simp add: text_page_def)
    with True that show thesis by (simp add: page_at_def)
  next
    case False
    let ?m = "min (k + QUERY_PAGE_BYTES) (length text)"
    define e where "e = cut_back text k ?m"
    have bounds: "k \<le> e" "e \<le> ?m" using cut_back_bounds [of k ?m "text"] le by (auto simp: e_def)
    have bd: "is_char_boundary text e" using cut_back_boundary [of k ?m "text"] le assms(2) by (simp add: e_def)
    let ?p = "\<lparr>page_text = take (e - k) (drop k text), page_next = (if e < length text then Some e else None)\<rparr>"
    have run: "text_page text k = Inr ?p"
      unfolding text_page_def Let_def e_def using no_err False by simp
    have within: "e \<le> length text" using bounds(2) by simp
    then have "min (length text - k) (e - k) = e - k" by linarith
    moreover have size: "e - k \<le> QUERY_PAGE_BYTES" using bounds(2) by (simp only: min.bounded_iff) linarith
    ultimately have len: "length (page_text ?p) = e - k" "k + length (page_text ?p) = e"
      using bounds(1) by (simp_all add: min.commute)
    have more: "QUERY_PAGE_BYTES < length (page_text ?p) + 4" if "e < length text"
    proof (cases "k + QUERY_PAGE_BYTES \<le> length text")
      case True
      have "k + 4 \<le> ?m" using True by (simp add: QUERY_PAGE_BYTES_def)
      from cut_back_near [OF assms(1) _ this] True bounds(1) show ?thesis unfolding len(1) by (simp add: e_def)
    next
      case False
      then have "?m = length text" by simp
      with that show ?thesis by (simp add: e_def cut_back_fix)
    qed
    show thesis
    proof (rule that [OF run])
      show "page_at text k (page_text ?p)"
        unfolding page_at_def len(2) using bd assms(2) size unfolding len(1) by blast
      show "page_text ?p = take (length (page_text ?p)) (drop k text)" unfolding len(1) by simp
      show "page_next ?p = None \<and> k + length (page_text ?p) = length text
         \<or> page_next ?p = Some (k + length (page_text ?p)) \<and> k + length (page_text ?p) < length text
           \<and> QUERY_PAGE_BYTES < length (page_text ?p) + 4"
        unfolding len(2) using more within by auto
    qed
  qed
qed

text \<open>A page that is not the last is longer than half the bound, so two bytes of fuel per page are
  more than enough.\<close>

lemma follow_from:
  assumes "utf8 text" "is_char_boundary text k" "k < length text \<or> k = 0 \<and> text = []"
    and "length text - k < fuel"
  shows "\<exists>ps. follow fuel text k = Some (Inr ps) \<and> concat ps = drop k text
    \<and> list_all (\<lambda>p. length p \<le> QUERY_PAGE_BYTES) ps
    \<and> (\<forall>i \<le> length ps. is_char_boundary text (k + length (concat (take i ps))))"
  using assms
proof (induction fuel arbitrary: k)
  case (Suc fuel)
  obtain p where p: "text_page text k = Inr p" "page_at text k (page_text p)"
    "page_text p = take (length (page_text p)) (drop k text)"
    and cont: "page_next p = None \<and> k + length (page_text p) = length text
     \<or> page_next p = Some (k + length (page_text p)) \<and> k + length (page_text p) < length text
       \<and> QUERY_PAGE_BYTES < length (page_text p) + 4"
    by (rule text_page_at [OF Suc.prems(1-3)])
  let ?t = "page_text p"
  from cont show ?case
  proof (elim disjE conjE)
    assume "page_next p = None" and all: "k + length ?t = length text"
    moreover from all p(3) have "?t = drop k text" by simp
    moreover have "is_char_boundary text (k + length (concat (take i [?t])))" for i
      using p(2) Suc.prems(2) by (cases i) (simp_all add: page_at_def)
    ultimately show ?thesis using p(1,2) by (simp add: page_at_def)
  next
    let ?n = "k + length ?t"
    assume n: "page_next p = Some ?n" "?n < length text" "QUERY_PAGE_BYTES < length ?t + 4"
    then have "length text - ?n < fuel" using Suc.prems(4) by (simp add: QUERY_PAGE_BYTES_def)
    from Suc.IH [OF Suc.prems(1) _ _ this] n(2) p(2) obtain ps where
      ps: "follow fuel text ?n = Some (Inr ps)" "concat ps = drop ?n text"
      "list_all (\<lambda>p. length p \<le> QUERY_PAGE_BYTES) ps"
      "\<forall>i \<le> length ps. is_char_boundary text (?n + length (concat (take i ps)))"
      by (auto simp: page_at_def)
    have "?t @ drop ?n text = drop k text"
      using append_take_drop_id [of "length ?t" "drop k text"] p(3) by (simp add: add.commute)
    moreover have "is_char_boundary text (k + length (concat (take i (?t # ps))))" if "i \<le> length (?t # ps)" for i
      using ps(4) that Suc.prems(2) by (cases i) (auto simp: add.assoc)
    ultimately show ?thesis using p(1,2) n ps by (simp add: page_at_def)
  qed
qed simp

text \<open>
  C35. Paging is complete and ends. A client that asks for a query result from offset 0 and follows
  \<open>next_offset\<close> is never refused, stops after at most as many requests as the text has bytes (plus
  one), and the pages it got, each at most 32 KiB and cut only between characters, concatenate to
  exactly the text.
\<close>

theorem paging_complete:
  assumes "utf8 text" and "length text < fuel"
  shows "\<exists>ps. follow fuel text 0 = Some (Inr ps) \<and> concat ps = text
    \<and> list_all (\<lambda>p. length p \<le> QUERY_PAGE_BYTES) ps
    \<and> (\<forall>i \<le> length ps. is_char_boundary text (length (concat (take i ps))))"
  using follow_from [OF assms(1), of 0 fuel] assms(2) by fastforce

theorem paging_complete_witness:
  "utf8 ''goal'' \<and> (\<exists>ps. follow 5 ''goal'' 0 = Some (Inr ps) \<and> concat ps = ''goal'')"
proof -
  have "utf8 ''goal''" by code_simp
  with paging_complete [of "''goal''" 5] show ?thesis by auto
qed

end
