(* ===== verification/Server_Progress.thy ===== *)
theory Server_Progress
  imports Wire
begin

text \<open>
  The progress record of one MCP connection (\<open>ProgressBook\<close>, \<open>ProgressRecord\<close> and the progress
  methods of \<open>SessionCell\<close> in \<open>rocq-mcp/src/server.rs\<close>). The mutex makes each method one atomic
  step on the book, so a run is a list of calls in any order; \<open>Instant::now\<close> is an argument, the
  clock's milliseconds.
\<close>

section \<open>The book\<close>

record progress_record =
  pg_operation :: string
  pg_status :: string
  pg_phase :: string
  pg_completed :: u64
  pg_total :: "u64 option"
  pg_target :: "json option"
  pg_log_summary :: string
  pg_started :: nat
  pg_terminal_elapsed :: "nat option"

record progress_book =
  pg_generation :: u64
  pg_record :: "progress_record option"

definition progress_new :: progress_book where
  "progress_new = \<lparr>pg_generation = 0, pg_record = None\<rparr>"

definition LOG_LIMIT :: nat where
  "LOG_LIMIT = 4096"

text \<open>The ellipsis is the character U+2026.\<close>

definition bounded_log :: "string \<Rightarrow> string" where
  "bounded_log value =
     (if length value \<le> LOG_LIMIT then value
      else take (cut_back value 0 LOG_LIMIT) value @ [CHR 0xE2, CHR 0x80, CHR 0xA6])"

definition saturating_add :: "u64 \<Rightarrow> u64 \<Rightarrow> u64" where
  "saturating_add a b = (case checked_add a b of Some c \<Rightarrow> c | None \<Rightarrow> - 1)"

definition begin_progress :: "string \<Rightarrow> json option \<Rightarrow> nat \<Rightarrow> progress_book \<Rightarrow> u64 \<times> progress_book" where
  "begin_progress operation target now b =
     (let g = saturating_add (pg_generation b) 1 in
      (g, \<lparr>pg_generation = g, pg_record = Some \<lparr>pg_operation = operation, pg_status = ''running'', pg_phase = ''admitted'',
         pg_completed = 0, pg_total = None, pg_target = target, pg_log_summary = [], pg_started = now,
         pg_terminal_elapsed = None\<rparr>\<rparr>))"

definition update_progress ::
  "u64 \<Rightarrow> string \<Rightarrow> u64 \<Rightarrow> u64 option \<Rightarrow> string \<Rightarrow> progress_book \<Rightarrow> progress_book" where
  "update_progress generation phase completed tot log_text b =
     (if pg_generation b \<noteq> generation then b
      else case pg_record b of
        None \<Rightarrow> b
      | Some r \<Rightarrow>
          (if pg_status r \<noteq> ''running'' then b
           else b\<lparr>pg_record := Some (r\<lparr>pg_phase := phase, pg_completed := completed, pg_total := tot,
             pg_log_summary := (if log_text = [] then pg_log_summary r else bounded_log log_text)\<rparr>)\<rparr>))"

definition update_current_progress :: "string \<Rightarrow> u64 \<Rightarrow> u64 option \<Rightarrow> string \<Rightarrow> progress_book \<Rightarrow> progress_book" where
  "update_current_progress phase completed tot log_text b =
     update_progress (pg_generation b) phase completed tot log_text b"

definition set_progress_target :: "json \<Rightarrow> progress_book \<Rightarrow> progress_book" where
  "set_progress_target target b =
     (case pg_record b of
        None \<Rightarrow> b
      | Some r \<Rightarrow> (if pg_status r = ''running'' then b\<lparr>pg_record := Some (r\<lparr>pg_target := Some target\<rparr>)\<rparr> else b))"

definition finished_record :: "nat \<Rightarrow> err + json \<Rightarrow> progress_record \<Rightarrow> progress_record" where
  "finished_record now result r =
     (let r = r\<lparr>pg_terminal_elapsed := Some (now - pg_started r)\<rparr> in
      case result of
        Inr v \<Rightarrow>
          (case json_get v ''error'' of
             Some e \<Rightarrow>
               (let r = r\<lparr>pg_status := ''failed'', pg_phase := ''failed''\<rparr> in
                case Option.bind (json_get e ''message'') as_str of
                  Some m \<Rightarrow> r\<lparr>pg_log_summary := bounded_log m\<rparr> | None \<Rightarrow> r)
           | None \<Rightarrow>
               (let r = r\<lparr>pg_status := ''completed'', pg_phase := ''completed''\<rparr> in
                case pg_total r of Some t \<Rightarrow> r\<lparr>pg_completed := t\<rparr> | None \<Rightarrow> r))
      | Inl e \<Rightarrow>
          (let status = (if err_kind e = RequestCancelled then ''cancelled'' else ''failed'') in
           r\<lparr>pg_status := status, pg_phase := status, pg_log_summary := bounded_log (err_message e)\<rparr>))"

definition finish_progress :: "u64 \<Rightarrow> nat \<Rightarrow> err + json \<Rightarrow> progress_book \<Rightarrow> progress_book" where
  "finish_progress generation now result b =
     (if pg_generation b \<noteq> generation then b
      else case pg_record b of
        None \<Rightarrow> b
      | Some r \<Rightarrow> b\<lparr>pg_record := Some (finished_record now result r)\<rparr>)"

text \<open>Milliseconds that do not fit into a \<open>u64\<close> are shown as its maximum.\<close>

definition elapsed_json :: "nat \<Rightarrow> json" where
  "elapsed_json n = JNumber (PosInt (if n < 2 ^ 64 then of_nat n else - 1))"

definition progress_json :: "nat \<Rightarrow> u64 option \<Rightarrow> progress_book \<Rightarrow> json" where
  "progress_json now observed b =
     (let changed = JBool (observed \<noteq> Some (pg_generation b)); g = JNumber (PosInt (pg_generation b)) in
      case pg_record b of
        None \<Rightarrow> json_obj [(''generation'', g), (''status'', JString ''idle''), (''changed'', changed)]
      | Some r \<Rightarrow>
          (let elapsed = (case pg_terminal_elapsed r of Some t \<Rightarrow> t | None \<Rightarrow> now - pg_started r);
               v = json_obj [(''generation'', g), (''operation'', JString (pg_operation r)), (''status'', JString (pg_status r)),
                 (''phase'', JString (pg_phase r)), (''completed'', JNumber (PosInt (pg_completed r))),
                 (''elapsed_ms'', elapsed_json elapsed), (''changed'', changed)];
               v = (case pg_total r of None \<Rightarrow> v | Some t \<Rightarrow> json_set ''total'' (JNumber (PosInt t)) v);
               v = (case pg_target r of None \<Rightarrow> v | Some t \<Rightarrow> json_set ''target'' t v)
           in if pg_log_summary r = [] then v else json_set ''log_summary'' (JString (pg_log_summary r)) v))"

text \<open>The optional \<open>generation\<close> argument, shared by the two places that read it.\<close>

definition observed_generation :: "json \<Rightarrow> err + u64 option" where
  "observed_generation args =
     (case json_get args ''generation'' of
        None \<Rightarrow> Inr None
      | Some v \<Rightarrow> result_bind (ok_or (error_new InvalidRequest ''generation must be a non-negative integer'') (as_u64 v))
          (\<lambda>n. Inr (Some n)))"

definition progress_query :: "nat \<Rightarrow> progress_book \<Rightarrow> json \<Rightarrow> err + json" where
  "progress_query now b args =
     result_bind (ok_or (error_new InvalidRequest ''query arguments must be an object'') (as_object args)) (\<lambda>m.
     if Option.bind (bt_get m ''kind'') as_str \<noteq> Some ''progress''
     then Inl (error_new InvalidRequest ''progress query kind must be progress'')
     else if list_ex (\<lambda>k. k \<noteq> ''kind'' \<and> k \<noteq> ''generation'') (map fst m)
     then Inl (error_new InvalidRequest ''progress query has an unknown field'')
     else result_bind (observed_generation args) (\<lambda>g. Inr (progress_json now g b)))"

section \<open>The invariant\<close>

text \<open>The calls of the connection, in any order.\<close>

datatype progress_call =
    CallBegin string "json option" nat
  | CallUpdate u64 string u64 "u64 option" string
  | CallUpdateCurrent string u64 "u64 option" string
  | CallTarget json
  | CallFinish u64 nat "err + json"

fun apply_call :: "progress_call \<Rightarrow> progress_book \<Rightarrow> progress_book" where
  "apply_call (CallBegin operation target now) b = snd (begin_progress operation target now b)"
| "apply_call (CallUpdate g phase completed tot t) b = update_progress g phase completed tot t b"
| "apply_call (CallUpdateCurrent phase completed tot t) b = update_current_progress phase completed tot t b"
| "apply_call (CallTarget t) b = set_progress_target t b"
| "apply_call (CallFinish g now result) b = finish_progress g now result b"

definition terminal_status :: "string \<Rightarrow> bool" where
  "terminal_status s \<longleftrightarrow> s = ''completed'' \<or> s = ''failed'' \<or> s = ''cancelled''"

text \<open>A record is running with no end time, or terminal with one and with its status as phase; a
  completed one shows all of its total; the log is bounded.\<close>

definition record_ok :: "progress_record \<Rightarrow> bool" where
  "record_ok r \<longleftrightarrow>
     (if pg_status r = ''running'' then pg_terminal_elapsed r = None
      else terminal_status (pg_status r) \<and> pg_phase r = pg_status r \<and> pg_terminal_elapsed r \<noteq> None
        \<and> (pg_status r = ''completed'' \<longrightarrow> (\<forall>t. pg_total r = Some t \<longrightarrow> pg_completed r = t)))
     \<and> length (pg_log_summary r) \<le> LOG_LIMIT + 3"

definition progress_ok :: "progress_book \<Rightarrow> bool" where
  "progress_ok b \<longleftrightarrow> (case pg_record b of None \<Rightarrow> pg_generation b = 0 | Some r \<Rightarrow> 0 < pg_generation b \<and> record_ok r)"

lemma bounded_log_length: "length (bounded_log s) \<le> LOG_LIMIT + 3"
  using cut_back_bounds [of 0 LOG_LIMIT s] by (simp add: bounded_log_def)

lemma saturating_add_word: "unat (saturating_add a 1) = min (unat a + 1) (2 ^ 64 - 1)"
proof (cases "checked_add a 1")
  case None
  then have "unat a + 1 \<ge> 2 ^ 64" by (simp add: checked_add_None)
  with None show ?thesis by (simp add: saturating_add_def unsigned_minus_1_eq_mask mask_eq_exp_minus_1)
next
  case (Some c)
  then have "unat c = unat a + 1" using checked_add_Some [OF Some] by simp
  moreover have "unat c < 2 ^ 64" using unsigned_less [of c] by simp
  ultimately show ?thesis using Some by (simp add: saturating_add_def)
qed

lemma saturating_pos: "0 < saturating_add a 1"
  using saturating_add_word [of a] by (simp add: word_less_nat_alt)

lemma finished_ok: "record_ok (finished_record now result r)" if "length (pg_log_summary r) \<le> LOG_LIMIT + 3"
  using that bounded_log_length
  by (auto simp: finished_record_def Let_def record_ok_def terminal_status_def split: sum.splits option.splits)

lemma log_bounded: "record_ok r \<Longrightarrow> length (pg_log_summary r) \<le> LOG_LIMIT + 3"
  by (simp add: record_ok_def)

lemma progress_ok_call: "progress_ok b \<Longrightarrow> progress_ok (apply_call c b)"
proof (cases c)
  case (CallFinish g now result)
  assume "progress_ok b"
  with CallFinish finished_ok show ?thesis
    by (auto simp: finish_progress_def progress_ok_def dest: log_bounded split: option.splits)
next
  case (CallBegin operation target now)
  then show ?thesis using saturating_pos by (simp add: begin_progress_def progress_ok_def record_ok_def Let_def)
qed (use bounded_log_length in \<open>auto simp: update_progress_def update_current_progress_def set_progress_target_def
      progress_ok_def record_ok_def split: option.splits\<close>)

lemma progress_ok_run: "progress_ok b \<Longrightarrow> progress_ok (fold apply_call cs b)"
  by (induction cs arbitrary: b) (auto intro: progress_ok_call)

lemma progress_ok_new: "progress_ok progress_new"
  by (simp add: progress_ok_def progress_new_def)

text \<open>Calls for a generation that is not the current one.\<close>

fun is_for :: "u64 \<Rightarrow> progress_call \<Rightarrow> bool" where
  "is_for g (CallUpdate g' _ _ _ _) \<longleftrightarrow> g' = g"
| "is_for g (CallFinish g' _ _) \<longleftrightarrow> g' = g"
| "is_for g _ \<longleftrightarrow> False"

lemma late_call: "is_for g c \<Longrightarrow> pg_generation b \<noteq> g \<Longrightarrow> apply_call c b = b"
  by (cases c) (auto simp: update_progress_def finish_progress_def)

lemma late_calls: "list_all (is_for g) cs \<Longrightarrow> pg_generation b \<noteq> g \<Longrightarrow> fold apply_call cs b = b"
  by (induction cs) (auto simp: late_call)

text \<open>Only a new operation or a second \<open>finish\<close> touches a terminal record.\<close>

fun observing :: "progress_call \<Rightarrow> bool" where
  "observing (CallBegin _ _ _) \<longleftrightarrow> False"
| "observing (CallFinish _ _ _) \<longleftrightarrow> False"
| "observing _ \<longleftrightarrow> True"

lemma terminal_call: "observing c \<Longrightarrow> pg_record b = Some r \<Longrightarrow> pg_status r \<noteq> ''running'' \<Longrightarrow> apply_call c b = b"
  by (cases c) (simp_all add: update_progress_def update_current_progress_def set_progress_target_def)

lemma terminal_calls:
  "list_all observing cs \<Longrightarrow> pg_record b = Some r \<Longrightarrow> pg_status r \<noteq> ''running'' \<Longrightarrow> fold apply_call cs b = b"
  by (induction cs) (auto simp: terminal_call)

lemma generation_call: "unat (pg_generation b) \<le> unat (pg_generation (apply_call c b))"
proof (cases c)
  case (CallBegin operation target now)
  have "unat (pg_generation b) < 2 ^ 64" using unsigned_less [of "pg_generation b"] by simp
  with CallBegin saturating_add_word [of "pg_generation b"] show ?thesis
    by (simp add: begin_progress_def Let_def)
qed (auto simp: update_progress_def update_current_progress_def set_progress_target_def
      finish_progress_def split: option.splits)

lemma generation_run: "unat (pg_generation b) \<le> unat (pg_generation (fold apply_call cs b))"
  by (induction cs arbitrary: b) (auto intro: order_trans generation_call)

text \<open>
  The progress record is consistent and bounded. Whatever calls a connection makes, and in
  whatever order: there is no record exactly before the first operation; a record is running and has
  no end time, or it is completed, failed or cancelled, with its status as phase and its elapsed time
  fixed; a completed one shows its whole total; the kept log is at most 4099 bytes; and the
  generation never decreases.
\<close>

theorem progress_invariant:
  "progress_ok (fold apply_call cs progress_new)
   \<and> unat (pg_generation (fold apply_call cs progress_new))
     \<le> unat (pg_generation (fold apply_call ds (fold apply_call cs progress_new)))"
  using progress_ok_run [OF progress_ok_new] generation_run by blast

text \<open>
  A finished operation stays finished, and a late worker cannot touch its successor. After an
  operation has ended, any updates leave its terminal record as it is; after the next operation has
  begun, every update and finish of the earlier one is ignored. (The generation is a saturating
  \<open>u64\<close>: the statement is for all but the last generation number.)
\<close>

theorem progress_isolated:
  assumes "begin_progress operation target now b = (g, b1)" and "Suc (unat g) < 2 ^ 64"
    and "begin_progress operation' target' now' b2 = (g', b3)" and "pg_generation b2 = g"
  shows "g' \<noteq> g
    \<and> (list_all (is_for g) late \<longrightarrow> fold apply_call late b3 = b3)
    \<and> (list_all observing cs \<longrightarrow>
         fold apply_call cs (finish_progress g t result b1) = finish_progress g t result b1)"
proof -
  from assms(3,4) have g': "g' = saturating_add g 1" "pg_generation b3 = g'"
    by (auto simp: begin_progress_def Let_def)
  from g'(1) assms(2) saturating_add_word [of g] have "unat g' = Suc (unat g)" by simp
  then have neq: "g' \<noteq> g" by auto
  from assms(1) obtain r where r: "b1 = \<lparr>pg_generation = g, pg_record = Some r\<rparr>"
    by (auto simp: begin_progress_def Let_def)
  have "pg_record (finish_progress g t result b1) = Some (finished_record t result r)"
    by (simp add: r finish_progress_def)
  moreover have "pg_status (finished_record t result r) \<noteq> ''running''"
    by (auto simp: finished_record_def Let_def split: sum.splits option.splits)
  ultimately show ?thesis
    using neq g'(2) by (auto intro: late_calls terminal_calls)
qed

theorem progress_isolated_witness:
  "pg_generation (snd (begin_progress ''query'' None 9 (snd (begin_progress ''check'' None 2 progress_new)))) \<noteq> 1
   \<and> fold apply_call [CallFinish 1 11 (Inr JNull)] (snd (begin_progress ''query'' None 9 (snd (begin_progress ''check'' None 2 progress_new))))
     = snd (begin_progress ''query'' None 9 (snd (begin_progress ''check'' None 2 progress_new)))"
proof -
  define b1 where "b1 = snd (begin_progress ''check'' None 2 progress_new)"
  have one: "begin_progress ''check'' None 2 progress_new = (1, b1)"
    by (simp add: b1_def begin_progress_def progress_new_def saturating_add_def checked_add_def Let_def)
  have gen: "pg_generation b1 = 1"
    by (simp add: b1_def begin_progress_def progress_new_def saturating_add_def checked_add_def Let_def)
  obtain g b3 where two: "begin_progress ''query'' None 9 b1 = (g, b3)" by (metis surj_pair)
  then have "pg_generation b3 = g" by (auto simp: begin_progress_def Let_def)
  moreover have "list_all (is_for 1) [CallFinish 1 11 (Inr JNull)]" by simp
  ultimately show ?thesis
    using progress_isolated [OF one _ two gen, of "[CallFinish 1 11 (Inr JNull)]"] two unfolding b1_def [symmetric]
    by simp
qed

end
