(* ===== verification/Checkpoint.thy ===== *)
theory Checkpoint
  imports Rocq_Types
begin

text \<open>
  \<open>rocq-mcp/src/checkpoint.rs\<close>: the checkpoint graph of one proof. The book keeps the last issued
  identifier (a \<open>u64\<close>) and at most one proof session, whose checkpoints are a \<open>BTreeMap\<close> from
  identifiers to nodes with a parent pointer. The invariant \<open>book_wf\<close> says that the graph is one
  tree whose edges go to smaller identifiers, none above the last issued one; every operation
  keeps it, so the unbounded \<open>loop\<close> of \<open>path\<close> ends. The contract a client needs of such a graph is
  the locale \<open>rooted_forest\<close>.
\<close>

section \<open>The book\<close>

type_synonym checkpoint_id = u64

record checkpoint =
  parent :: "checkpoint_id option"
  pet_state :: "pet_state_id option"
  accepted_input :: "string option"
  finished :: bool
  view :: proof_state
  goals_next_offset :: "nat option"

record proof_session =
  ses_target :: declaration_target
  current :: checkpoint_id
  checkpoints :: "(checkpoint_id, checkpoint) btree_map"

datatype checkpoint_error = NoActiveProof | ActiveProof | Unknown | TooFar | Exhausted

record checkpoint_book =
  book_next :: u64
  active_proof :: "proof_session option"

definition book_default :: checkpoint_book where
  "book_default = \<lparr>book_next = 0, active_proof = None\<rparr>"

definition allocate :: "checkpoint_book \<Rightarrow> (checkpoint_error + checkpoint_id) \<times> checkpoint_book" where
  "allocate b =
     (case checked_add (book_next b) 1 of
        None \<Rightarrow> (Inl Exhausted, b)
      | Some n \<Rightarrow> (Inr n, b\<lparr>book_next := n\<rparr>))"

definition book_begin ::
  "declaration_target \<Rightarrow> pet_state_id \<Rightarrow> bool \<Rightarrow> proof_state \<Rightarrow> nat option \<Rightarrow> checkpoint_book
   \<Rightarrow> (checkpoint_error + checkpoint_id) \<times> checkpoint_book" where
  "book_begin target state fin v next_off b =
     (if active_proof b \<noteq> None then (Inl ActiveProof, b)
      else case allocate b of
        (Inl e, b') \<Rightarrow> (Inl e, b')
      | (Inr i, b') \<Rightarrow>
          (let root = \<lparr>parent = None, pet_state = Some state, accepted_input = None,
                 finished = fin, view = v, goals_next_offset = next_off\<rparr>
           in (Inr i, b'\<lparr>active_proof := Some \<lparr>ses_target = target, current = i,
                 checkpoints = bt_insert i root []\<rparr>\<rparr>)))"

definition book_commit ::
  "pet_state_id \<Rightarrow> string \<Rightarrow> bool \<Rightarrow> proof_state \<Rightarrow> nat option \<Rightarrow> checkpoint_book
   \<Rightarrow> (checkpoint_error + checkpoint_id) \<times> checkpoint_book" where
  "book_commit state input fin v next_off b =
     (case allocate b of
        (Inl e, b') \<Rightarrow> (Inl e, b')
      | (Inr i, b') \<Rightarrow>
          (case active_proof b' of
             None \<Rightarrow> (Inl NoActiveProof, b')
           | Some p \<Rightarrow>
               (let node = \<lparr>parent = Some (current p), pet_state = Some state,
                      accepted_input = Some input, finished = fin, view = v,
                      goals_next_offset = next_off\<rparr>
                in (Inr i, b'\<lparr>active_proof := Some (p\<lparr>checkpoints := bt_insert i node (checkpoints p),
                      current := i\<rparr>)\<rparr>))))"

definition book_current :: "checkpoint_book \<Rightarrow> checkpoint_error + (checkpoint_id \<times> checkpoint)" where
  "book_current b =
     (case active_proof b of
        None \<Rightarrow> Inl NoActiveProof
      | Some p \<Rightarrow>
          (case bt_get (checkpoints p) (current p) of
             None \<Rightarrow> Inl Unknown
           | Some c \<Rightarrow> Inr (current p, c)))"

definition book_lookup :: "checkpoint_book \<Rightarrow> checkpoint_id \<Rightarrow> checkpoint_error + checkpoint" where
  "book_lookup b i =
     (case active_proof b of
        None \<Rightarrow> Inl NoActiveProof
      | Some p \<Rightarrow> ok_or Unknown (bt_get (checkpoints p) i))"

definition book_select ::
  "checkpoint_id \<Rightarrow> checkpoint_book \<Rightarrow> (checkpoint_error + unit) \<times> checkpoint_book" where
  "book_select i b =
     (case active_proof b of
        None \<Rightarrow> (Inl NoActiveProof, b)
      | Some p \<Rightarrow>
          (if bt_get (checkpoints p) i = None then (Inl Unknown, b)
           else (Inr (), b\<lparr>active_proof := Some (p\<lparr>current := i\<rparr>)\<rparr>)))"

text \<open>The loop \<open>for _ in 0..steps\<close> of \<open>steps_back\<close>.\<close>

fun parent_steps ::
  "(checkpoint_id, checkpoint) btree_map \<Rightarrow> nat \<Rightarrow> checkpoint_id \<Rightarrow> checkpoint_error + checkpoint_id" where
  "parent_steps m 0 i = Inr i"
| "parent_steps m (Suc n) i =
     (case bt_get m i of
        None \<Rightarrow> Inl Unknown
      | Some c \<Rightarrow> (case parent c of None \<Rightarrow> Inl TooFar | Some q \<Rightarrow> parent_steps m n q))"

definition steps_back :: "u64 \<Rightarrow> checkpoint_book \<Rightarrow> checkpoint_error + checkpoint_id" where
  "steps_back steps b =
     (if steps = 0 then Inl TooFar
      else case active_proof b of
        None \<Rightarrow> Inl NoActiveProof
      | Some p \<Rightarrow> parent_steps (checkpoints p) (unat steps) (current p))"

definition book_clear :: "checkpoint_book \<Rightarrow> proof_session option \<times> checkpoint_book" where
  "book_clear b = (active_proof b, b\<lparr>active_proof := None\<rparr>)"

definition invalidate_states :: "checkpoint_book \<Rightarrow> checkpoint_book" where
  "invalidate_states b =
     (case active_proof b of
        None \<Rightarrow> b
      | Some p \<Rightarrow> b\<lparr>active_proof := Some (p\<lparr>checkpoints :=
          bt_map_values (\<lambda>c. c\<lparr>pet_state := None\<rparr>) (checkpoints p)\<rparr>)\<rparr>)"

text \<open>The \<open>loop\<close> of \<open>path\<close>, which has no bound of its own: \<open>None\<close> stands for not returning.\<close>

partial_function (option) path_loop ::
  "(checkpoint_id, checkpoint) btree_map \<Rightarrow> checkpoint_id \<Rightarrow> checkpoint_id list
   \<Rightarrow> (checkpoint_error + checkpoint_id list) option" where
  "path_loop m cursor path =
     (case bt_get m cursor of
        None \<Rightarrow> Some (Inl Unknown)
      | Some c \<Rightarrow>
          (case parent c of
             Some q \<Rightarrow> path_loop m q (path @ [cursor])
           | None \<Rightarrow> Some (Inr (path @ [cursor]))))"

definition book_path ::
  "checkpoint_book \<Rightarrow> checkpoint_id \<Rightarrow> (checkpoint_error + checkpoint_id list) option" where
  "book_path b target =
     (case active_proof b of
        None \<Rightarrow> Some (Inl NoActiveProof)
      | Some p \<Rightarrow> map_option (map_sum id rev) (path_loop (checkpoints p) target []))"

text \<open>\<open>fragments\<close>: the accepted inputs along the path, in order.\<close>

fun collect_fragments :: "checkpoint_book \<Rightarrow> checkpoint_id list \<Rightarrow> string list \<Rightarrow> checkpoint_error + string list" where
  "collect_fragments b [] acc = Inr acc"
| "collect_fragments b (i # is) acc =
     (case book_lookup b i of
        Inl e \<Rightarrow> Inl e
      | Inr c \<Rightarrow>
          collect_fragments b is (case accepted_input c of Some input \<Rightarrow> acc @ [input] | None \<Rightarrow> acc))"

definition fragments :: "checkpoint_book \<Rightarrow> checkpoint_id \<Rightarrow> (checkpoint_error + string list) option" where
  "fragments b target =
     (case book_path b target of
        None \<Rightarrow> None
      | Some (Inl e) \<Rightarrow> Some (Inl e)
      | Some (Inr is) \<Rightarrow> Some (collect_fragments b is []))"

text \<open>
  What \<open>replay_checkpoint\<close> of the adapter does to one node once its state is restored: it replaces
  the handle (returning the previous one for release), the view and its continuation.
\<close>

definition install_replayed ::
  "checkpoint_id \<Rightarrow> pet_state_id \<Rightarrow> proof_state \<Rightarrow> nat option \<Rightarrow> proof_session
   \<Rightarrow> (pet_state_id option \<times> proof_session) option" where
  "install_replayed i state v next_off p =
     (case bt_get (checkpoints p) i of
        None \<Rightarrow> None
      | Some node \<Rightarrow> Some (pet_state node, p\<lparr>checkpoints :=
          bt_insert i (node\<lparr>pet_state := Some state, view := v, goals_next_offset := next_off\<rparr>)
            (checkpoints p)\<rparr>))"

section \<open>Rooted paths in a graph with parent pointers\<close>

text \<open>\<open>rooted_path par n ns\<close>: \<open>ns\<close> leads from a node without parent down to \<open>n\<close>.\<close>

inductive rooted_path :: "('n \<Rightarrow> 'n option option) \<Rightarrow> 'n \<Rightarrow> 'n list \<Rightarrow> bool"
  for par :: "'n \<Rightarrow> 'n option option" where
  at_root: "par n = Some None \<Longrightarrow> rooted_path par n [n]"
| below: "par n = Some (Some q) \<Longrightarrow> rooted_path par q ns \<Longrightarrow> rooted_path par n (ns @ [n])"

inductive_cases rooted_pathE: "rooted_path par n ns"

lemma rooted_path_unique:
  "rooted_path par n ns \<Longrightarrow> rooted_path par n ms \<Longrightarrow> ms = ns"
proof (induction arbitrary: ms rule: rooted_path.induct)
  case (at_root n)
  from at_root(2) show ?case using at_root(1) by cases auto
next
  case (below n q ns)
  from below(4) show ?case using below(1,3) by cases auto
qed

lemma rooted_path_ends: "rooted_path par n ns \<Longrightarrow> ns \<noteq> [] \<and> last ns = n \<and> par (hd ns) = Some None"
  by (induction rule: rooted_path.induct) auto

lemma rooted_path_edges:
  "rooted_path par n ns \<Longrightarrow> Suc i < length ns \<Longrightarrow> par (ns ! Suc i) = Some (Some (ns ! i))"
proof (induction rule: rooted_path.induct)
  case (below n q ns)
  show ?case
  proof (cases "Suc i < length ns")
    case True
    with below show ?thesis by (simp add: nth_append)
  next
    case False
    with below have "Suc i = length ns" by simp
    moreover from this have "ns ! i = q"
      using rooted_path_ends [OF below(2)] by (metis diff_Suc_1 last_conv_nth)
    ultimately show ?thesis using below(1) by (simp add: nth_append)
  qed
qed simp

lemma rooted_path_cong:
  "rooted_path par n ns \<Longrightarrow> (\<And>m q. par m = Some q \<Longrightarrow> par' m = Some q) \<Longrightarrow> rooted_path par' n ns"
  by (induction rule: rooted_path.induct) (auto intro: rooted_path.intros)

text \<open>
  The contract: in a well-formed graph a parent is a node of the graph and lies strictly below its
  child in a rank. The client's lemmas: every node has one rooted path, without repetition.
\<close>

locale rooted_forest =
  fixes wf :: "'g \<Rightarrow> bool"
    and parent_of :: "'g \<Rightarrow> 'n \<Rightarrow> 'n option option"
    and rank :: "'n \<Rightarrow> nat"
  assumes parent_node: "wf g \<Longrightarrow> parent_of g n = Some (Some q) \<Longrightarrow> parent_of g q \<noteq> None"
    and parent_rank: "wf g \<Longrightarrow> parent_of g n = Some (Some q) \<Longrightarrow> rank q < rank n"
begin

lemma path_exists:
  assumes "wf g" and "parent_of g n \<noteq> None"
  shows "\<exists>ns. rooted_path (parent_of g) n ns"
  using assms(2)
proof (induction "rank n" arbitrary: n rule: less_induct)
  case less
  then obtain pq where pq: "parent_of g n = Some pq" by auto
  show ?case
  proof (cases pq)
    case None
    with pq show ?thesis by (auto intro: at_root)
  next
    case (Some q)
    with pq assms(1) less obtain ns where "rooted_path (parent_of g) q ns"
      using parent_node parent_rank by blast
    with pq Some show ?thesis by (auto intro: below)
  qed
qed

lemma path_unique:
  assumes "wf g" and "parent_of g n \<noteq> None"
  shows "\<exists>!ns. rooted_path (parent_of g) n ns"
  using path_exists [OF assms] by (rule ex_ex1I) (rule rooted_path_unique)

lemma path_ranks: "rooted_path (parent_of g) n ns \<Longrightarrow> wf g \<Longrightarrow> sorted_wrt (\<lambda>a b. rank a < rank b) ns"
proof (induction rule: rooted_path.induct)
  case (below n q ns)
  then have srt: "sorted_wrt (\<lambda>a b. rank a < rank b) ns" by blast
  have "rank q < rank n" using below parent_rank by simp
  moreover have "last ns = q" "ns \<noteq> []" using rooted_path_ends [OF below(2)] by simp_all
  moreover have "\<forall>a \<in> set ns. rank a \<le> rank q"
  proof
    fix a assume "a \<in> set ns"
    then obtain i where i: "i < length ns" "a = ns ! i" by (auto simp: in_set_conv_nth)
    show "rank a \<le> rank q"
    proof (cases "i = length ns - 1")
      case True
      with i \<open>last ns = q\<close> \<open>ns \<noteq> []\<close> show ?thesis by (simp add: last_conv_nth)
    next
      case False
      with i have "i < length ns - 1" by simp
      with i sorted_wrt_nth_less [OF srt, of i "length ns - 1"]
      have "rank (ns ! i) < rank (ns ! (length ns - 1))" by simp
      with i \<open>last ns = q\<close> \<open>ns \<noteq> []\<close> show ?thesis by (simp add: last_conv_nth)
    qed
  qed
  ultimately show ?case using srt by (fastforce simp: sorted_wrt_append)
qed simp

lemma path_distinct: "wf g \<Longrightarrow> rooted_path (parent_of g) n ns \<Longrightarrow> distinct ns"
proof -
  assume "wf g" and "rooted_path (parent_of g) n ns"
  then have "sorted_wrt (<) (map rank ns)"
    using path_ranks by (simp add: sorted_wrt_map)
  then show "distinct ns"
    by (simp add: strict_sorted_iff distinct_map)
qed

end

section \<open>The invariant\<close>

definition node_wf :: "u64 \<Rightarrow> (checkpoint_id, checkpoint) btree_map \<Rightarrow> checkpoint_id \<times> checkpoint \<Rightarrow> bool" where
  "node_wf n m ic =
     (fst ic \<le> n \<and>
      (case parent (snd ic) of
         None \<Rightarrow> accepted_input (snd ic) = None
       | Some q \<Rightarrow> q < fst ic \<and> bt_get m q \<noteq> None \<and> accepted_input (snd ic) \<noteq> None))"

definition is_root :: "checkpoint_id \<times> checkpoint \<Rightarrow> bool" where
  "is_root ic \<longleftrightarrow> parent (snd ic) = None"

definition session_wf :: "u64 \<Rightarrow> proof_session \<Rightarrow> bool" where
  "session_wf n p \<longleftrightarrow>
     bt_wf (checkpoints p) \<and> bt_get (checkpoints p) (current p) \<noteq> None
     \<and> list_all (node_wf n (checkpoints p)) (checkpoints p)
     \<and> length (filter is_root (checkpoints p)) = 1"

definition book_wf :: "checkpoint_book \<Rightarrow> bool" where
  "book_wf b \<longleftrightarrow> (case active_proof b of None \<Rightarrow> True | Some p \<Rightarrow> session_wf (book_next b) p)"

definition map_parent :: "(checkpoint_id, checkpoint) btree_map \<Rightarrow> checkpoint_id \<Rightarrow> checkpoint_id option option" where
  "map_parent m i = map_option parent (bt_get m i)"

definition node_parent :: "checkpoint_book \<Rightarrow> checkpoint_id \<Rightarrow> checkpoint_id option option" where
  "node_parent b i = (case active_proof b of None \<Rightarrow> None | Some p \<Rightarrow> map_parent (checkpoints p) i)"

lemma session_node:
  "session_wf n p \<Longrightarrow> bt_get (checkpoints p) i = Some c \<Longrightarrow> node_wf n (checkpoints p) (i, c)"
  by (auto simp: session_wf_def list_all_iff dest: bt_get_in_set)

interpretation graph: rooted_forest book_wf node_parent unat
proof
  fix g n q assume "book_wf g" and "node_parent g n = Some (Some q)"
  then obtain p c where p: "active_proof g = Some p" "bt_get (checkpoints p) n = Some c"
    "parent c = Some q" "session_wf (book_next g) p"
    by (auto simp: node_parent_def map_parent_def book_wf_def split: option.splits)
  with session_node [OF p(4,2)] show "node_parent g q \<noteq> None" and "unat q < unat n"
    by (auto simp: node_wf_def node_parent_def map_parent_def word_less_nat_alt)
qed

text \<open>The three ways the operations change a session.\<close>

lemma allocate_cases:
  assumes "allocate b = (r, b')"
  obtains "r = Inl Exhausted" "b' = b" "unat (book_next b) = 2 ^ 64 - 1"
  | "r = Inr (book_next b')" "b' = b\<lparr>book_next := book_next b'\<rparr>"
    "unat (book_next b') = Suc (unat (book_next b))"
proof (cases "checked_add (book_next b) 1")
  case None
  moreover have "unat (book_next b) < 2 ^ 64"
    using unsigned_less [of "book_next b"] by simp
  ultimately have "unat (book_next b) = 2 ^ 64 - 1"
    by (simp add: checked_add_None)
  with None assms that(1) show ?thesis by (simp add: allocate_def)
next
  case (Some n)
  with assms checked_add_Some [OF Some] that(2) show ?thesis
    by (auto simp: allocate_def)
qed

lemma session_wf_mono:
  "session_wf n p \<Longrightarrow> n \<le> n' \<Longrightarrow> session_wf n' p"
  by (fastforce simp: session_wf_def node_wf_def list_all_iff split: option.splits)

lemma session_wf_fresh: "session_wf n p \<Longrightarrow> n < i \<Longrightarrow> bt_get (checkpoints p) i = None"
proof (rule ccontr)
  assume wf: "session_wf n p" and "n < i" and "bt_get (checkpoints p) i \<noteq> None"
  then obtain c where "bt_get (checkpoints p) i = Some c" by auto
  from session_node [OF wf this] have "i \<le> n" by (simp add: node_wf_def)
  with \<open>n < i\<close> show False by simp
qed

lemma bt_insert_set: "bt_wf m \<Longrightarrow> bt_get m k = None \<Longrightarrow> set (bt_insert k v m) = insert (k, v) (set m)"
  by (induction m) (auto simp: bt_get_def bt_wf_def split: if_splits)

lemma bt_insert_filter:
  "\<not> P (k, v) \<Longrightarrow> bt_get m k = None \<Longrightarrow> filter P (bt_insert k v m) = filter P m"
  by (induction m) (auto simp: bt_get_def split: if_splits)

lemma session_wf_insert:
  assumes wf: "session_wf n p" and lt: "n < i"
    and c: "parent c = Some q" "bt_get (checkpoints p) q \<noteq> None" "accepted_input c \<noteq> None"
  shows "session_wf i (p\<lparr>checkpoints := bt_insert i c (checkpoints p), current := i\<rparr>)"
proof -
  let ?m = "checkpoints p"
  have fresh: "bt_get ?m i = None" using session_wf_fresh [OF wf lt] .
  have m: "bt_wf ?m" using wf by (simp add: session_wf_def)
  have grow: "bt_get (bt_insert i c ?m) k \<noteq> None" if "bt_get ?m k \<noteq> None" for k
    using that by (simp add: bt_get_insert [OF m])
  have "q < i" using c(2) session_node [OF wf, of q] lt by (fastforce simp: node_wf_def)
  then have "node_wf i (bt_insert i c ?m) (i, c)" using c grow by (simp add: node_wf_def)
  moreover have "node_wf i (bt_insert i c ?m) x" if "x \<in> set ?m" for x
  proof -
    have "node_wf n ?m x" using wf that by (simp add: session_wf_def list_all_iff)
    with lt grow show ?thesis by (auto simp: node_wf_def split: option.splits)
  qed
  ultimately have "list_all (node_wf i (bt_insert i c ?m)) (bt_insert i c ?m)"
    by (simp add: list_all_iff bt_insert_set [OF m fresh])
  moreover have "length (filter is_root (bt_insert i c ?m)) = 1"
    using wf c fresh by (simp add: bt_insert_filter is_root_def session_wf_def)
  ultimately show ?thesis
    using m by (simp add: session_wf_def bt_wf_insert bt_get_insert)
qed

lemma book_begin_wf: "book_wf b \<Longrightarrow> book_wf (snd (book_begin t s f v g b))"
  by (auto simp: book_begin_def book_wf_def session_wf_def node_wf_def is_root_def bt_wf_def
      bt_get_def allocate_def Let_def split: option.splits)

lemma book_commit_wf:
  assumes "book_wf b"
  shows "book_wf (snd (book_commit s input f v g b))"
proof -
  obtain r b' where al: "allocate b = (r, b')" by fastforce
  then show ?thesis
  proof (cases rule: allocate_cases)
    case 1
    with al assms show ?thesis by (simp add: book_commit_def)
  next
    case 2
    then have lt: "book_next b < book_next b'" by (simp add: word_less_nat_alt)
    have same: "active_proof b' = active_proof b" using 2 by (metis select_convs(2) update_convs(1) surjective)
    show ?thesis
    proof (cases "active_proof b")
      case None
      with al 2 same show ?thesis by (simp add: book_commit_def book_wf_def)
    next
      case (Some p)
      then have wf: "session_wf (book_next b) p" using assms by (simp add: book_wf_def)
      let ?c = "\<lparr>parent = Some (current p), pet_state = Some s, accepted_input = Some input,
        finished = f, view = v, goals_next_offset = g\<rparr>"
      have "session_wf (book_next b') (p\<lparr>checkpoints := bt_insert (book_next b') ?c (checkpoints p),
          current := book_next b'\<rparr>)"
        using wf by (intro session_wf_insert [OF wf lt, of ?c "current p"]) (simp_all add: session_wf_def)
      with al 2 same Some show ?thesis by (simp add: book_commit_def book_wf_def Let_def)
    qed
  qed
qed

lemma book_select_wf: "book_wf b \<Longrightarrow> book_wf (snd (book_select i b))"
  by (auto simp: book_select_def book_wf_def session_wf_def split: option.splits)

lemma book_clear_wf: "book_wf b \<Longrightarrow> book_wf (snd (book_clear b))"
  by (simp add: book_clear_def book_wf_def)

lemma invalidate_states_wf: "book_wf b \<Longrightarrow> book_wf (invalidate_states b)"
proof (cases "active_proof b")
  case (Some p)
  let ?f = "\<lambda>c. c\<lparr>pet_state := None\<rparr>"
  assume "book_wf b"
  with Some have wf: "session_wf (book_next b) p" by (simp add: book_wf_def)
  have "length (filter is_root (bt_map_values ?f (checkpoints p))) = length (filter is_root (checkpoints p))"
    by (simp add: bt_map_values_def filter_map comp_def is_root_def [abs_def] case_prod_beta)
  moreover have "list_all (node_wf (book_next b) (bt_map_values ?f (checkpoints p)))
      (bt_map_values ?f (checkpoints p))"
    unfolding list_all_iff
  proof
    fix x assume "x \<in> set (bt_map_values ?f (checkpoints p))"
    then obtain i c where x: "x = (i, ?f c)" and "(i, c) \<in> set (checkpoints p)"
      by (auto simp: bt_map_values_def)
    then have "node_wf (book_next b) (checkpoints p) (i, c)"
      using wf by (simp add: session_wf_def list_all_iff)
    then show "node_wf (book_next b) (bt_map_values ?f (checkpoints p)) x"
      by (simp add: x node_wf_def bt.get_update_all split: option.splits)
  qed
  ultimately show ?thesis
    using wf Some by (simp add: invalidate_states_def book_wf_def session_wf_def bt.wf_update_all
        bt.get_update_all)
qed (simp add: invalidate_states_def)

lemma bt_insert_same_roots:
  "bt_wf m \<Longrightarrow> bt_get m k = Some w \<Longrightarrow> is_root (k, v) = is_root (k, w) \<Longrightarrow>
   length (filter is_root (bt_insert k v m)) = length (filter is_root m)"
proof (induction m)
  case (Cons x m)
  obtain k' v' where x: "x = (k', v')" by (cases x)
  show ?case
  proof (cases "k' = k")
    case False
    with Cons.prems x have "bt_get m k = Some w" by (simp add: bt_get_def)
    moreover from this have "k' < k"
      using Cons.prems x bt_get_in_set by (fastforce simp: bt_wf_def)
    ultimately show ?thesis using Cons x by (auto simp: bt_wf_def)
  qed (use Cons.prems x in \<open>auto simp: bt_get_def\<close>)
qed (simp add: bt_get_def)

lemma install_replayed_wf:
  assumes wf: "session_wf n p" and inst: "install_replayed i st v g p = Some (old, p')"
  shows "session_wf n p' \<and> map_parent (checkpoints p') = map_parent (checkpoints p)"
proof -
  let ?m = "checkpoints p"
  obtain c where c: "bt_get ?m i = Some c"
    and p': "p' = p\<lparr>checkpoints := bt_insert i (c\<lparr>pet_state := Some st, view := v, goals_next_offset := g\<rparr>) ?m\<rparr>"
    using inst by (auto simp: install_replayed_def split: option.splits)
  let ?c = "c\<lparr>pet_state := Some st, view := v, goals_next_offset := g\<rparr>"
  have m: "bt_wf ?m" using wf by (simp add: session_wf_def)
  have get: "bt_get (bt_insert i ?c ?m) k = (if k = i then Some ?c else bt_get ?m k)" for k
    by (rule bt_get_insert [OF m])
  have dom: "bt_get (bt_insert i ?c ?m) k \<noteq> None \<longleftrightarrow> bt_get ?m k \<noteq> None" for k
    using c get by simp
  have node: "node_wf n (bt_insert i ?c ?m) (k, d)" if kd: "(k, d) \<in> set (bt_insert i ?c ?m)" for k d
  proof -
    have "bt_get (bt_insert i ?c ?m) k = Some d"
      using kd bt_wf_insert [OF m] by (simp add: bt_get_iff)
    with get c obtain d' where "bt_get ?m k = Some d'" "parent d = parent d'"
      "accepted_input d = accepted_input d'" by (auto split: if_splits)
    with session_node [OF wf this(1)] show ?thesis
      by (auto simp: node_wf_def get c split: option.splits)
  qed
  then have "list_all (node_wf n (bt_insert i ?c ?m)) (bt_insert i ?c ?m)"
    by (auto simp: list_all_iff)
  moreover have "length (filter is_root (bt_insert i ?c ?m)) = length (filter is_root ?m)"
    by (rule bt_insert_same_roots [OF m c]) (simp add: is_root_def)
  moreover have "map_parent (bt_insert i ?c ?m) = map_parent ?m"
    using c get by (auto simp: map_parent_def)
  ultimately show ?thesis
    using wf p' m dom by (simp add: session_wf_def bt_wf_insert)
qed

section \<open>Runs of the book\<close>

fun issued :: "checkpoint_error + checkpoint_id \<Rightarrow> checkpoint_id list" where
  "issued (Inl e) = []"
| "issued (Inr i) = [i]"

text \<open>Every operation that changes the book, with the identifiers it hands out.\<close>

inductive book_step :: "checkpoint_book \<Rightarrow> checkpoint_id list \<Rightarrow> checkpoint_book \<Rightarrow> bool" where
  step_begin: "book_begin t s f v g b = (r, b') \<Longrightarrow> book_step b (issued r) b'"
| step_commit: "book_commit s inp f v g b = (r, b') \<Longrightarrow> book_step b (issued r) b'"
| step_select: "book_select i b = (r, b') \<Longrightarrow> book_step b [] b'"
| step_clear: "book_clear b = (r, b') \<Longrightarrow> book_step b [] b'"
| step_invalidate: "book_step b [] (invalidate_states b)"
| step_install: "active_proof b = Some p \<Longrightarrow> install_replayed i s v g p = Some (old, p') \<Longrightarrow>
    book_step b [] (b\<lparr>active_proof := Some p'\<rparr>)"

inductive book_run :: "checkpoint_book \<Rightarrow> checkpoint_id list \<Rightarrow> checkpoint_book \<Rightarrow> bool" where
  run_done: "book_run b [] b"
| run_more: "book_run b is b' \<Longrightarrow> book_step b' js b'' \<Longrightarrow> book_run b (is @ js) b''"

lemma book_step_wf: "book_step b is b' \<Longrightarrow> book_wf b \<Longrightarrow> book_wf b'"
proof (induction rule: book_step.induct)
  case (step_install b p i s v g old p')
  then show ?case using install_replayed_wf by (simp add: book_wf_def)
qed (metis book_begin_wf book_commit_wf book_select_wf book_clear_wf invalidate_states_wf snd_conv)+

lemma book_run_wf: "book_run b is b' \<Longrightarrow> book_wf b \<Longrightarrow> book_wf b'"
  by (induction rule: book_run.induct) (auto intro: book_step_wf)

lemma book_step_issued:
  assumes "book_step b is b'"
  shows "unat (book_next b) \<le> unat (book_next b') \<and>
    (is = [] \<or> (is = [book_next b'] \<and> unat (book_next b) < unat (book_next b')))"
  using assms
proof cases
  case (step_begin t s f v g r)
  obtain q b1 where al: "allocate b = (q, b1)" by fastforce
  then show ?thesis
    using step_begin al by (cases rule: allocate_cases) (auto simp: book_begin_def Let_def split: if_splits)
next
  case (step_commit s inp f v g r)
  obtain q b1 where al: "allocate b = (q, b1)" by fastforce
  then show ?thesis
    using step_commit al by (cases rule: allocate_cases) (auto simp: book_commit_def Let_def split: option.splits)
qed (auto simp: book_select_def book_clear_def invalidate_states_def split: option.splits if_splits)

lemma book_run_issued:
  "book_run b is b' \<Longrightarrow>
     unat (book_next b) \<le> unat (book_next b') \<and> sorted_wrt (<) is
     \<and> (\<forall>i \<in> set is. unat (book_next b) < unat i \<and> unat i \<le> unat (book_next b'))"
proof (induction rule: book_run.induct)
  case (run_more b "is" b' js b'')
  from book_step_issued [OF run_more(2)] run_more(3) show ?case
    by (auto simp: sorted_wrt_append word_less_nat_alt)
qed simp

section \<open>What paths, fragments and rewinds compute\<close>

lemma path_loop_rooted:
  "rooted_path (map_parent m) i ns \<Longrightarrow> path_loop m i acc = Some (Inr (acc @ rev ns))"
proof (induction arbitrary: acc rule: rooted_path.induct)
  case (at_root n)
  then show ?case by (subst path_loop.simps) (auto simp: map_parent_def)
next
  case (below n q ns)
  then show ?case by (subst path_loop.simps) (auto simp: map_parent_def)
qed

lemma book_path_rooted: "rooted_path (node_parent b) i ns \<Longrightarrow> book_path b i = Some (Inr ns)"
proof (cases "active_proof b")
  case None
  assume "rooted_path (node_parent b) i ns"
  with None show ?thesis by (auto simp: node_parent_def elim: rooted_pathE)
next
  case (Some p)
  assume "rooted_path (node_parent b) i ns"
  with Some have "rooted_path (map_parent (checkpoints p)) i ns"
    by (simp add: node_parent_def [abs_def])
  with Some show ?thesis by (simp add: book_path_def path_loop_rooted)
qed

lemma lookup_parent: "book_lookup b i = Inr c \<Longrightarrow> node_parent b i = Some (parent c)"
  by (auto simp: book_lookup_def node_parent_def map_parent_def split: option.splits)

lemma parent_lookup: "node_parent b i = Some q \<Longrightarrow> \<exists>c. book_lookup b i = Inr c \<and> parent c = q"
  by (auto simp: book_lookup_def node_parent_def map_parent_def split: option.splits)

lemma book_path_lookup:
  assumes "book_wf b" and "book_lookup b i = Inr c"
  obtains ns where "rooted_path (node_parent b) i ns" and "book_path b i = Some (Inr ns)"
  using assms graph.path_exists [of b i] lookup_parent book_path_rooted by fastforce

lemma book_path_unknown: "book_lookup b i = Inl e \<Longrightarrow> book_path b i = Some (Inl e)"
  by (subst book_path_def, subst path_loop.simps) (auto simp: book_lookup_def split: option.splits)

lemma rooted_path_nodes:
  "rooted_path par n ns \<Longrightarrow> i \<in> set ns \<Longrightarrow> par i \<noteq> None"
  by (induction rule: rooted_path.induct) auto

definition node_input :: "checkpoint_book \<Rightarrow> checkpoint_id \<Rightarrow> string list" where
  "node_input b i = (case book_lookup b i of Inl e \<Rightarrow> []
     | Inr c \<Rightarrow> (case accepted_input c of Some x \<Rightarrow> [x] | None \<Rightarrow> []))"

lemma collect_fragments_eq:
  "(\<And>i. i \<in> set is \<Longrightarrow> node_parent b i \<noteq> None) \<Longrightarrow>
   collect_fragments b is acc = Inr (acc @ concat (map (node_input b) is))"
proof (induction "is" arbitrary: acc)
  case (Cons i "is")
  then obtain c where "book_lookup b i = Inr c" using parent_lookup by (metis list.set_intros(1) option.exhaust)
  with Cons show ?case by (simp add: node_input_def split: option.splits)
qed simp

lemma fragments_rooted:
  "rooted_path (node_parent b) i ns \<Longrightarrow> fragments b i = Some (Inr (concat (map (node_input b) ns)))"
  by (simp add: fragments_def book_path_rooted collect_fragments_eq rooted_path_nodes)

lemma parent_steps_rooted:
  "rooted_path (map_parent m) i ns \<Longrightarrow>
   parent_steps m k i = (if k < length ns then Inr (ns ! (length ns - 1 - k)) else Inl TooFar)"
proof (induction arbitrary: k rule: rooted_path.induct)
  case (at_root n)
  then show ?case by (cases k) (auto simp: map_parent_def)
next
  case (below n q ns)
  show ?case
  proof (cases k)
    case (Suc k')
    with below show ?thesis by (auto simp: map_parent_def nth_append)
  qed simp
qed

lemma root_unique:
  assumes wf: "book_wf b" and "node_parent b i = Some None" "node_parent b j = Some None"
  shows "i = j"
proof -
  obtain p c d where p: "active_proof b = Some p" "bt_get (checkpoints p) i = Some c"
    "bt_get (checkpoints p) j = Some d" "parent c = None" "parent d = None"
    using assms(2,3) by (auto simp: node_parent_def map_parent_def split: option.splits)
  then have "{(i, c), (j, d)} \<subseteq> set (filter is_root (checkpoints p))"
    by (auto simp: is_root_def dest: bt_get_in_set)
  moreover obtain x where "filter is_root (checkpoints p) = [x]"
    using wf p(1) by (auto simp: book_wf_def session_wf_def length_Suc_conv)
  ultimately show ?thesis by auto
qed

lemma commit_lookup:
  assumes wf: "book_wf b" and c: "book_commit s inp f v g b = (Inr i, b')"
  shows "\<exists>cur node. book_current b = Inr (cur, node) \<and> book_lookup b i = Inl Unknown
    \<and> (let node' = \<lparr>parent = Some cur, pet_state = Some s, accepted_input = Some inp,
          finished = f, view = v, goals_next_offset = g\<rparr>
       in book_current b' = Inr (i, node')
        \<and> (\<forall>j. book_lookup b' j = (if j = i then Inr node' else book_lookup b j)))"
proof -
  obtain r b1 where al: "allocate b = (r, b1)" by fastforce
  then have "r = Inr (book_next b1) \<and> b1 = b\<lparr>book_next := book_next b1\<rparr>
      \<and> book_next b < book_next b1"
  proof (cases rule: allocate_cases)
    case 1
    with c al show ?thesis by (simp add: book_commit_def)
  qed (simp add: word_less_nat_alt)
  moreover from this have "i = book_next b1"
    using c al by (auto simp: book_commit_def Let_def split: option.splits)
  ultimately have r: "r = Inr i" and i: "i = book_next b1" "b1 = b\<lparr>book_next := i\<rparr>" "book_next b < i"
    by simp_all
  obtain p where p: "active_proof b = Some p"
    using c al i(2) r by (auto simp: book_commit_def split: option.splits)
  then have swf: "session_wf (book_next b) p" using wf by (simp add: book_wf_def)
  then obtain node where node: "bt_get (checkpoints p) (current p) = Some node" "bt_wf (checkpoints p)"
    by (auto simp: session_wf_def)
  have "bt_get (checkpoints p) i = None" using session_wf_fresh [OF swf i(3)] .
  with p node c al i(2) r show ?thesis
    by (auto simp: book_commit_def book_current_def book_lookup_def Let_def bt_get_insert)
qed

lemma node_parent_lookup:
  "node_parent b i = (case book_lookup b i of Inl e \<Rightarrow> None | Inr c \<Rightarrow> Some (parent c))"
  by (auto simp: book_lookup_def node_parent_def map_parent_def ok_or_def split: option.splits)

text \<open>A book that extends another one keeps the paths and fragments of its checkpoints.\<close>

lemma extension_keeps:
  assumes wf: "book_wf b" and ext: "\<And>j d. book_lookup b j = Inr d \<Longrightarrow> book_lookup b' j = Inr d"
    and j: "book_lookup b j = Inr d"
  shows "\<exists>ns. rooted_path (node_parent b) j ns \<and> rooted_path (node_parent b') j ns
    \<and> map (node_input b') ns = map (node_input b) ns"
proof -
  from wf j obtain ns where ns: "rooted_path (node_parent b) j ns"
    by (rule book_path_lookup)
  have "node_parent b m = Some q \<Longrightarrow> node_parent b' m = Some q" for m q
    using ext by (auto simp: node_parent_lookup split: sum.splits)
  with ns have "rooted_path (node_parent b') j ns" by (rule rooted_path_cong)
  moreover have "node_input b' k = node_input b k" if "k \<in> set ns" for k
    using rooted_path_nodes [OF ns that] ext by (auto simp: node_parent_lookup node_input_def split: sum.splits)
  ultimately show ?thesis using ns by auto
qed

text \<open>A session on which the properties are exercised: a root and one accepted fragment.\<close>

definition sample_info :: declaration_info where
  "sample_info = \<lparr>identity = \<lparr>id_file = ''A.v'', qualified_path = [''A'', ''t'']\<rparr>, kind = KTheorem,
     statement = ''Theorem t : True.''\<rparr>"

definition sample_target :: declaration_target where
  "sample_target = \<lparr>info = sample_info,
     anchor = \<lparr>anchor_source = [RootDir, Normal ''p'', Normal ''A.v''], anchor_digest = ''d'',
       anchor_header = \<lparr>pr_start = 0, pr_end = 17\<rparr>, anchor_declaration = \<lparr>pr_start = 0, pr_end = 30\<rparr>,
       replaceable = True\<rparr>,
     new_header = None\<rparr>"

definition sample_view :: proof_state where
  "sample_view = \<lparr>ps_theorem = sample_info, ps_lifecycle = Open, ps_goals = ''True'',
     ps_goal_focus = \<lparr>gf_focused = [[JNull]], gf_stack = [], gf_shelved = [], gf_given_up = [],
       gf_next_bullet = None\<rparr>,
     ps_structured_goals = None\<rparr>"

definition sample_root_book :: checkpoint_book where
  "sample_root_book = snd (book_begin sample_target 5 False sample_view None book_default)"

definition sample_book :: checkpoint_book where
  "sample_book = snd (book_commit 7 ''exact I.'' True sample_view None sample_root_book)"

lemmas sample_eval = sample_book_def sample_root_book_def book_begin_def book_commit_def
  allocate_def checked_add_def book_default_def bt_get_def book_lookup_def book_current_def

lemma sample_root_run: "book_run book_default [1] sample_root_book"
proof -
  have "book_begin sample_target 5 False sample_view None book_default = (Inr 1, sample_root_book)"
    by (simp add: sample_eval)
  from run_more [OF run_done step_begin [OF this]] show ?thesis by simp
qed

lemma sample_commit:
  "book_commit 7 ''exact I.'' True sample_view None sample_root_book = (Inr 2, sample_book)"
  by (simp add: sample_eval)

lemma sample_run: "book_run book_default [1, 2] sample_book"
  using run_more [OF sample_root_run step_commit [OF sample_commit]] by simp

lemma sample_wf: "book_wf sample_root_book" "book_wf sample_book"
  using book_run_wf [OF sample_root_run] book_run_wf [OF sample_run]
  by (simp_all add: book_default_def book_wf_def)

section \<open>Properties\<close>

text \<open>
  C11. The checkpoint graph stays well formed: after any sequence of operations on a fresh book
  (begin, commit, select, clear, invalidation, replay of a node; failed ones included) the session
  is one tree with a single root, parents precede their children, exactly the nodes below the root
  carry an accepted input, no identifier exceeds the last issued one, and the selected checkpoint of
  an open proof can be read.
\<close>

theorem book_invariant:
  assumes "book_run book_default is b"
  shows "book_wf b \<and> (active_proof b \<noteq> None \<longrightarrow> (\<exists>ic. book_current b = Inr ic))"
proof -
  have "book_wf b" using book_run_wf [OF assms] by (simp add: book_default_def book_wf_def)
  then show ?thesis
    by (auto simp: book_wf_def session_wf_def book_current_def split: option.splits)
qed

theorem book_invariant_witness:
  "book_run book_default [1, 2] sample_book \<and> book_wf sample_book
   \<and> (\<exists>ic. book_current sample_book = Inr ic)"
  using book_invariant [OF sample_run] sample_run by (simp add: sample_eval)

text \<open>
  Checkpoint identifiers are never reused, across proofs too: the identifiers that the
  successful operations of a run hand out are strictly increasing, and all exceed what the book had
  issued before.
\<close>

theorem checkpoint_ids_fresh:
  assumes "book_run b is b'"
  shows "sorted_wrt (<) is \<and> (\<forall>i \<in> set is. book_next b < i \<and> i \<le> book_next b')"
  using book_run_issued [OF assms] by (simp add: word_less_nat_alt word_le_nat_alt)

theorem checkpoint_ids_fresh_witness:
  "book_run book_default [1, 2] sample_book
   \<and> book_next book_default < 1 \<and> 2 \<le> book_next sample_book \<and> sorted_wrt (<) [1 :: u64, 2]"
  using checkpoint_ids_fresh [OF sample_run] sample_run by auto

text \<open>
  C28. \<open>path\<close> returns for every checkpoint of a well-formed book (its loop ends), and what it
  returns is the one path from the root to the checkpoint, both included, without repetition; all
  checkpoints share that root. For an identifier that is not in the graph it returns the error of
  \<open>lookup\<close>.
\<close>

theorem path_total:
  assumes "book_wf b"
  shows "case book_lookup b i of
      Inl e \<Rightarrow> book_path b i = Some (Inl e)
    | Inr c \<Rightarrow> \<exists>ns. book_path b i = Some (Inr ns) \<and> rooted_path (node_parent b) i ns \<and> distinct ns
        \<and> last ns = i
        \<and> (\<forall>j d ms. book_lookup b j = Inr d \<longrightarrow> book_path b j = Some (Inr ms) \<longrightarrow> hd ms = hd ns)"
proof (cases "book_lookup b i")
  case (Inl e)
  then show ?thesis by (simp add: book_path_unknown)
next
  case (Inr c)
  with assms obtain ns where ns: "rooted_path (node_parent b) i ns" "book_path b i = Some (Inr ns)"
    by (rule book_path_lookup)
  have "hd ms = hd ns" if j: "book_lookup b j = Inr d" "book_path b j = Some (Inr ms)" for j d ms
  proof -
    from assms j(1) obtain ks where ks: "rooted_path (node_parent b) j ks" "book_path b j = Some (Inr ks)"
      by (rule book_path_lookup)
    with j have "ks = ms" by simp
    with ks ns rooted_path_ends show ?thesis by (metis assms root_unique)
  qed
  with Inr ns assms graph.path_distinct rooted_path_ends show ?thesis by fastforce
qed

theorem path_total_witness:
  "book_wf sample_book
   \<and> (\<exists>ns. book_path sample_book 2 = Some (Inr ns) \<and> rooted_path (node_parent sample_book) 2 ns
        \<and> distinct ns \<and> last ns = 2)"
proof -
  obtain c where "book_lookup sample_book 2 = Inr c" by (simp add: sample_eval)
  with path_total [OF sample_wf(2), of 2] sample_wf(2) show ?thesis by auto
qed

text \<open>
  C27. A successful commit appends: in the new book the path of the issued checkpoint is the path of
  the previously selected one followed by it, its fragments are the previous fragments followed by
  the accepted input, it is selected, and every earlier checkpoint keeps its node, its path and its
  fragments.
\<close>

theorem commit_extends:
  assumes wf: "book_wf b" and c: "book_commit s inp f v g b = (Inr i, b')"
  shows "\<exists>cur node ns fs. book_current b = Inr (cur, node)
    \<and> book_path b cur = Some (Inr ns) \<and> fragments b cur = Some (Inr fs)
    \<and> book_path b' i = Some (Inr (ns @ [i])) \<and> fragments b' i = Some (Inr (fs @ [inp]))
    \<and> (\<exists>node'. book_current b' = Inr (i, node') \<and> pet_state node' = Some s \<and> view node' = v)
    \<and> (\<forall>j d. book_lookup b j = Inr d \<longrightarrow> book_lookup b' j = Inr d
         \<and> book_path b' j = book_path b j \<and> fragments b' j = fragments b j)"
proof -
  obtain cur node where cur: "book_current b = Inr (cur, node)" "book_lookup b i = Inl Unknown"
    and new: "book_current b' = Inr (i, \<lparr>parent = Some cur, pet_state = Some s,
      accepted_input = Some inp, finished = f, view = v, goals_next_offset = g\<rparr>)"
    and look: "\<And>j. book_lookup b' j = (if j = i then Inr \<lparr>parent = Some cur, pet_state = Some s,
      accepted_input = Some inp, finished = f, view = v, goals_next_offset = g\<rparr> else book_lookup b j)"
    using commit_lookup [OF wf c] unfolding Let_def by blast
  have ext: "book_lookup b' j = Inr d" if "book_lookup b j = Inr d" for j d
    using that cur(2) look by auto
  have "book_lookup b cur = Inr node"
    using cur(1) by (auto simp: book_current_def book_lookup_def split: option.splits)
  from extension_keeps [OF wf ext this] obtain ns where ns: "rooted_path (node_parent b) cur ns"
    "rooted_path (node_parent b') cur ns" "map (node_input b') ns = map (node_input b) ns" by blast
  have "rooted_path (node_parent b') i (ns @ [i])"
    using ns(2) by (rule below [rotated]) (simp add: node_parent_lookup look)
  moreover have "node_input b' i = [inp]" by (simp add: node_input_def look)
  ultimately have "book_path b' i = Some (Inr (ns @ [i]))"
    "fragments b' i = Some (Inr (concat (map (node_input b) ns) @ [inp]))"
    using ns(3) by (simp_all add: book_path_rooted fragments_rooted del: map_eq_conv)
  moreover have "book_path b' j = book_path b j \<and> fragments b' j = fragments b j"
    if "book_lookup b j = Inr d" for j d
    using extension_keeps [OF wf ext that] by (metis book_path_rooted fragments_rooted)
  ultimately show ?thesis
    using cur new ext ns book_path_rooted fragments_rooted by simp
qed

theorem commit_extends_witness:
  "book_wf sample_root_book
   \<and> book_commit 7 ''exact I.'' True sample_view None sample_root_book = (Inr 2, sample_book)
   \<and> (\<exists>cur node ns fs. book_current sample_root_book = Inr (cur, node)
        \<and> book_path sample_root_book cur = Some (Inr ns) \<and> book_path sample_book 2 = Some (Inr (ns @ [2]))
        \<and> fragments sample_book 2 = Some (Inr (fs @ [''exact I.''])))"
  using commit_extends [OF sample_wf(1) sample_commit] sample_wf(1) sample_commit by blast

text \<open>
  \<open>steps_back n\<close> walks the path of the selected checkpoint towards the root: it returns the
  checkpoint \<open>n\<close> places before the end of that path, and \<open>TooFar\<close> when \<open>n\<close> is 0 or the path is not
  that long; a wrap-around cannot occur since the steps are counted at \<open>u64\<close>.
\<close>

theorem steps_back_path:
  assumes "book_wf b" and "book_current b = Inr (cur, node)"
  shows "\<exists>ns. book_path b cur = Some (Inr ns) \<and>
    steps_back n b =
      (if n = 0 \<or> length ns \<le> unat n then Inl TooFar else Inr (ns ! (length ns - 1 - unat n)))"
proof -
  have "book_lookup b cur = Inr node"
    using assms(2) by (auto simp: book_current_def book_lookup_def split: option.splits)
  with assms(1) obtain ns where ns: "rooted_path (node_parent b) cur ns" "book_path b cur = Some (Inr ns)"
    by (rule book_path_lookup)
  obtain p where p: "active_proof b = Some p" "current p = cur"
    using assms(2) by (auto simp: book_current_def split: option.splits)
  with ns(1) have "rooted_path (map_parent (checkpoints p)) cur ns"
    by (simp add: node_parent_def [abs_def])
  with p ns(2) show ?thesis by (auto simp: steps_back_def parent_steps_rooted)
qed

theorem steps_back_path_witness:
  "book_wf sample_book \<and> book_path sample_book 2 = Some (Inr [1, 2])
   \<and> steps_back 1 sample_book = Inr 1 \<and> steps_back 2 sample_book = Inl TooFar"
proof -
  obtain node where cur: "book_current sample_book = Inr (2, node)" by (simp add: sample_eval)
  have "book_path sample_book 2 = Some (Inr [1, 2])"
    by (simp add: book_path_def sample_eval path_loop.simps)
  with steps_back_path [OF sample_wf(2) cur, of 1] steps_back_path [OF sample_wf(2) cur, of 2]
    sample_wf(2) show ?thesis by simp
qed

text \<open>
  Losing the PET process forgets handles and nothing else: after \<open>invalidate_states\<close> no
  checkpoint has a PET state, and the identifier counter, the selection, the target, and every
  node's parent, input, completion, view, path and fragments are what they were, so every
  checkpoint stays replayable.
\<close>

theorem invalidate_keeps_topology:
  assumes "book_wf b"
  shows "book_next (invalidate_states b) = book_next b
    \<and> map_option (\<lambda>p. (ses_target p, current p)) (active_proof (invalidate_states b))
      = map_option (\<lambda>p. (ses_target p, current p)) (active_proof b)
    \<and> (\<forall>i. book_lookup (invalidate_states b) i
         = map_sum id (\<lambda>c. c\<lparr>pet_state := None\<rparr>) (book_lookup b i)
        \<and> book_path (invalidate_states b) i = book_path b i
        \<and> fragments (invalidate_states b) i = fragments b i)"
proof -
  let ?b = "invalidate_states b"
  have look: "book_lookup ?b i = map_sum id (\<lambda>c. c\<lparr>pet_state := None\<rparr>) (book_lookup b i)" for i
    by (auto simp: book_lookup_def invalidate_states_def bt.get_update_all ok_or_def split: option.splits)
  then have par: "node_parent ?b = node_parent b" and inp: "node_input ?b = node_input b"
    by (auto simp: node_parent_lookup node_input_def fun_eq_iff split: sum.splits)
  have "book_path ?b i = book_path b i \<and> fragments ?b i = fragments b i" for i
  proof (cases "book_lookup b i")
    case (Inl e)
    with look [of i] show ?thesis by (simp add: book_path_unknown fragments_def)
  next
    case (Inr c)
    with assms obtain ns where "rooted_path (node_parent b) i ns" by (rule book_path_lookup)
    with par inp show ?thesis by (metis book_path_rooted fragments_rooted)
  qed
  with look show ?thesis
    by (auto simp: invalidate_states_def split: option.splits)
qed

theorem invalidate_keeps_topology_witness:
  "book_wf sample_book \<and> fragments (invalidate_states sample_book) 2 = fragments sample_book 2
   \<and> book_lookup (invalidate_states sample_book) 2
       = map_sum id (\<lambda>c. c\<lparr>pet_state := None\<rparr>) (book_lookup sample_book 2)"
  using invalidate_keeps_topology [OF sample_wf(2)] sample_wf(2) by simp

end
