(* ===== verification/Server_State.thy ===== *)
theory Server_State
  imports Server_Progress Checkpoint "HOL-Library.AList"
begin

text \<open>
  The process-wide side of \<open>rocq-mcp/src/server.rs\<close>: \<open>ProjectRuntime\<close> (one PET actor and the
  artifact snapshots of one Dune project), \<open>Selection\<close> and \<open>SessionCell\<close> (what one connection
  selected), \<open>ServerRuntime\<close> (sharing of runtimes, invalidation of exported states).

  The state is seen from one connection, whose request runs: its selection is \<open>srv_own\<close>, the other
  live connections are \<open>srv_siblings\<close>. The runtime whose operation lock the request holds is spread
  over the actor's own fields and \<open>srv_project\<close>, \<open>srv_artifacts\<close>; the others wait in
  \<open>srv_parked\<close> under their key, the project root. Two \<open>Arc<ProjectRuntime>\<close> are the same pointer
  exactly when their keys agree, since the runtime map holds one live runtime per key. The locks
  make every request one atomic step on this state.
\<close>

section \<open>State\<close>

record selection =
  sel_project :: "path option"
  sel_book :: checkpoint_book

record runtime =
  rt_project :: dune_project
  rt_process :: "pet_process option"
  rt_ws :: "pet_workspace option"
  rt_artifacts :: "(file_id, artifact_fingerprint) btree_map"

record 'w server = "'w sys" +
  srv_project :: dune_project
  srv_artifacts :: "(file_id, artifact_fingerprint) btree_map"
  srv_parked :: "(path \<times> runtime) list"
  srv_own :: selection
  srv_siblings :: "selection list"
  srv_progress :: progress_book

definition selection_new :: selection where
  "selection_new = \<lparr>sel_project = None, sel_book = book_default\<rparr>"

text \<open>The key of the locked runtime.\<close>

definition loaded_key :: "('w, 's) server_scheme \<Rightarrow> path" where
  "loaded_key s = project_id (srv_project s)"

section \<open>The runtimes\<close>

definition runtime_new :: "dune_project \<Rightarrow> runtime" where
  "runtime_new pj = \<lparr>rt_project = pj, rt_process = None, rt_ws = None, rt_artifacts = []\<rparr>"

text \<open>\<open>strong_count() != 0\<close>: some connection is attached.\<close>

definition attached :: "path \<Rightarrow> ('w, 's) server_scheme \<Rightarrow> bool" where
  "attached key s \<longleftrightarrow> sel_project (srv_own s) = Some key \<or> (\<exists>o' \<in> set (srv_siblings s). sel_project o' = Some key)"

definition locked_runtime :: "('w, 's) server_scheme \<Rightarrow> runtime" where
  "locked_runtime s = \<lparr>rt_project = srv_project s, rt_process = process s, rt_ws = actor_ws s,
     rt_artifacts = srv_artifacts s\<rparr>"

definition install_runtime :: "runtime \<Rightarrow> ('w, 's) server_scheme \<Rightarrow> ('w, 's) server_scheme" where
  "install_runtime rt s = s\<lparr>process := rt_process rt, actor_ws := rt_ws rt, srv_project := rt_project rt,
     srv_artifacts := rt_artifacts rt\<rparr>"

text \<open>\<open>ServerRuntime::project\<close>: dead entries are dropped, then the runtime of the key is found or
  created. An unattached locked runtime is dead too; it is replaced in place.\<close>

definition project_runtime :: "dune_project \<Rightarrow> ('w, 's) server_scheme \<Rightarrow> ('w, 's) server_scheme" where
  "project_runtime pj s =
     (let key = project_id pj;
          s = s\<lparr>srv_parked := filter (\<lambda>(k, _). attached k s) (srv_parked s)\<rparr>
      in if attached key s then s
         else if loaded_key s = key then install_runtime (runtime_new pj) s
         else s\<lparr>srv_parked := AList.update key (runtime_new pj) (srv_parked s)\<rparr>)"

text \<open>\<open>runtime.lock()\<close>: the request goes on with this runtime.\<close>

definition enter :: "path \<Rightarrow> ('w, 's) server_scheme \<Rightarrow> ('w, 's) server_scheme" where
  "enter key s =
     (if loaded_key s = key then s
      else case map_of (srv_parked s) key of
        None \<Rightarrow> s
      | Some rt \<Rightarrow> install_runtime rt
          (s\<lparr>srv_parked := AList.update (loaded_key s) (locked_runtime s) (AList.delete key (srv_parked s))\<rparr>))"

text \<open>The last \<open>Arc\<close> of the locked runtime goes: its PET process is dropped with it.\<close>

definition drop_runtime :: "(('w, 's) server_scheme, 'e, unit) eff" where
  "drop_runtime =
     (\<lambda>s. if attached (loaded_key s) s then (Inr (), s)
       else and_then restart (\<lambda>_. modify (\<lambda>s. s\<lparr>srv_artifacts := []\<rparr>)) s)"

section \<open>Artifact snapshots\<close>

definition artifact :: "file_id \<Rightarrow> (('w, 's) server_scheme, 'e, artifact_fingerprint option) eff" where
  "artifact f = gets (\<lambda>s. bt_get (srv_artifacts s) f)"

definition record_artifact :: "file_id \<Rightarrow> artifact_fingerprint \<Rightarrow> (('w, 's) server_scheme, 'e, unit) eff" where
  "record_artifact f fp = modify (\<lambda>s. s\<lparr>srv_artifacts := bt_insert f fp (srv_artifacts s)\<rparr>)"

definition forget_artifact :: "file_id \<Rightarrow> (('w, 's) server_scheme, 'e, unit) eff" where
  "forget_artifact f = modify (\<lambda>s. s\<lparr>srv_artifacts := bt_remove f (srv_artifacts s)\<rparr>)"

definition clear_artifacts :: "(('w, 's) server_scheme, 'e, unit) eff" where
  "clear_artifacts = modify (\<lambda>s. s\<lparr>srv_artifacts := []\<rparr>)"

section \<open>Selections\<close>

definition the_project :: "(('w, 's) server_scheme, 'e, dune_project) eff" where
  "the_project = gets srv_project"

definition set_book :: "checkpoint_book \<Rightarrow> ('w, 's) server_scheme \<Rightarrow> ('w, 's) server_scheme" where
  "set_book b s = s\<lparr>srv_own := (srv_own s)\<lparr>sel_book := b\<rparr>\<rparr>"

definition the_book :: "(('w, 's) server_scheme, 'e, checkpoint_book) eff" where
  "the_book = gets (\<lambda>s. sel_book (srv_own s))"

text \<open>A call of a \<open>CheckpointBook\<close> method that changes the book.\<close>

definition with_book :: "(checkpoint_book \<Rightarrow> 'a \<times> checkpoint_book) \<Rightarrow> (('w, 's) server_scheme, 'e, 'a) eff" where
  "with_book f = (\<lambda>s. case f (sel_book (srv_own s)) of (r, b) \<Rightarrow> (Inr r, set_book b s))"

definition clear_book :: "(('w, 's) server_scheme, 'e, proof_session option) eff" where
  "clear_book = with_book book_clear"

definition invalidate_selection :: "path \<Rightarrow> selection \<Rightarrow> selection" where
  "invalidate_selection key o' =
     (if sel_project o' = Some key then o'\<lparr>sel_book := invalidate_states (sel_book o')\<rparr> else o')"

text \<open>Every handle of the calling connection is forgotten, and those of the others that are attached
  to the locked project.\<close>

definition invalidate_project_states :: "('w, 's) server_scheme \<Rightarrow> ('w, 's) server_scheme" where
  "invalidate_project_states s =
     (let s = set_book (invalidate_states (sel_book (srv_own s))) s in
      s\<lparr>srv_siblings := map (invalidate_selection (loaded_key s)) (srv_siblings s)\<rparr>)"

definition invalidate_all :: "(('w, 's) server_scheme, 'e, unit) eff" where
  "invalidate_all = modify invalidate_project_states"

text \<open>The live handles of a selected proof.\<close>

definition book_handles :: "checkpoint_book \<Rightarrow> pet_state_id list" where
  "book_handles b =
     (case active_proof b of None \<Rightarrow> [] | Some p \<Rightarrow> List.map_filter (\<lambda>ic. pet_state (snd ic)) (checkpoints p))"

text \<open>\<open>Drop for SessionCell\<close>, once the last clone of the connection's handler is gone; its release is
  best effort. The selection itself goes with the connection.\<close>

definition session_drop :: "('w, 'z) engine_env_scheme \<Rightarrow> (('w, 's) server_scheme, err, unit) eff" where
  "session_drop env =
     (\<lambda>s. case sel_project (srv_own s) of
       None \<Rightarrow> (Inr (), s)
     | Some key \<Rightarrow>
         and_then (modify (enter key)) (\<lambda>_.
         and_then clear_book (\<lambda>retired.
         and_then (case retired of
             None \<Rightarrow> ret ()
           | Some p \<Rightarrow> and_then (attempt (release_states env (book_handles \<lparr>book_next = 0, active_proof = Some p\<rparr>)))
               (\<lambda>_. ret ())) (\<lambda>_.
         and_then (modify (\<lambda>s. s\<lparr>srv_own := selection_new\<rparr>)) (\<lambda>_. drop_runtime)))) s)"

section \<open>Progress\<close>

definition progress_now :: "string \<Rightarrow> nat \<Rightarrow> nat option \<Rightarrow> string \<Rightarrow> (('w, 's) server_scheme, 'e, unit) eff" where
  "progress_now phase completed tot log_text =
     modify (\<lambda>s. s\<lparr>srv_progress := update_current_progress phase (of_nat completed) (map_option of_nat tot) log_text (srv_progress s)\<rparr>)"

definition progress_target :: "declaration_target \<Rightarrow> (('w, 's) server_scheme, 'e, unit) eff" where
  "progress_target target =
     modify (\<lambda>s. s\<lparr>srv_progress := set_progress_target (declaration_identity_json (identity (info target))) (srv_progress s)\<rparr>)"

text \<open>
  The progress callback that \<open>prove\<close> and \<open>check\<close> pass to the engine. The engine's model records each
  call of it in the log; here the calls made by one engine operation are applied to the record, in
  their order, when the operation returns: nothing in between reads the record.
\<close>

fun apply_phase :: "(string \<Rightarrow> nat) \<Rightarrow> nat \<Rightarrow> sys_event \<Rightarrow> progress_book \<Rightarrow> progress_book" where
  "apply_phase completed tot (Phase p m) b = update_current_progress p (of_nat (completed p)) (Some (of_nat tot)) m b"
| "apply_phase completed tot _ b = b"

definition with_phases ::
  "(string \<Rightarrow> nat) \<Rightarrow> nat \<Rightarrow> (('w, 's) server_scheme, err, 'a) eff \<Rightarrow> (('w, 's) server_scheme, err, 'a) eff" where
  "with_phases completed tot m =
     and_then (gets (\<lambda>s. length (log s))) (\<lambda>n.
     and_then (attempt m) (\<lambda>r.
     and_then (modify (\<lambda>s. s\<lparr>srv_progress := fold (apply_phase completed tot) (drop n (log s)) (srv_progress s)\<rparr>)) (\<lambda>_.
     lift_result r)))"

end
