(* ===== verification/Adapter.thy ===== *)
theory Adapter
  imports Server_State
begin

text \<open>
  \<open>rocq-mcp/src/adapter.rs\<close>: the public operations of one connection, over the checkpoint book, the
  engine and the state of the server. An operation is a function on \<open>server\<close>; early returns with
  \<open>?\<close> are \<open>and_then\<close>, and everything done before them stays. The calls of the progress record are
  part of the operations; what the symbol scan reports file by file is not. The closing of \<open>dispatch\<close>,
  the epoch boundary, is at the end.
\<close>

type_synonym ('w, 's, 'a) server_op = "(('w, 's) server_scheme, err, 'a) eff"

section \<open>Errors and cancellation\<close>

fun checkpoint_error_of :: "checkpoint_error \<Rightarrow> err" where
  "checkpoint_error_of NoActiveProof = error_new InvalidRequest ''call prove first''"
| "checkpoint_error_of ActiveProof = invalid_conf ''active proof was not retired before replacement''"
| "checkpoint_error_of Unknown = error_new InvalidRequest ''checkpoint is not active''"
| "checkpoint_error_of TooFar = error_new InvalidRequest ''rewind exceeds available check history''"
| "checkpoint_error_of Exhausted = invalid_conf ''checkpoint identifier space is exhausted''"

definition checkpoint_result :: "checkpoint_error + 'a \<Rightarrow> ('w, 's, 'a) server_op" where
  "checkpoint_result r = lift_result (result_map_err checkpoint_error_of r)"

definition pet_release_error :: "pet_error \<Rightarrow> err" where
  "pet_release_error e =
     (let k = (case e of
          Cancelled \<Rightarrow> RequestCancelled
        | TimedOut _ \<Rightarrow> ProofStepTimeout
        | _ \<Rightarrow> if is_transport_loss e then PetLost else if is_internal_failure e then PetFailure else InvalidConfiguration);
          projected = error_new k (public_message e)
      in if pet_is_semantic e then semantic projected else projected)"

definition release :: "('w, 'z) engine_env_scheme \<Rightarrow> pet_state_id list \<Rightarrow> ('w, 's, unit) server_op" where
  "release env states = map_err pet_release_error (release_states env states)"

definition cancelled_error :: err where
  "cancelled_error = error_new RequestCancelled ''request cancelled''"

definition reject_cancelled :: "('w, 'z) engine_env_scheme \<Rightarrow> ('w, 's, unit) server_op" where
  "reject_cancelled env = and_then (observe_signal env) (\<lambda>c. when_err (request_cancelled c) cancelled_error)"

text \<open>The answer \<open>None\<close> is the \<open>unreachable!\<close> of \<open>commit\<close>, which no value of the signal reaches.\<close>

definition commit_or_cancelled :: "('w, 'z) engine_env_scheme \<Rightarrow> ('w, 's, unit) server_op" where
  "commit_or_cancelled env =
     and_then (observe_signal env) (\<lambda>_ s.
       case commit_request (signal s) of (r, c) \<Rightarrow>
         (if r = Some True then Inr () else Inl cancelled_error, s\<lparr>signal := c\<rparr>))"

definition invalidates_pet_epoch :: "error_kind \<Rightarrow> bool" where
  "invalidates_pet_epoch k \<longleftrightarrow> k = PetLost \<or> k = ProofStepTimeout \<or> k = RequestCancelled"

definition bad_request :: "string \<Rightarrow> err" where
  "bad_request m = error_new InvalidRequest m"

text \<open>The selected proof, or the error that asks for one.\<close>

definition the_proof :: "('w, 's, proof_session) server_op" where
  "the_proof = and_then the_book (\<lambda>b. lift_result (ok_or (bad_request ''call prove first'') (active_proof b)))"

section \<open>Artifacts and the PET epoch\<close>

text \<open>One epoch boundary: the process is dropped, then every handle to it is forgotten.\<close>

definition end_epoch :: "('w, 's, unit) server_op" where
  "end_epoch = and_then restart (\<lambda>_. invalidate_all)"

text \<open>One file of the loop; the accumulator says whether some artifact changed.\<close>

definition reconcile_file ::
  "('w, 'z) engine_env_scheme \<Rightarrow> nat \<Rightarrow> nat \<times> file_id \<Rightarrow> bool \<Rightarrow> ('w, 's, bool) server_op" where
  "reconcile_file env tot ixf boundary =
     (case ixf of (index, f) \<Rightarrow>
      and_then (reject_cancelled env) (\<lambda>_.
      and_then the_project (\<lambda>pj.
      and_then (artifact_fingerprint env pj f) (\<lambda>before.
      and_then (artifact f) (\<lambda>cached.
      and_then (progress_now ''dune_build'' index (Some tot) (''building consumer target for '' @ f)) (\<lambda>_.
      and_then (attempt (reconcile_source env pj f)) (\<lambda>r.
      case r of
        Inl e \<Rightarrow>
          and_then (forget_artifact f) (\<lambda>_.
          and_then end_epoch (\<lambda>_. throw e))
      | Inr built \<Rightarrow>
          (let had_artifact = (af_vo before \<noteq> None \<or> af_glob before \<noteq> None);
               changed = (case cached of Some previous \<Rightarrow> previous \<noteq> built
                 | None \<Rightarrow> had_artifact \<and> before \<noteq> built)
           in and_then (record_artifact f built) (\<lambda>_.
              and_then (progress_now ''dune_build'' (index + 1) (Some tot) ''consumer target is current'') (\<lambda>_.
              ret (boundary \<or> changed)))))))))))"

definition reconcile_artifacts :: "('w, 'z) engine_env_scheme \<Rightarrow> file_id list \<Rightarrow> ('w, 's, unit) server_op" where
  "reconcile_artifacts env files =
     (let unique = rev (remdups (rev files)) in
      and_then (for_each (reconcile_file env (length unique)) (zip [0 ..< length unique] unique) False) (\<lambda>boundary.
      if boundary then end_epoch else ret ()))"

definition reconcile_artifact :: "('w, 'z) engine_env_scheme \<Rightarrow> file_id \<Rightarrow> ('w, 's, unit) server_op" where
  "reconcile_artifact env f = reconcile_artifacts env [f]"

section \<open>Restoring handles\<close>

type_synonym staged = "checkpoint_id \<times> pet_state_id \<times> proof_state \<times> nat option"

definition staged_states :: "staged list \<Rightarrow> pet_state_id list" where
  "staged_states staged = map (\<lambda>(_, state, _, _). state) staged"

definition release_staged :: "('w, 'z) engine_env_scheme \<Rightarrow> staged list \<Rightarrow> ('w, 's, unit) server_op" where
  "release_staged env staged = release env (staged_states staged)"

definition changed_completion :: "string \<Rightarrow> err" where
  "changed_completion what = error_new DeclarationChanged (''proof completion changed while restoring the '' @ what)"

text \<open>The root of a path whose first state is missing.\<close>

definition replay_first ::
  "('w, 'z) engine_env_scheme \<Rightarrow> declaration_target \<Rightarrow> checkpoint_id \<times> checkpoint \<Rightarrow> nat
   \<Rightarrow> ('w, 's, pet_state_id \<times> staged) server_op" where
  "replay_first env target root tot =
     and_then the_project (\<lambda>pj.
     and_then (replay_root env pj target) (\<lambda>opened.
     if op_finished opened \<noteq> finished (snd root)
     then and_then (release env [op_state opened]) (\<lambda>_. throw (changed_completion ''initial checkpoint''))
     else
       (case bounded_checkpoint_view (op_view opened) of (v, next_off) \<Rightarrow>
        and_then (progress_now ''pet_replay'' 1 (Some tot) ''replayed proof root checkpoint'') (\<lambda>_.
        ret (op_state opened, (fst root, op_state opened, v, next_off))))))"

text \<open>The states of the other nodes, one fragment each, from the state before them.\<close>

fun replay_rest ::
  "('w, 'z) engine_env_scheme \<Rightarrow> declaration_target \<Rightarrow> nat \<Rightarrow> (checkpoint_id \<times> checkpoint) list \<Rightarrow> nat
   \<Rightarrow> pet_state_id \<Rightarrow> staged list \<Rightarrow> ('w, 's, pet_state_id \<times> staged list) server_op" where
  "replay_rest env target tot [] completed state staged = ret (state, staged)"
| "replay_rest env target tot ((i, c) # records) completed state staged =
     and_then (lift_result (ok_or (invalid_conf ''non-root checkpoint has no accepted input'') (accepted_input c))) (\<lambda>input.
     and_then the_project (\<lambda>pj.
     and_then (attempt (run_fragment env pj target state input None)) (\<lambda>r.
     case r of
       Inl e \<Rightarrow>
         and_then (if invalidates_pet_epoch (err_kind e) then ret () else release_staged env staged) (\<lambda>_. throw e)
     | Inr step \<Rightarrow>
         (if st_finished step \<noteq> finished c
          then and_then (release env (staged_states staged @ [st_state step])) (\<lambda>_.
            throw (changed_completion ''checkpoint''))
          else
            (case bounded_checkpoint_view (st_view step) of (v, next_off) \<Rightarrow>
             let v = (if ps_structured_goals (view c) = None then v\<lparr>ps_structured_goals := None\<rparr> else v) in
             and_then (progress_now ''pet_replay'' completed (Some tot) (''replayed checkpoint '' @ show_nat (unat i))) (\<lambda>_.
             replay_rest env target tot records (completed + 1) (st_state step)
               (staged @ [(i, st_state step, v, next_off)])))))))"

text \<open>The installation in the book: the handles that it replaces are collected.\<close>

fun install_staged ::
  "staged list \<Rightarrow> proof_session \<Rightarrow> pet_state_id list \<Rightarrow> (err + pet_state_id list) \<times> proof_session" where
  "install_staged [] p replaced = (Inr replaced, p)"
| "install_staged ((i, state, v, next_off) # staged) p replaced =
     (case install_replayed i state v next_off p of
        None \<Rightarrow> (Inl (invalid_conf ''checkpoint disappeared during replay''), p)
      | Some (previous, p') \<Rightarrow>
          install_staged staged p' (case previous of Some st \<Rightarrow> replaced @ [st] | None \<Rightarrow> replaced))"

definition install_all :: "staged list \<Rightarrow> checkpoint_book \<Rightarrow> (err + pet_state_id list) \<times> checkpoint_book" where
  "install_all staged b =
     (case active_proof b of
        None \<Rightarrow> (Inr [], b)
      | Some p \<Rightarrow> (case install_staged staged p [] of (r, p') \<Rightarrow> (r, b\<lparr>active_proof := Some p'\<rparr>)))"

text \<open>The nodes on the path; in a well-formed book the loop of \<open>path\<close> ends, so \<open>None\<close> is not met.\<close>

definition path_records ::
  "checkpoint_book \<Rightarrow> checkpoint_id \<Rightarrow> err + (checkpoint_id \<times> checkpoint) list" where
  "path_records b target =
     (case book_path b target of
        None \<Rightarrow> Inl (invalid_conf ''checkpoint path does not end'')
      | Some r \<Rightarrow>
          result_bind (result_map_err checkpoint_error_of r) (\<lambda>ids.
          collect_results (\<lambda>i. result_map_err checkpoint_error_of (result_bind (book_lookup b i) (\<lambda>c. Inr (i, c)))) ids))"

fun first_missing :: "(checkpoint_id \<times> checkpoint) list \<Rightarrow> nat option" where
  "first_missing [] = None"
| "first_missing ((i, c) # records) = (if pet_state c = None then Some 0 else map_option Suc (first_missing records))"

definition replay_checkpoint ::
  "('w, 'z) engine_env_scheme \<Rightarrow> checkpoint_id \<Rightarrow> ('w, 's, pet_state_id) server_op" where
  "replay_checkpoint env target_id =
     and_then the_book (\<lambda>b.
     and_then (lift_result (path_records b target_id)) (\<lambda>records.
     case first_missing records of
       None \<Rightarrow> ret (the (pet_state (snd (last records))))
     | Some missing \<Rightarrow>
         (let tot = length records - missing in
          and_then (progress_now ''pet_replay'' 0 (Some tot) (''replaying checkpoint path for checkpoint ''
            @ show_nat (unat target_id) @ '' after PET state loss or project refresh'')) (\<lambda>_.
          and_then the_proof (\<lambda>proof.
          let target = ses_target proof in
          and_then (progress_target target) (\<lambda>_.
          and_then (if missing = 0
              then and_then (replay_first env target (hd records) tot) (\<lambda>(state, st). ret (state, [st], 1))
              else ret (the (pet_state (snd (records ! (missing - 1)))), [], missing)) (\<lambda>(state, staged, first).
          and_then (replay_rest env target tot (drop first records) ((if missing = 0 then 1 else 0) + 1) state staged) (\<lambda>(state, staged).
          and_then (with_book (install_all staged)) (\<lambda>replaced.
          and_then (lift_result replaced) (\<lambda>replaced.
          and_then (release env replaced) (\<lambda>_. ret state)))))))))))"

definition ensure_current_state ::
  "('w, 'z) engine_env_scheme \<Rightarrow> ('w, 's, checkpoint_id \<times> pet_state_id) server_op" where
  "ensure_current_state env =
     and_then the_book (\<lambda>b.
     and_then (checkpoint_result (book_current b)) (\<lambda>(i, c).
     case pet_state c of
       Some state \<Rightarrow> ret (i, state)
     | None \<Rightarrow> and_then (replay_checkpoint env i) (\<lambda>state. ret (i, state))))"

end
