(* ===== verification/Adapter_Tools.thy ===== *)
theory Adapter_Tools
  imports Adapter
begin

text \<open>
  The tools of \<open>rocq-mcp/src/adapter.rs\<close> and their dispatch: \<open>list_files\<close>, \<open>list_decls\<close>, \<open>prove\<close>,
  \<open>declare\<close>, \<open>abandon\<close>, \<open>check\<close>, \<open>try\<close>, \<open>rewind\<close>, \<open>query\<close> and \<open>start\<close>.
\<close>

section \<open>Retiring and beginning a proof\<close>

text \<open>The value says that the release found the whole epoch lost.\<close>

definition retire_proof :: "('w, 'z) engine_env_scheme \<Rightarrow> ('w, 's, bool) server_op" where
  "retire_proof env =
     and_then the_book (\<lambda>b.
     if active_proof b = None then ret False
     else
       and_then (attempt (release_states env (book_handles b))) (\<lambda>r.
       case r of
         Inl e \<Rightarrow>
           (if is_transport_loss e then and_then clear_book (\<lambda>_. ret True) else throw (pet_release_error e))
       | Inr _ \<Rightarrow> and_then clear_book (\<lambda>_. ret False)))"

definition begin_proof :: "('w, 'z) engine_env_scheme \<Rightarrow> opened_proof \<Rightarrow> ('w, 's, json) server_op" where
  "begin_proof env opened =
     (case bounded_checkpoint_view (op_view opened) of (v, next_off) \<Rightarrow>
      and_then (commit_or_cancelled env) (\<lambda>_.
      and_then (with_book (book_begin (op_target opened) (op_state opened) (op_finished opened) v next_off)) (\<lambda>r.
      case r of
        Inl e \<Rightarrow> and_then (release env [op_state opened]) (\<lambda>_. throw (checkpoint_error_of e))
      | Inr i \<Rightarrow>
          and_then the_book (\<lambda>b.
          and_then (checkpoint_result (book_lookup b i)) (\<lambda>c.
          ret (proof_state_json (view c) (Some i) (goals_next_offset c)))))))"

definition reject_active_proof :: "string \<Rightarrow> ('w, 's, unit) server_op" where
  "reject_active_proof operation =
     and_then the_book (\<lambda>b. when_err (active_proof b \<noteq> None)
       (bad_request (''abandon the active proof before calling '' @ operation)))"

definition target_argument :: "json \<Rightarrow> err + declaration_identity" where
  "target_argument args =
     result_bind (ok_or (bad_request ''target is required'') (json_get args ''target'')) (\<lambda>v. declaration_id v ''target'')"

text \<open>\<open>if let Ok(fingerprint) = artifact_fingerprint(..)\<close>\<close>

definition remember_artifact :: "('w, 'z) engine_env_scheme \<Rightarrow> file_id \<Rightarrow> ('w, 's, bool) server_op" where
  "remember_artifact env f =
     and_then the_project (\<lambda>pj.
     and_then (attempt (artifact_fingerprint env pj f)) (\<lambda>r.
     case (r :: err + artifact_fingerprint) of
       Inl _ \<Rightarrow> ret False
     | Inr fp \<Rightarrow> and_then (record_artifact f fp) (\<lambda>_. ret True)))"

section \<open>Listing, proving, declaring, abandoning\<close>

definition tool_list_files :: "json \<Rightarrow> ('w, 's, json) server_op" where
  "tool_list_files args =
     and_then (lift_result (reject_unknown args [])) (\<lambda>_.
     and_then the_project (\<lambda>pj.
     and_then (lift_result (list_files pj)) (\<lambda>files.
     ret (json_obj [(''files'', JArray (map JString files))]))))"

definition tool_list_decls :: "('w, 'z) engine_env_scheme \<Rightarrow> json \<Rightarrow> ('w, 's, json) server_op" where
  "tool_list_decls env args =
     and_then (lift_result (reject_unknown args [''file''])) (\<lambda>_.
     and_then (lift_result (required_string args ''file'')) (\<lambda>f.
     let f = backslash_to_slash f in
     and_then (reconcile_artifact env f) (\<lambda>_.
     and_then the_project (\<lambda>pj.
     and_then (list_decls env pj f) (\<lambda>ds.
     ret (json_obj [(''declarations'', JArray (map declaration_json ds))]))))))"

definition validate_phase :: "string \<Rightarrow> nat" where
  "validate_phase p = (if p = ''pet_refresh'' then 1 else if p = ''trust_audit'' then 2 else 0)"

definition validate_now ::
  "('w, 'z) engine_env_scheme \<Rightarrow> declaration_target \<Rightarrow> ('w, 's, json) server_op" where
  "validate_now env target =
     and_then invalidate_all (\<lambda>_.
     and_then (progress_now ''dune_build'' 0 (Some 3) ''building the Dune target before trust audit'') (\<lambda>_.
     and_then the_project (\<lambda>pj.
     and_then (with_phases validate_phase 3 (validate_published env pj target)) (\<lambda>state.
     and_then (remember_artifact env (id_file (identity (info target)))) (\<lambda>_.
     ret (proof_state_json state None None))))))"

definition tool_prove :: "('w, 'z) engine_env_scheme \<Rightarrow> json \<Rightarrow> ('w, 's, json) server_op" where
  "tool_prove env args =
     and_then (lift_result (reject_unknown args [''target''])) (\<lambda>_.
     and_then (lift_result (target_argument args)) (\<lambda>d.
     and_then (reject_active_proof ''prove'') (\<lambda>_.
     and_then (reconcile_artifact env (id_file d)) (\<lambda>_.
     and_then the_project (\<lambda>pj.
     and_then (open_declaration env pj d) (\<lambda>opened.
     case opened of
       Published target \<Rightarrow> validate_now env target
     | OpenProof proof \<Rightarrow> begin_proof env proof))))))"

definition tool_declare :: "('w, 'z) engine_env_scheme \<Rightarrow> json \<Rightarrow> ('w, 's, json) server_op" where
  "tool_declare env args =
     and_then (lift_result (reject_unknown args [''name'', ''statement'', ''kind'', ''file''])) (\<lambda>_.
     and_then (lift_result (required_string args ''name'')) (\<lambda>name.
     and_then (lift_result (required_string args ''file'')) (\<lambda>f.
     let f = backslash_to_slash f in
     and_then (lift_result (wire_kind (Option.bind (json_get args ''kind'') as_str))) (\<lambda>k.
     and_then (lift_result (required_string args ''statement'')) (\<lambda>stmt.
     and_then (reject_active_proof ''declare'') (\<lambda>_.
     and_then (reconcile_artifact env f) (\<lambda>_.
     and_then the_project (\<lambda>pj.
     and_then (declare_proof env pj k f name stmt) (\<lambda>opened.
     begin_proof env opened)))))))))"

definition tool_abandon :: "('w, 'z) engine_env_scheme \<Rightarrow> json \<Rightarrow> ('w, 's, json) server_op" where
  "tool_abandon env args =
     and_then (lift_result (reject_unknown args [''target''])) (\<lambda>_.
     and_then (lift_result (target_argument args)) (\<lambda>d.
     and_then the_proof (\<lambda>proof.
     and_then (when_err (identity (info (ses_target proof)) \<noteq> d)
       (error_new NotFound ''no active unpublished proof has that declaration'')) (\<lambda>_.
     and_then (commit_or_cancelled env) (\<lambda>_.
     and_then (retire_proof env) (\<lambda>epoch_lost.
     and_then (if epoch_lost then invalidate_all else ret ()) (\<lambda>_.
     ret (json_obj []))))))))"

section \<open>Check\<close>

definition selected_result ::
  "nat \<Rightarrow> proof_state \<Rightarrow> checkpoint_id option \<Rightarrow> nat option \<Rightarrow> json list \<Rightarrow> bool \<Rightarrow> json" where
  "selected_result index st i next_off rejected structured =
     (let v = json_obj [(''selected'', json_nat index), (''state'', state_json_with_options st i next_off structured)]
      in if rejected = [] then v else json_set ''rejected'' (JArray rejected) v)"

definition selected_error ::
  "('w, 'z) engine_env_scheme \<Rightarrow> nat \<Rightarrow> proof_state \<Rightarrow> checkpoint_id option \<Rightarrow> nat option \<Rightarrow> json list \<Rightarrow> err \<Rightarrow> bool
   \<Rightarrow> json" where
  "selected_error env index st i next_off rejected e structured =
     (let v = json_obj [(''selected'', json_nat index), (''state'', state_json_with_options st i next_off structured),
            (''error'', public_error env e)]
      in if rejected = [] then v else json_set ''rejected'' (JArray rejected) v)"

definition with_diff :: "('w, 'z) engine_env_scheme \<Rightarrow> bool \<Rightarrow> proof_state \<Rightarrow> proof_state \<Rightarrow> json \<Rightarrow> json" where
  "with_diff env structured before after v =
     (if structured then (case goal_diff_json env before after of Some d \<Rightarrow> json_set ''goal_diff'' d v | None \<Rightarrow> v) else v)"

definition publish_phase :: "string \<Rightarrow> nat" where
  "publish_phase p =
     (if p = ''writeback'' then 1 else if p = ''dune_build'' \<or> p = ''rollback_build'' then 2
      else if p = ''pet_refresh'' \<or> p = ''rollback_refresh'' then 3 else if p = ''trust_audit'' then 4 else 0)"

text \<open>The optional arguments of \<open>check\<close> and \<open>try\<close>.\<close>

record step_options =
  so_timeout :: "nat option"
  so_trace :: bool
  so_structured :: bool

text \<open>Publication of a finished fragment: from the committed checkpoint to the answer.\<close>

definition publish_checked ::
  "('w, 'z) engine_env_scheme \<Rightarrow> step_options \<Rightarrow> declaration_target \<Rightarrow> proof_state \<Rightarrow> nat \<Rightarrow> nat \<Rightarrow> json list
   \<Rightarrow> proof_state \<Rightarrow> nat option \<Rightarrow> checkpoint_id \<Rightarrow> ('w, 's, json) server_op" where
  "publish_checked env opt target base_view tot index rejected after_view next_off i =
     and_then the_book (\<lambda>b.
     and_then (lift_result (case fragments b i of
         None \<Rightarrow> Inl (invalid_conf ''checkpoint path does not end'')
       | Some r \<Rightarrow> result_map_err checkpoint_error_of r)) (\<lambda>path.
     and_then (progress_now ''prepare_writeback'' index (Some tot) ''preparing atomic source publication'') (\<lambda>_.
     and_then the_project (\<lambda>pj.
     let f = id_file (identity (info target)) in
     and_then (attempt (with_phases publish_phase 5
       (engine_publish env pj target path invalidate_project_states))) (\<lambda>published.
     case published of
       Inr state \<Rightarrow>
         and_then (remember_artifact env f) (\<lambda>recorded.
         and_then (if recorded then ret () else forget_artifact f) (\<lambda>_.
         and_then clear_book (\<lambda>_.
         ret (with_diff env (so_structured opt) base_view after_view
           (selected_result index state None None rejected (so_structured opt))))))
     | Inl e \<Rightarrow>
         and_then (forget_artifact f) (\<lambda>_.
         and_then (if err_kind e = DeclarationChanged then and_then clear_book (\<lambda>_. ret None) else ret (Some i)) (\<lambda>kept.
         ret (selected_error env index after_view kept next_off rejected e (so_structured opt)))))))))"

text \<open>An alternative that PET accepted.\<close>

definition accept_step ::
  "('w, 'z) engine_env_scheme \<Rightarrow> step_options \<Rightarrow> declaration_target \<Rightarrow> proof_state \<Rightarrow> nat \<Rightarrow> nat \<Rightarrow> string
   \<Rightarrow> json list \<Rightarrow> proof_step \<Rightarrow> ('w, 's, json) server_op" where
  "accept_step env opt target base_view tot index fragment rejected step =
     (case bounded_checkpoint_view (st_view step) of (v, next_off) \<Rightarrow>
      and_then the_project (\<lambda>pj.
      and_then (if st_finished step
          then and_then (progress_now ''finalize'' index (Some tot) ''validating the generated proof terminator'') (\<lambda>_.
            and_then (attempt (close_proof env pj target (st_state step))) (\<lambda>r.
            ret (case r of Inl e \<Rightarrow> Some e | Inr _ \<Rightarrow> None)))
          else ret None) (\<lambda>close_error.
      and_then (case close_error of
          Some e \<Rightarrow> (if err_kind e = RequestCancelled then throw e else ret ()) | None \<Rightarrow> ret ()) (\<lambda>_.
      and_then (commit_or_cancelled env) (\<lambda>_.
      let kept_view = (if so_structured opt then v else v\<lparr>ps_structured_goals := None\<rparr>) in
      and_then (with_book (book_commit (st_state step) fragment (st_finished step) kept_view next_off)) (\<lambda>committed.
      case committed of
        Inl e \<Rightarrow> and_then (release env [st_state step]) (\<lambda>_. throw (checkpoint_error_of e))
      | Inr i \<Rightarrow>
          (case close_error of
             Some e \<Rightarrow>
               and_then (if invalidates_pet_epoch (err_kind e) then invalidate_all else ret ()) (\<lambda>_.
               ret (selected_error env index v (Some i) next_off rejected e (so_structured opt)))
           | None \<Rightarrow>
               (if \<not> st_finished step
                then ret (with_diff env (so_structured opt) base_view v
                  (selected_result index v (Some i) next_off rejected (so_structured opt)))
                else publish_checked env opt target base_view tot index rejected v next_off i))))))))"

text \<open>The alternatives in order: \<open>Inl\<close> is the answer of the first accepted one, \<open>Inr\<close> the rejections.\<close>

fun check_alternatives ::
  "('w, 'z) engine_env_scheme \<Rightarrow> step_options \<Rightarrow> declaration_target \<Rightarrow> proof_state \<Rightarrow> nat \<Rightarrow> nat \<Rightarrow> string list
   \<Rightarrow> json list \<Rightarrow> ('w, 's, json + json list) server_op" where
  "check_alternatives env opt target base_view tot index [] rejected = ret (Inr rejected)"
| "check_alternatives env opt target base_view tot index (fragment # frags) rejected =
     and_then (progress_now ''proof_step'' index (Some tot) (''evaluating alternative '' @ show_nat (index + 1))) (\<lambda>_.
     and_then (ensure_current_state env) (\<lambda>(_, base_state).
     and_then the_project (\<lambda>pj.
     and_then (attempt (run_traced env pj target base_state fragment (so_trace opt) (so_timeout opt))) (\<lambda>r.
     case r of
       Inr (TracedSuccess step) \<Rightarrow>
         and_then (accept_step env opt target base_view tot index fragment rejected step) (\<lambda>v. ret (Inl v))
     | Inr (TracedFailure failure) \<Rightarrow>
         check_alternatives env opt target base_view tot (index + 1) frags
           (rejected @ [traced_failure_json env failure (so_structured opt)])
     | Inl e \<Rightarrow>
         (if err_kind e = ProofStepTimeout
          then and_then invalidate_all (\<lambda>_.
            check_alternatives env opt target base_view tot (index + 1) frags (rejected @ [public_error env e]))
          else throw e)))))"

definition step_arguments :: "json \<Rightarrow> err + string list \<times> step_options" where
  "step_arguments args =
     result_bind (reject_unknown args [''attempts'', ''timeout_ms'', ''trace'', ''structured'']) (\<lambda>_.
     result_bind (attempts args) (\<lambda>frags.
     result_bind (attempt_timeout args) (\<lambda>timeout.
     result_bind (optional_bool args ''trace'') (\<lambda>tr.
     result_bind (optional_bool args ''structured'') (\<lambda>structured.
     Inr (frags, \<lparr>so_timeout = timeout, so_trace = tr, so_structured = structured\<rparr>))))))"

text \<open>The common opening of \<open>check\<close> and \<open>try\<close>: the target is current, its artifact is built, the
  selected checkpoint has a state; the result is the goals before the step.\<close>

definition open_step ::
  "('w, 'z) engine_env_scheme \<Rightarrow> ('w, 's, checkpoint_id \<times> declaration_target \<times> proof_state) server_op" where
  "open_step env =
     and_then the_proof (\<lambda>proof.
     and_then the_project (\<lambda>pj.
     and_then (validate_target env pj (ses_target proof)) (\<lambda>_.
     and_then (reconcile_artifact env (id_file (identity (info (ses_target proof))))) (\<lambda>_.
     and_then (ensure_current_state env) (\<lambda>(base_id, base_state).
     and_then the_proof (\<lambda>proof.
     let target = ses_target proof in
     and_then (progress_target target) (\<lambda>_.
     and_then the_project (\<lambda>pj.
     and_then (engine_goals env pj target base_state AllGoals None) (\<lambda>base_view.
     ret (base_id, target, base_view))))))))))"

definition tool_check :: "('w, 'z) engine_env_scheme \<Rightarrow> json \<Rightarrow> ('w, 's, json) server_op" where
  "tool_check env args =
     and_then (lift_result (step_arguments args)) (\<lambda>(frags, opt).
     and_then (open_step env) (\<lambda>(base_id, target, base_view).
     let tot = length frags in
     and_then (progress_now ''proof_step'' 0 (Some tot) ''evaluating proof alternatives'') (\<lambda>_.
     and_then (check_alternatives env opt target base_view tot 0 frags []) (\<lambda>r.
     case r of
       Inl v \<Rightarrow> ret v
     | Inr rejected \<Rightarrow>
         and_then the_book (\<lambda>b.
         and_then (checkpoint_result (book_lookup b base_id)) (\<lambda>c.
         let final = (if so_structured opt
             then (view c)\<lparr>ps_structured_goals := ps_structured_goals base_view\<rparr> else view c) in
         ret (json_obj
           [(''state'', state_json_with_options final (Some base_id) (goals_next_offset c) (so_structured opt)),
            (''rejected'', JArray rejected)])))))))"

section \<open>Try\<close>

fun try_alternatives ::
  "('w, 'z) engine_env_scheme \<Rightarrow> step_options \<Rightarrow> declaration_target \<Rightarrow> proof_state \<Rightarrow> nat \<Rightarrow> nat \<Rightarrow> string list
   \<Rightarrow> json list \<Rightarrow> ('w, 's, json list) server_op" where
  "try_alternatives env opt target base_view tot index [] out = ret out"
| "try_alternatives env opt target base_view tot index (fragment # frags) out =
     and_then (progress_now ''proof_step'' index (Some tot) (''evaluating read-only alternative '' @ show_nat (index + 1))) (\<lambda>_.
     and_then (ensure_current_state env) (\<lambda>(_, base_state).
     and_then the_project (\<lambda>pj.
     and_then (attempt (run_traced env pj target base_state fragment (so_trace opt) (so_timeout opt))) (\<lambda>r.
     and_then (case r of
       Inr (TracedSuccess step) \<Rightarrow>
         and_then (reject_cancelled env) (\<lambda>_.
         and_then (release env [st_state step]) (\<lambda>_.
         ret (with_diff env (so_structured opt) base_view (st_view step)
           (json_obj [(''solved'', JBool (st_finished step)),
             (''state'', state_json_with_options (st_view step) None None (so_structured opt))]))))
     | Inr (TracedFailure failure) \<Rightarrow>
         ret (json_obj [(''solved'', JBool False), (''error'', traced_failure_json env failure (so_structured opt))])
     | Inl e \<Rightarrow>
         (if err_kind e = ProofStepTimeout
          then and_then invalidate_all (\<lambda>_.
            ret (json_obj [(''solved'', JBool False), (''error'', public_error env e)]))
          else throw e)) (\<lambda>entry.
     and_then (progress_now ''proof_step'' (index + 1) (Some tot) ''proof alternative evaluated'') (\<lambda>_.
     try_alternatives env opt target base_view tot (index + 1) frags (out @ [entry])))))))"

definition tool_try :: "('w, 'z) engine_env_scheme \<Rightarrow> json \<Rightarrow> ('w, 's, json) server_op" where
  "tool_try env args =
     and_then (lift_result (step_arguments args)) (\<lambda>(frags, opt).
     and_then (open_step env) (\<lambda>(_, target, base_view).
     let tot = length frags in
     and_then (progress_now ''proof_step'' 0 (Some tot) ''evaluating read-only proof alternatives'') (\<lambda>_.
     and_then (try_alternatives env opt target base_view tot 0 frags []) (\<lambda>out.
     ret (json_obj [(''attempts'', JArray out)])))))"

section \<open>Rewind\<close>

definition positive_argument :: "json \<Rightarrow> string \<Rightarrow> err + u64" where
  "positive_argument v message = ok_or (bad_request message) (positive_u64 v)"

definition rewind_target :: "json \<Rightarrow> checkpoint_book \<Rightarrow> err + checkpoint_id" where
  "rewind_target args b =
     (case json_get args ''checkpoint'' of
        Some v \<Rightarrow> positive_argument v ''checkpoint must be positive''
      | None \<Rightarrow>
          (case json_get args ''steps'' of
             Some v \<Rightarrow> result_bind (positive_argument v ''steps must be a positive integer'')
               (\<lambda>steps. result_map_err checkpoint_error_of (steps_back steps b))
           | None \<Rightarrow> result_map_err checkpoint_error_of (steps_back 1 b)))"

definition tool_rewind :: "('w, 'z) engine_env_scheme \<Rightarrow> json \<Rightarrow> ('w, 's, json) server_op" where
  "tool_rewind env args =
     and_then (lift_result (reject_unknown args [''steps'', ''checkpoint''])) (\<lambda>_.
     and_then (when_err (json_get args ''steps'' \<noteq> None \<and> json_get args ''checkpoint'' \<noteq> None)
       (bad_request ''steps and checkpoint are mutually exclusive'')) (\<lambda>_.
     and_then the_book (\<lambda>b.
     and_then (lift_result (rewind_target args b)) (\<lambda>i.
     and_then the_proof (\<lambda>proof.
     let target = ses_target proof in
     and_then (progress_target target) (\<lambda>_.
     and_then the_project (\<lambda>pj.
     and_then (validate_target env pj target) (\<lambda>_.
     and_then (reconcile_artifact env (id_file (identity (info target)))) (\<lambda>_.
     and_then the_book (\<lambda>b.
     and_then (checkpoint_result (book_lookup b i)) (\<lambda>c.
     and_then (if pet_state c = None then replay_checkpoint env i else ret 0) (\<lambda>_.
     and_then (commit_or_cancelled env) (\<lambda>_.
     and_then (with_book (book_select i)) (\<lambda>r.
     and_then (checkpoint_result r) (\<lambda>_.
     and_then the_book (\<lambda>b.
     and_then (checkpoint_result (book_lookup b i)) (\<lambda>c.
     ret (proof_state_json (view c) (Some i) (goals_next_offset c)))))))))))))))))))"

section \<open>Queries\<close>

definition json_remove :: "string \<Rightarrow> json \<Rightarrow> json" where
  "json_remove k v = (case v of JObject m \<Rightarrow> JObject (bt_remove k m) | _ \<Rightarrow> v)"

definition limit_argument :: "json \<Rightarrow> err + nat" where
  "limit_argument args =
     (case json_get args ''limit'' of
        None \<Rightarrow> Inr 20
      | Some v \<Rightarrow> ok_or (bad_request ''limit must be an integer from 1 to 100'')
          (Option.bind (as_u64 v) (\<lambda>n. if 1 \<le> n \<and> n \<le> 100 then Some (unat n) else None)))"

definition query_locate :: "('w, 'z) engine_env_scheme \<Rightarrow> json \<Rightarrow> ('w, 's, json) server_op" where
  "query_locate env args =
     and_then (lift_result (reject_unknown args [''kind'', ''symbol'', ''limit''])) (\<lambda>_.
     and_then (lift_result (required_string args ''symbol'')) (\<lambda>raw.
     let symbol = trim raw in
     and_then (when_err (symbol = []) (bad_request ''symbol must not be empty'')) (\<lambda>_.
     and_then (lift_result (limit_argument args)) (\<lambda>limit.
     and_then the_project (\<lambda>pj.
     and_then (progress_now ''symbol_index'' 0 (Some (file_count pj)) ''indexing Dune-selected source candidates'') (\<lambda>_.
     and_then (locate_symbol_candidates env pj symbol) (\<lambda>candidates.
     and_then (reconcile_artifacts env candidates) (\<lambda>_.
     and_then (progress_now ''symbol_resolve'' 0 (Some (length candidates)) ''checking candidate declarations with PET'') (\<lambda>_.
     and_then (resolve_symbol_candidates env pj symbol (limit + 1) candidates) (\<lambda>locations.
     ret (json_obj
       [(''symbol'', JString symbol),
        (''candidates'', JArray (map symbol_location_json (take limit locations))),
        (''truncated'', JBool (limit < length locations))])))))))))))"

definition bad_goal_id :: err where
  "bad_goal_id = bad_request ''goal_id must be a non-empty evar array returned by query(goals)''"

definition goal_id_argument :: "json \<Rightarrow> err + json list option" where
  "goal_id_argument args =
     (case json_get args ''goal_id'' of
        None \<Rightarrow> Inr None
      | Some v \<Rightarrow> result_bind (ok_or bad_goal_id (as_array v)) (\<lambda>xs. if xs = [] then Inl bad_goal_id else Inr (Some xs)))"

record goal_arguments =
  ga_offset :: nat
  ga_diff :: bool
  ga_structured :: bool
  ga_goal :: "json list option"
  ga_scope :: goal_scope

definition goal_arguments :: "json \<Rightarrow> err + goal_arguments" where
  "goal_arguments args =
     result_bind (reject_unknown args [''kind'', ''scope'', ''goal_id'', ''offset'', ''diff'', ''structured'']) (\<lambda>_.
     result_bind (query_offset args) (\<lambda>offset.
     result_bind (optional_bool args ''diff'') (\<lambda>diff.
     result_bind (optional_bool args ''structured'') (\<lambda>structured.
     result_bind (goal_id_argument args) (\<lambda>goal.
     if goal \<noteq> None \<and> json_get args ''scope'' \<noteq> None
     then Inl (bad_request ''scope and goal_id are mutually exclusive'')
     else
       result_bind (if goal \<noteq> None then Inr AllGoals else goal_scope_of args) (\<lambda>scope.
       Inr \<lparr>ga_offset = offset, ga_diff = diff, ga_structured = structured, ga_goal = goal, ga_scope = scope\<rparr>))))))"

definition no_parent_context :: json where
  "no_parent_context = json_obj [(''available'', JBool False),
     (''reason'', JString ''the selected checkpoint has no materialized semantic parent context'')]"

text \<open>The view of the checkpoint before the given one, when both are in the book.\<close>

definition parent_view :: "checkpoint_book \<Rightarrow> checkpoint_id \<Rightarrow> proof_state option" where
  "parent_view b i =
     Option.bind (active_proof b) (\<lambda>p.
     Option.bind (bt_get (checkpoints p) i) (\<lambda>c.
     Option.bind (parent c) (\<lambda>q.
     case book_lookup b q of Inl _ \<Rightarrow> None | Inr d \<Rightarrow> Some (view d))))"

definition query_goals :: "('w, 'z) engine_env_scheme \<Rightarrow> json \<Rightarrow> ('w, 's, json) server_op" where
  "query_goals env args =
     and_then (lift_result (goal_arguments args)) (\<lambda>ga.
     and_then the_proof (\<lambda>proof.
     and_then the_project (\<lambda>pj.
     and_then (validate_target env pj (ses_target proof)) (\<lambda>_.
     and_then (reconcile_artifact env (id_file (identity (info (ses_target proof))))) (\<lambda>_.
     and_then (ensure_current_state env) (\<lambda>(i, state).
     and_then the_proof (\<lambda>proof.
     and_then the_project (\<lambda>pj.
     and_then (engine_goals env pj (ses_target proof) state (ga_scope ga) (ga_goal ga)) (\<lambda>v.
     and_then (lift_result (text_page (ps_goals v) (ga_offset ga))) (\<lambda>p.
     and_then the_book (\<lambda>b.
     let r = json_remove ''goals_next_offset'' (state_json_with_options v (Some i) None (ga_structured ga));
         r = json_set ''goals'' (JString (page_text p)) r;
         r = (case page_next p of None \<Rightarrow> r | Some n \<Rightarrow> json_set ''next_offset'' (json_nat n) r);
         r = (if ga_diff ga
              then json_set ''goal_diff'' (case Option.bind (parent_view b i) (\<lambda>before. goal_diff_json env before v) of
                  Some d \<Rightarrow> d | None \<Rightarrow> no_parent_context) r
              else r)
     in ret r)))))))))))"

text \<open>A query in the selected proof's current state.\<close>

definition query_selected :: "('w, 'z) engine_env_scheme \<Rightarrow> pet_query \<Rightarrow> ('w, 's, string) server_op" where
  "query_selected env q =
     and_then (ensure_current_state env) (\<lambda>(_, state).
     and_then the_proof (\<lambda>proof.
     and_then the_project (\<lambda>pj.
     query_state env pj (ses_target proof) state q)))"

definition about_query :: "string \<Rightarrow> string \<Rightarrow> pet_query" where
  "about_query kind_name name =
     (if kind_name = ''about'' then About name else if kind_name = ''print'' then Print name
      else if kind_name = ''assumptions'' then Assumptions name else Dependencies name)"

definition query_about :: "('w, 'z) engine_env_scheme \<Rightarrow> string \<Rightarrow> json \<Rightarrow> ('w, 's, json) server_op" where
  "query_about env kind_name args =
     and_then (lift_result (reject_unknown args [''kind'', ''target'', ''offset''])) (\<lambda>_.
     and_then (lift_result (query_offset args)) (\<lambda>offset.
     and_then (lift_result (target_argument args)) (\<lambda>d.
     let q = about_query kind_name (qualified_name d) in
     and_then (reconcile_artifact env (id_file d)) (\<lambda>_.
     and_then the_book (\<lambda>b.
     and_then (if (case active_proof b of None \<Rightarrow> False | Some p \<Rightarrow> identity (info (ses_target p)) = d)
         then query_selected env q
         else and_then the_project (\<lambda>pj. query_at env pj d q)) (\<lambda>t.
     lift_result (text_result t offset)))))))"

definition context_query :: "string \<Rightarrow> json \<Rightarrow> err + pet_query" where
  "context_query kind_name args =
     (if kind_name = ''search'' then result_bind (required_string args ''pattern'') (\<lambda>t. Inr (Search t))
      else if kind_name = ''type'' then result_bind (required_string args ''expression'') (\<lambda>t. Inr (ExpressionType t))
      else result_bind (required_string args ''expression'') (\<lambda>t. Inr (Notation t)))"

definition query_context :: "('w, 'z) engine_env_scheme \<Rightarrow> string \<Rightarrow> json \<Rightarrow> ('w, 's, json) server_op" where
  "query_context env kind_name args =
     and_then (lift_result (reject_unknown args
       (if kind_name = ''search'' then [''kind'', ''pattern'', ''at'', ''offset''] else [''kind'', ''expression'', ''at'', ''offset'']))) (\<lambda>_.
     and_then (lift_result (query_offset args)) (\<lambda>offset.
     and_then (lift_result (context_query kind_name args)) (\<lambda>q.
     and_then the_book (\<lambda>b.
     case json_get args ''at'' of
       Some v \<Rightarrow>
         and_then (lift_result (declaration_id v ''at'')) (\<lambda>d.
         and_then (reconcile_artifact env (id_file d)) (\<lambda>_.
         and_then the_project (\<lambda>pj.
         and_then (query_at env pj d q) (\<lambda>t.
         lift_result (text_result t offset)))))
     | None \<Rightarrow>
         (case active_proof b of
            Some p \<Rightarrow>
              and_then (reconcile_artifact env (id_file (identity (info (ses_target p))))) (\<lambda>_.
              and_then (query_selected env q) (\<lambda>t.
              lift_result (text_result t offset)))
          | None \<Rightarrow> throw (bad_request ''at is required when no proof is selected''))))))"

definition tool_query :: "('w, 'z) engine_env_scheme \<Rightarrow> json \<Rightarrow> ('w, 's, json) server_op" where
  "tool_query env args =
     and_then (lift_result (ok_or (bad_request ''kind is required'') (Option.bind (json_get args ''kind'') as_str))) (\<lambda>k.
     if k = ''locate_symbol'' then query_locate env args
     else if k = ''goals'' then query_goals env args
     else if k \<in> set [''about'', ''print'', ''assumptions'', ''dependencies''] then query_about env k args
     else if k \<in> set [''search'', ''type'', ''notations''] then query_context env k args
     else throw (bad_request ''unsupported query kind''))"

section \<open>Dispatch\<close>

definition dispatch_attached :: "('w, 'z) engine_env_scheme \<Rightarrow> string \<Rightarrow> json \<Rightarrow> ('w, 's, json) server_op" where
  "dispatch_attached env name args =
     (if name = ''list_files'' then tool_list_files args
      else if name = ''list_decls'' then tool_list_decls env args
      else if name = ''prove'' then tool_prove env args
      else if name = ''declare'' then tool_declare env args
      else if name = ''abandon'' then tool_abandon env args
      else if name = ''check'' then tool_check env args
      else if name = ''try'' then tool_try env args
      else if name = ''rewind'' then tool_rewind env args
      else if name = ''query'' then tool_query env args
      else throw (bad_request ''unknown tool''))"

text \<open>The layout probe of the locked project; the value says whether the layout changed.\<close>

definition refresh_locked :: "('w, 'z) engine_env_scheme \<Rightarrow> ('w, 's, bool) server_op" where
  "refresh_locked env =
     and_then the_project (\<lambda>pj.
     and_then (refresh_project env pj) (\<lambda>(changed, pj').
     and_then (modify (\<lambda>s. s\<lparr>srv_project := pj'\<rparr>)) (\<lambda>_. ret changed)))"

definition layout_epoch :: "('w, 's, unit) server_op" where
  "layout_epoch = and_then clear_artifacts (\<lambda>_. end_epoch)"

definition install_start_view :: "('w, 'z) engine_env_scheme \<Rightarrow> path \<Rightarrow> ('w, 's, unit) server_op" where
  "install_start_view env key =
     and_then (refresh_locked env) (\<lambda>changed.
     and_then (modify (\<lambda>s. s\<lparr>srv_own := (srv_own s)\<lparr>sel_project := Some key\<rparr>\<rparr>)) (\<lambda>_.
     if changed then layout_epoch else ret ()))"

text \<open>The retirement of the connection's proof in the project that it leaves or starts again.\<close>

definition retire_previous :: "('w, 'z) engine_env_scheme \<Rightarrow> path \<Rightarrow> ('w, 's, unit) server_op" where
  "retire_previous env key =
     and_then (modify (enter key)) (\<lambda>_.
     and_then (reject_cancelled env) (\<lambda>_.
     and_then (commit_or_cancelled env) (\<lambda>_.
     and_then (retire_proof env) (\<lambda>epoch_lost.
     if epoch_lost then invalidate_all else ret ()))))"

text \<open>\<open>start\<close> once the runtime of the requested project is found.\<close>

definition start_found :: "('w, 'z) engine_env_scheme \<Rightarrow> path \<Rightarrow> ('w, 's, json) server_op" where
  "start_found env key =
     and_then (gets (\<lambda>s. sel_project (srv_own s))) (\<lambda>previous.
     if previous = Some key
     then
       and_then (retire_previous env key) (\<lambda>_.
       and_then (install_start_view env key) (\<lambda>_. ret (json_obj [])))
     else
       and_then (case previous of
           None \<Rightarrow> ret ()
         | Some old \<Rightarrow>
             and_then (retire_previous env old) (\<lambda>_.
             and_then (modify (\<lambda>s. s\<lparr>srv_own := (srv_own s)\<lparr>sel_project := None\<rparr>\<rparr>)) (\<lambda>_. drop_runtime))) (\<lambda>_.
       and_then (modify (enter key)) (\<lambda>_.
       and_then (reject_cancelled env) (\<lambda>_.
       and_then (commit_or_cancelled env) (\<lambda>_.
       and_then (install_start_view env key) (\<lambda>_. ret (json_obj [])))))))"

definition start_with :: "('w, 'z) engine_env_scheme \<Rightarrow> dune_project \<Rightarrow> ('w, 's, json) server_op" where
  "start_with env pj = and_then (modify (project_runtime pj)) (\<lambda>_. start_found env (project_id pj))"

definition start_project :: "('w, 'z) engine_env_scheme \<Rightarrow> json \<Rightarrow> ('w, 's, json) server_op" where
  "start_project env args =
     and_then (lift_result (reject_unknown args [''project_path''])) (\<lambda>_.
     and_then (lift_result (required_string args ''project_path'')) (\<lambda>requested.
     and_then (attach env (path_of requested)) (start_with env)))"

text \<open>The end of \<open>dispatch\<close>: an error that ends the PET process is an epoch boundary.\<close>

definition close_epoch :: "('w, 's, 'a) server_op \<Rightarrow> ('w, 's, 'a) server_op" where
  "close_epoch m =
     and_then (attempt m) (\<lambda>r.
     case r of
       Inl e \<Rightarrow>
         and_then (if invalidates_pet_epoch (err_kind e)
           then and_then (if err_kind e = RequestCancelled then restart else ret ()) (\<lambda>_. invalidate_all)
           else ret ()) (\<lambda>_. throw e)
     | Inr v \<Rightarrow> ret v)"

text \<open>The request of an attached connection, from the project's lock on.\<close>

definition in_request :: "('w, 'z) engine_env_scheme \<Rightarrow> path \<Rightarrow> ('w, 's, 'a) server_op \<Rightarrow> ('w, 's, 'a) server_op" where
  "in_request env key m =
     and_then (modify (enter key)) (\<lambda>_.
     and_then (reject_cancelled env) (\<lambda>_.
     and_then (refresh_locked env) (\<lambda>changed.
     and_then (gets (\<lambda>s. sel_project (srv_own s) = Some key)) (\<lambda>still.
     and_then (when_err (\<not> still) (bad_request ''attached project changed before request admission'')) (\<lambda>_.
     and_then (if changed then layout_epoch else ret ()) (\<lambda>_.
     and_then (reject_cancelled env) (\<lambda>_.
     close_epoch m)))))))"

definition dispatch :: "('w, 'z) engine_env_scheme \<Rightarrow> string \<Rightarrow> json \<Rightarrow> ('w, 's, json) server_op" where
  "dispatch env name args =
     and_then (reject_cancelled env) (\<lambda>_.
     if name = ''query'' \<and> Option.bind (json_get args ''kind'') as_str = Some ''progress''
     then
       and_then (lift_result (reject_unknown args [''kind'', ''generation''])) (\<lambda>_.
       and_then (lift_result (observed_generation args)) (\<lambda>g.
       and_then (external (clock env)) (\<lambda>now.
       gets (\<lambda>s. progress_json now g (srv_progress s)))))
     else
       and_then (progress_now ''project_refresh'' 0 None ''checking Dune project view'') (\<lambda>_.
       if name = ''start'' then start_project env args
       else
         and_then (gets (\<lambda>s. sel_project (srv_own s))) (\<lambda>chosen.
         and_then (lift_result (ok_or (bad_request ''call start first'') chosen)) (\<lambda>key.
         in_request env key (dispatch_attached env name args)))))"

end
