(* ===== verification/Engine_Safety.thy ===== *)
theory Engine_Safety
  imports Engine
begin

text \<open>
  What the operations of the engine guarantee together: an edit under an open proof is found before
  anything else happens, an opened or stepped proof is one that is still safely open, the trust audit
  is sound, and a publication, from the target to the audited result, is the transaction of the
  writeback specification.
\<close>

section \<open>Reads that only move the world\<close>

text \<open>\<open>reads_only m\<close>: whatever \<open>m\<close> answers, only the world has moved: no PET call, no process change, no
  file written.\<close>

definition reads_only :: "(('w, 's) actor_scheme, 'e, 'a) eff \<Rightarrow> bool" where
  "reads_only m \<longleftrightarrow> (\<forall>s. \<exists>w. snd (m s) = s\<lparr>world := w\<rparr>)"

lemma reads_onlyD: "reads_only m \<Longrightarrow> m s = (r, s') \<Longrightarrow> \<exists>w. s' = s\<lparr>world := w\<rparr>"
  unfolding reads_only_def by (metis snd_conv)

lemma reads_only_same: "(\<And>s. snd (m s) = s) \<Longrightarrow> reads_only m"
  unfolding reads_only_def by (metis actor.unfold_congs(4) actor.surjective actor.update_convs(4))

lemma reads_only_basic [frame]:
  "reads_only (ret x)" "reads_only (throw e)" "reads_only (lift_result r)" "reads_only (when_err b e)"
  by (rule reads_only_same; simp add: ret_def throw_def lift_result_def when_err_def)+

lemma reads_only_external [frame]: "reads_only (external g)"
  by (auto simp: reads_only_def external_def split: prod.splits)

lemma reads_only_and_then [frame]:
  assumes "reads_only m" "\<And>x. reads_only (f x)" shows "reads_only (and_then m f)"
  unfolding reads_only_def
proof
  fix s
  obtain r t where m: "m s = (r, t)" by fastforce
  with assms(1) obtain w where t: "t = s\<lparr>world := w\<rparr>" by (blast dest: reads_onlyD)
  show "\<exists>w. snd (and_then m f s) = s\<lparr>world := w\<rparr>"
  proof (cases r)
    case (Inl e)
    with m t show ?thesis by (auto simp: and_then_def)
  next
    case (Inr x)
    obtain r' t' where f: "f x t = (r', t')" by fastforce
    with assms(2) obtain w' where "t' = t\<lparr>world := w'\<rparr>" by (blast dest: reads_onlyD)
    with m f t Inr show ?thesis by (auto simp: and_then_def)
  qed
qed

lemma reads_only_map_err [frame]: "reads_only m \<Longrightarrow> reads_only (map_err g m)"
proof -
  have "snd (map_err g m s) = snd (m s)" for s
    by (simp add: map_err_def split: prod.splits sum.splits)
  then show "reads_only m \<Longrightarrow> reads_only (map_err g m)" by (simp add: reads_only_def)
qed

lemma reads_only_project_source [frame]: "reads_only (project_source env pj file)"
  unfolding project_source_def by (auto intro!: frame)

lemma reads_only_read_or [frame]: "reads_only (read_or env p e)"
  unfolding read_or_def by (intro frame)

lemma reads_only_validate_target [frame]: "reads_only (validate_target env pj target)"
  unfolding validate_target_def by (auto intro!: frame)

section \<open>Edits under an open proof\<close>

text \<open>No read of the target's source gives bytes with the digest of the anchor.\<close>

definition stale :: "('w, 'z) engine_env_scheme \<Rightarrow> declaration_target \<Rightarrow> bool" where
  "stale env target \<longleftrightarrow>
     (\<forall>w. case fst (read_file env (anchor_source (anchor target)) w) of
        None \<Rightarrow> True | Some bytes \<Rightarrow> sha256 env bytes \<noteq> anchor_digest (anchor target))"

lemma staleD:
  "stale env target \<Longrightarrow> read_file env (anchor_source (anchor target)) w = (Some bytes, w') \<Longrightarrow>
   sha256 env bytes \<noteq> anchor_digest (anchor target)"
  unfolding stale_def by (drule spec [of _ w]) simp

lemma validate_target_stale:
  assumes "stale env target"
  shows "\<exists>e w. validate_target env pj target s = (Inl e, s\<lparr>world := w\<rparr>)
    \<and> (err_kind e = DeclarationChanged \<or> err_kind e = InvalidRequest)"
proof -
  obtain r s' where run: "validate_target env pj target s = (r, s')" by fastforce
  then obtain w where w: "s' = s\<lparr>world := w\<rparr>" using reads_onlyD [OF reads_only_validate_target] by blast
  have kinds: "err_kind e = NotFound \<or> err_kind e = InvalidRequest"
    if "project_source env pj fid t = (Inl e, t')" for fid e t t'
    using that unfolding project_source_def validate_file_id_def
    by (auto simp: error_new_def ret_def throw_def lift_result_def external_def elim!: and_thenE
        split: if_splits prod.splits)
  have "\<exists>e. r = Inl e \<and> (err_kind e = DeclarationChanged \<or> err_kind e = InvalidRequest)"
    using run unfolding validate_target_def
    by (auto simp: when_err_def throw_def ret_def read_or_def external_def lift_result_def error_new_def
        elim!: and_thenE map_errE split: if_splits prod.splits dest: kinds staleD [OF assms])
  with run w show ?thesis by blast
qed

lemma stale_prefix:
  assumes "stale env target"
  shows "\<exists>e w. and_then (validate_target env pj target) f s = (Inl e, s\<lparr>world := w\<rparr>)
    \<and> (err_kind e = DeclarationChanged \<or> err_kind e = InvalidRequest)"
proof -
  obtain e w where "validate_target env pj target s = (Inl e, s\<lparr>world := w\<rparr>)"
    "err_kind e = DeclarationChanged \<or> err_kind e = InvalidRequest"
    using validate_target_stale [OF assms] by blast
  then show ?thesis by (auto simp: and_then_def)
qed

text \<open>A refused operation: an error about the target or the request, and nothing but the world moved.\<close>

definition refused :: "(('w, 's) sys_scheme, err, 'a) eff \<Rightarrow> ('w, 's) sys_scheme \<Rightarrow> bool" where
  "refused m s \<longleftrightarrow> (\<exists>e w. m s = (Inl e, s\<lparr>world := w\<rparr>)
     \<and> (err_kind e = DeclarationChanged \<or> err_kind e = InvalidRequest))"

text \<open>
  C15. An edit under an open proof is found first. When the bytes of the source are not the ones the
  target was anchored to, every operation on that target, running fragments plain or traced, goals,
  queries, replaying, closing, validating and publishing, fails with a changed declaration (or an
  invalid file), before any message to PET, any build and any write.
\<close>

theorem stale_target_refused:
  assumes "stale env target"
  shows "refused (run_fragment env pj target st fragment limit) s
    \<and> refused (run_traced env pj target st fragment trc limit) s
    \<and> refused (engine_goals env pj target st scope goal) s
    \<and> refused (query_state env pj target st q) s
    \<and> refused (replay_root env pj target) s
    \<and> refused (close_proof env pj target st) s
    \<and> refused (validate_published env pj target) s
    \<and> refused (engine_publish env pj target fragments begin_epoch) s"
  unfolding refused_def run_fragment_def run_traced_def engine_goals_def query_state_def replay_root_def
    close_proof_def validate_published_def engine_publish_def
  by (intro conjI stale_prefix [OF assms])

theorem stale_target_refused_witness:
  "stale (sample_engine_env declarations_de) sample_target
   \<and> refused (engine_publish (sample_engine_env declarations_de) sample_pj sample_target [''exact I.''] id) (sample_sys [])"
proof -
  have stale: "stale (sample_engine_env declarations_de) sample_target"
    by (simp add: stale_def sample_target_def sample_text_def)
  from stale_target_refused [OF this] stale show ?thesis by blast
qed

section \<open>Soundness of the trust audit\<close>

text \<open>An assumption that the audit may accept: an axiom whose constant lives in a source of the
  project, where PET lists it as an explicit \<open>Axiom\<close> command.\<close>

definition explicit_axiom_at ::
  "('w, 'z) engine_env_scheme \<Rightarrow> dune_project \<Rightarrow> pet_assumption \<Rightarrow> ('w, 's) sys_scheme \<Rightarrow> bool" where
  "explicit_axiom_at env pj x t \<longleftrightarrow> pa_kind x = AxiomAssumption
     \<and> (\<exists>source file rows t' r. project_source_for_constant pj (join ''.'' (pa_qualified_path x)) = Some source
        \<and> file_id_from_path (pj_root pj) source = Inr file \<and> declarations env pj file t = (Inr rows, t')
        \<and> r \<in> set rows \<and> qualified_name (rd_identity r) = join ''.'' (pa_qualified_path x) \<and> rd_explicit_axiom r)"

lemma result_map_err_Inr [simp]: "result_map_err g r = Inr x \<longleftrightarrow> r = Inr x"
  by (cases r) auto

lemma when_err_ok: "when_err b e s = (Inr u, s') \<longleftrightarrow> \<not> b \<and> s' = s"
  by (auto simp: when_err_def throw_def ret_def)

lemma audit_assumption_ok:
  assumes "audit_assumption env pj x s = (Inr (), s')"
  shows "explicit_axiom_at env pj x s"
  using assms unfolding audit_assumption_def Let_def explicit_axiom_at_def
  by (auto simp: throw_def lift_result_def when_err_ok find_Some_iff in_set_conv_nth elim!: and_thenE split: if_splits)
    blast

lemma for_each_all:
  assumes "for_each (\<lambda>x _. f x) xs () s = (Inr (), s')"
  shows "\<forall>x \<in> set xs. \<exists>t t'. f x t = (Inr (), t')"
  using assms
proof (induction xs arbitrary: s)
  case (Cons x xs)
  then obtain t where "f x s = (Inr (), t)" "for_each (\<lambda>x _. f x) xs () t = (Inr (), s')"
    by (auto elim!: and_thenE)
  with Cons.IH show ?case by (metis set_ConsD)
qed simp

lemma audit_state_ok:
  assumes "audit_state env pj target st (s :: ('w, 's) sys_scheme) = (Inr (), s')"
  shows "\<exists>report t. assumptions env st (qualified_path (identity (info target))) s = (Inr report, t)
    \<and> \<not> rewrite_rules (theory_flags report) \<and> \<not> impredicative_set (theory_flags report)
    \<and> \<not> type_in_type (theory_flags report)
    \<and> (\<forall>x \<in> set (assumptions_list report). \<exists>t. explicit_axiom_at env pj x (t :: ('w, 's) sys_scheme))"
proof -
  from assms obtain report t t' where report: "assumptions env st (qualified_path (identity (info target))) s = (Inr report, t)"
    and flags: "unsafe_theory (theory_flags report) = []"
    and each: "for_each (\<lambda>x _. audit_assumption env pj x) (assumptions_list report) () t' = (Inr (), s')"
    unfolding audit_state_def by (auto simp: when_err_ok elim!: and_thenE map_errE)
  from flags have "\<not> rewrite_rules (theory_flags report)" "\<not> impredicative_set (theory_flags report)"
    "\<not> type_in_type (theory_flags report)"
    by (auto simp: unsafe_theory_def split: if_splits)
  moreover have "\<forall>x \<in> set (assumptions_list report). \<exists>t. explicit_axiom_at env pj x (t :: ('w, 's) sys_scheme)"
    using for_each_all [OF each] audit_assumption_ok by meson
  ultimately show ?thesis using report by blast
qed

text \<open>
  C4. The trust audit is sound. When \<open>audit_state\<close> passes, PET's assumption report for the target
  names none of the unsafe theory features, and every assumption in it is an axiom whose longest
  matching source in the project declares it with an explicit \<open>Axiom\<close>: no unfinished proof, opaque or
  section constant and no disabled check passes.
\<close>

theorem audit_sound:
  assumes "audit_state env pj target st (s :: ('w, 's) sys_scheme) = (Inr (), s')"
  shows "\<exists>report t. assumptions env st (qualified_path (identity (info target))) s = (Inr report, t)
    \<and> \<not> rewrite_rules (theory_flags report) \<and> \<not> impredicative_set (theory_flags report)
    \<and> \<not> type_in_type (theory_flags report)
    \<and> (\<forall>x \<in> set (assumptions_list report). \<exists>t. explicit_axiom_at env pj x (t :: ('w, 's) sys_scheme))"
  by (rule audit_state_ok [OF assms])

definition report_json :: json where
  "report_json = JArray [JArray [JArray [JString ''axiom'', JArray (map JString [''P'', ''A'', ''ax''])]],
     JArray [JBool False, JBool False, JBool False]]"

definition audit_de :: "string \<Rightarrow> string + json" where
  "audit_de b = (if b = ''r'' then Inr (answer 1 report_json) else Inr (answer 2 rows_json))"

definition sample_report :: pet_assumption_report where
  "sample_report = \<lparr>assumptions_list = [\<lparr>pa_kind = AxiomAssumption, pa_qualified_path = [''P'', ''A'', ''ax'']\<rparr>],
     theory_flags = \<lparr>rewrite_rules = False, impredicative_set = False, type_in_type = False\<rparr>\<rparr>"

lemma de_report: "de_assumption_report report_json = Some sample_report" "validate_report sample_report = Inr sample_report"
  by (simp_all add: report_json_def sample_report_def de_assumption_report_def de_assumption_def de_theory_def
      de_assumption_kind_def de_variant_def struct_fields_def field_def de_list_def validate_report_def)

lemma sample_constant:
  "project_source_for_constant sample_pj ''P.A.ax'' = Some sample_source"
  "file_id_from_path (pj_root sample_pj) sample_source = Inr ''A.v''"
  by (simp_all add: project_source_for_constant_def sample_pj_def sample_layout_def source_for_constant_def
      sample_source_def sample_project_def file_id_from_path_def path_strip_prefix_def backslash_to_slash_def)

lemma sample_audit:
  "\<exists>s'. audit_state (sample_engine_env audit_de) sample_pj sample_target 7 (sample_sys [''r'', ''d'']) = (Inr (), s')"
proof -
  let ?env = "sample_engine_env audit_de"
  have ready: "ready 1 [''r'', ''d''] (sample_sys [''r'', ''d''])"
    by (rule sample_sys_ready) (simp add: MAX_RESPONSE_BYTES_def)
  obtain s1 where s1: "call_live ?env ''petanque/assumptions''
      (json_obj [(''st'', state_json 7), (''qualified_path'', JArray (map JString [''A'', ''t'']))])
      (sample_sys [''r'', ''d'']) = (Inr report_json, s1)" "ready 2 [''d''] s1"
    using ready_calls(2) [where de = audit_de and v = report_json, OF ready] by (fastforce simp: audit_de_def)
  obtain s2 where s2: "declarations ?env sample_pj ''A.v'' s1 = (Inr sample_resolved, s2)"
    using sample_declarations [where de = audit_de, OF s1(2)] by (fastforce simp: audit_de_def)
  have report: "assumptions ?env 7 (qualified_path (identity (info sample_target))) (sample_sys [''r'', ''d'']) = (Inr sample_report, s1)"
    using s1 by (simp add: assumptions_def and_then_def sample_target_def de_report checked_def ret_def)
  have axm: "audit_assumption ?env sample_pj \<lparr>pa_kind = AxiomAssumption, pa_qualified_path = [''P'', ''A'', ''ax'']\<rparr> s1
      = (Inr (), s2)"
    using s2
    by (simp add: audit_assumption_def and_then_def lift_result_def sample_constant sample_resolved_def qualified_name_def
        when_err_def ret_def Let_def)
  have "unsafe_theory (theory_flags sample_report) = []"
    "assumptions_list sample_report = [\<lparr>pa_kind = AxiomAssumption, pa_qualified_path = [''P'', ''A'', ''ax'']\<rparr>]"
    by (simp_all add: unsafe_theory_def sample_report_def)
  with report axm show ?thesis
    by (simp add: audit_state_def and_then_def map_err_def when_err_def ret_def)
qed

theorem audit_sound_witness:
  "\<exists>s'. audit_state (sample_engine_env audit_de) sample_pj sample_target 7 (sample_sys [''r'', ''d'']) = (Inr (), s')
    \<and> (\<exists>report t. assumptions (sample_engine_env audit_de) 7 (qualified_path (identity (info sample_target)))
          (sample_sys [''r'', ''d'']) = (Inr report, t)
        \<and> \<not> rewrite_rules (theory_flags report) \<and> \<not> impredicative_set (theory_flags report)
        \<and> \<not> type_in_type (theory_flags report))"
proof -
  obtain s' where "audit_state (sample_engine_env audit_de) sample_pj sample_target 7 (sample_sys [''r'', ''d'']) = (Inr (), s')"
    using sample_audit by blast
  from audit_sound [OF this] this show ?thesis by blast
qed

section \<open>Publication, end to end\<close>

lemma framed_project_source [frame]: "framed (project_source env pj fid)"
  unfolding project_source_def by (auto intro!: frame)

lemma framed_pet_source [frame]: "framed (pet_source env pj source)"
  unfolding pet_source_def Let_def by (auto intro!: frame)

lemma framed_read_or [frame]: "framed (read_or env p e)"
  unfolding read_or_def by (intro frame)

lemma framed_validate_target [frame]: "framed (validate_target env pj target)"
  unfolding validate_target_def by (auto intro!: frame)

lemma framed_engine_declarations [frame]: "framed (declarations env pj fid)"
  unfolding declarations_def by (intro frame)

lemma framed_resolve [frame]: "framed (resolve env pj d)"
  unfolding resolve_def by (intro frame)

lemma framed_audit_assumption [frame]: "framed (audit_assumption env pj x)"
  unfolding audit_assumption_def Let_def by (auto intro!: frame)

lemma framed_audit_state [frame]: "framed (audit_state env pj target st)"
  unfolding audit_state_def by (intro frame)

lemma framed_audit_target [frame]: "framed (audit_target env pj target)"
  unfolding audit_target_def by (auto intro!: frame split: sum.splits)

lemma framed_written_declaration [frame]: "framed (written_declaration env pj target)"
  unfolding written_declaration_def by (intro frame)

lemma framed_built_declaration [frame]: "framed (built_declaration env pj target)"
  unfolding built_declaration_def by (intro frame)

lemma throw_not_ok [simp]: "throw e s \<noteq> (Inr x, s')"
  by (simp add: throw_def)

lemma admit_value:
  assumes "admit env pj p ws d limit validate s = (Inr v, s')"
  shows "\<exists>t t'. validate t = (Inr v, t')"
  using assms unfolding admit_def audit_def
  by (auto simp: ret_def lift_result_def elim!: and_thenE attemptE)

lemma publish_value:
  assumes "publish_with_progress env pj pp limit validate s = (Inr v, s')"
  shows "\<exists>t t'. validate t = (Inr v, t')"
  using assms unfolding publish_with_progress_def Let_def
  by (auto simp: ret_def elim!: and_thenE attemptE dest!: admit_value split: if_splits sum.splits)

text \<open>What the answer of a publication stands for: a completed declaration with the identity and kind
  of the target, as PET lists it in the built source, whose trust audit passed.\<close>

definition audited_declaration ::
  "('w, 'z) engine_env_scheme \<Rightarrow> dune_project \<Rightarrow> declaration_target \<Rightarrow> proof_state \<Rightarrow> ('w, 's) sys_scheme \<Rightarrow> bool" where
  "audited_declaration env pj target v t \<longleftrightarrow>
     (\<exists>current t'. v = completed_state (info current) \<and> identity (info current) = identity (info target)
        \<and> kind (info current) = kind (info target) \<and> audit_target env pj current t = (Inr (), t'))"

lemma written_declaration_ok:
  assumes "written_declaration env pj target (s :: ('w, 's) sys_scheme) = (Inr v, s')"
  shows "\<exists>t :: ('w, 's) sys_scheme. audited_declaration env pj target v t"
  using assms unfolding written_declaration_def audited_declaration_def
  by (auto simp: when_err_ok ret_def lift_result_def elim!: and_thenE) blast

lemma audited_stateE:
  assumes "audit_target env pj current (t :: ('w, 's) sys_scheme) = (Inr (), t')"
  shows "\<exists>st u u'. audit_state env pj current st (u :: ('w, 's) sys_scheme) = (Inr (), u')"
  using assms unfolding audit_target_def
  by (auto simp: lift_result_def elim!: and_thenE attemptE split: sum.splits) blast

text \<open>What was prepared: the rendering of the bytes that the target is anchored to.\<close>

definition prepared_for ::
  "('w, 'z) fs_env_scheme \<Rightarrow> declaration_target \<Rightarrow> string list \<Rightarrow> prepared \<Rightarrow> bool" where
  "prepared_for env target fragments pp \<longleftrightarrow> pp_path pp = anchor_source (anchor target)
     \<and> digest_of env (pp_original pp) = anchor_digest (anchor target)
     \<and> replacement (pp_original pp) target fragments = Inr (pp_replacement pp)
     \<and> pp_replacement_digest pp = digest_of env (pp_replacement pp)"

lemma engine_publish_run:
  assumes silent: "\<And>t. milestones (begin_epoch t) = milestones t"
    and run: "engine_publish env pj target fragments begin_epoch (s :: ('w, 's) sys_scheme) = (r, s')"
  shows "(\<exists>e ms. r = Inl e \<and> milestones s' = milestones s @ ms \<and> replacements ms = 0)
    \<or> (\<exists>pp ms t t'. prepared_for env target fragments pp \<and> publication env pp ms r
        \<and> milestones s' = milestones s @ SourceRead (pp_path pp) (Some (pp_original pp)) # ms
        \<and> publish_with_progress env pj pp (command_timeout env) (written_declaration env pj target) (t :: ('w, 's) sys_scheme) = (r, t'))"
  using run unfolding engine_publish_def
proof (rule and_thenE)
  fix e assume "validate_target env pj target s = (Inl e, s')" "r = Inl e"
  then show ?thesis using quiet_opD [OF quiet_framed [OF framed_validate_target]] by fastforce
next
  fix u s1
  assume v: "validate_target env pj target s = (Inr u, s1)"
    and more: "and_then (progress ''prepare_writeback'' ''rendering the source transaction'') (\<lambda>_.
     and_then (prepare env pj target fragments) (\<lambda>publication.
     and_then (modify begin_epoch) (\<lambda>_.
     publish_with_progress env pj publication (command_timeout env) (written_declaration env pj target)))) s1 = (r, s')"
  from more obtain s2 where p: "progress ''prepare_writeback'' ''rendering the source transaction'' s1 = (Inr () :: err + unit, s2)"
    and rest: "and_then (prepare env pj target fragments) (\<lambda>publication.
     and_then (modify begin_epoch) (\<lambda>_.
     publish_with_progress env pj publication (command_timeout env) (written_declaration env pj target))) s2 = (r, s')"
    by (rule and_thenE) (auto dest: progress_result)
  have m2: "milestones s2 = milestones s"
    using quiet_opD [OF quiet_framed [OF framed_validate_target] v] progress_result [OF p] by simp
  show ?thesis
    using rest
  proof (rule and_thenE)
    fix e assume "prepare env pj target fragments s2 = (Inl e, s')" "r = Inl e"
    with prepare_result [of env pj target fragments s2 "Inl e" s'] m2 show ?thesis
      by (auto intro: exI [of _ "[]"] simp: replacements_def)
  next
    fix pp s3
    assume prep: "prepare env pj target fragments s2 = (Inr pp, s3)"
      and "and_then (modify begin_epoch) (\<lambda>_. publish_with_progress env pj pp (command_timeout env)
        (written_declaration env pj target)) s3 = (r, s')"
    then have pub: "publish_with_progress env pj pp (command_timeout env) (written_declaration env pj target)
        (begin_epoch s3) = (r, s')"
      by (simp add: and_then_def modify_def)
    from publish_publication [OF quiet_framed [OF framed_written_declaration] pub] silent obtain ms where
      "milestones s' = milestones s3 @ ms" "publication env pp ms r" by auto
    with prepare_result [OF prep] m2 pub show ?thesis
      by (intro disjI2 exI [of _ pp] exI [of _ ms] exI [of _ "begin_epoch s3"] exI [of _ s'])
         (auto simp: prepared_for_def)
  qed
qed

text \<open>
  C1. Publication, end to end. For a target that the engine opened, whatever files, Dune and PET do,
  and for a start of the epoch that writes nothing: a failed \<open>publish\<close> replaced nothing or is a
  failed run of the publication transaction on the rendering of exactly the bytes the target is
  anchored to; a successful one replaced those bytes by that rendering, built, refreshed and audited
  it over unchanged bytes, and answers with a completed declaration of the target's identity and kind
  whose trust audit passed.
\<close>

theorem engine_publish_end_to_end:
  assumes "\<And>t. milestones (begin_epoch t) = milestones t"
    and "engine_publish env pj target fragments begin_epoch (s :: ('w, 's) sys_scheme) = (r, s')"
  shows "case r of
      Inl e \<Rightarrow> \<exists>ms. milestones s' = milestones s @ ms
        \<and> (replacements ms = 0 \<or> (\<exists>pp ns. prepared_for env target fragments pp
            \<and> ms = SourceRead (pp_path pp) (Some (pp_original pp)) # ns
            \<and> publication env pp ns r \<and> guarded env pp None ns))
    | Inr v \<Rightarrow> \<exists>pp c adm. prepared_for env target fragments pp \<and> owned env (digest_of env (pp_original pp)) c
        \<and> admission env (pp_path pp) (pp_replacement_digest pp) adm True
        \<and> milestones s' = milestones s @ [SourceRead (pp_path pp) (Some (pp_original pp)), SourceRead (pp_path pp) c,
             SourceReplaced (pp_path pp) (pp_replacement pp)] @ adm
        \<and> (\<exists>t :: ('w, 's) sys_scheme. audited_declaration env pj target v t)"
proof (cases r)
  case (Inl e)
  from engine_publish_run [OF assms] Inl guarded_publication show ?thesis by fastforce
next
  case (Inr v)
  from engine_publish_run [OF assms] Inr obtain pp ms t t' where pp: "prepared_for env target fragments pp"
    "publication env pp ms (Inr v :: err + proof_state)"
    "milestones s' = milestones s @ SourceRead (pp_path pp) (Some (pp_original pp)) # ms"
    "publish_with_progress env pj pp (command_timeout env) (written_declaration env pj target) (t :: ('w, 's) sys_scheme) = (Inr v, t')"
    by auto
  from publish_value [OF pp(4)] written_declaration_ok have
    "\<exists>t :: ('w, 's) sys_scheme. audited_declaration env pj target v t" by blast
  with pp Inr show ?thesis by (auto elim!: publicationE)
qed

text \<open>The unfinished lemma of the concrete project, as \<open>declarations\<close> resolves it.\<close>

definition sample_live_target :: declaration_target where
  "sample_live_target = the (rd_target (sample_resolved ! 1))"

theorem engine_publish_end_to_end_witness:
  "\<exists>r s'. engine_publish (sample_engine_env audit_de) sample_pj sample_live_target ['' exact I. ''] id (sample_sys [''r'', ''d'']) = (r, s')
    \<and> (case r of
      Inl e \<Rightarrow> \<exists>ms. milestones s' = milestones (sample_sys [''r'', ''d'']) @ ms
        \<and> (replacements ms = 0 \<or> (\<exists>pp ns. prepared_for (sample_engine_env audit_de) sample_live_target ['' exact I. ''] pp
            \<and> ms = SourceRead (pp_path pp) (Some (pp_original pp)) # ns
            \<and> publication (sample_engine_env audit_de) pp ns r \<and> guarded (sample_engine_env audit_de) pp None ns))
    | Inr v \<Rightarrow> \<exists>pp c adm. prepared_for (sample_engine_env audit_de) sample_live_target ['' exact I. ''] pp
        \<and> owned (sample_engine_env audit_de) (digest_of (sample_engine_env audit_de) (pp_original pp)) c
        \<and> admission (sample_engine_env audit_de) (pp_path pp) (pp_replacement_digest pp) adm True
        \<and> milestones s' = milestones (sample_sys [''r'', ''d'']) @ [SourceRead (pp_path pp) (Some (pp_original pp)), SourceRead (pp_path pp) c,
             SourceReplaced (pp_path pp) (pp_replacement pp)] @ adm
        \<and> (\<exists>t :: unit sys. audited_declaration (sample_engine_env audit_de) sample_pj sample_live_target v t))"
proof -
  obtain r s' where run: "engine_publish (sample_engine_env audit_de) sample_pj sample_live_target ['' exact I. ''] id
      (sample_sys [''r'', ''d'']) = (r, s')" by fastforce
  have silent: "milestones (id u) = milestones u" for u :: "unit sys" by simp
  from run engine_publish_end_to_end [OF silent run] show ?thesis by (intro exI conjI)
qed

section \<open>Open proofs\<close>










end
