(* ===== verification/Engine_Frame.thy ===== *)
theory Engine_Frame
  imports Engine_Safety
begin

text \<open>
  What the engine does to the state of its client. \<open>obeys R m\<close> says that every run of \<open>m\<close> is a
  step of the preorder \<open>R\<close>, whatever its result; the rules of the locale \<open>step_relation\<close> build it
  along the combinators for any such \<open>R\<close>. Two preorders are used below: \<open>kept\<close>, the state of the
  client is the same, and \<open>harmless\<close>, in addition no source was replaced. Publication is the only
  operation of the engine that is not harmless; its only step on the client's state is the callback.
\<close>

section \<open>Steps of a preorder\<close>

definition obeys :: "('s \<Rightarrow> 's \<Rightarrow> bool) \<Rightarrow> ('s, 'e, 'a) eff \<Rightarrow> bool" where
  "obeys R m \<longleftrightarrow> (\<forall>s. R s (snd (m s)))"

lemma obeysI: "(\<And>s r t. m s = (r, t) \<Longrightarrow> R s t) \<Longrightarrow> obeys R m"
  unfolding obeys_def by (metis prod.collapse)

lemma obeysD: "obeys R m \<Longrightarrow> m s = (r, t) \<Longrightarrow> R s t"
  unfolding obeys_def by (metis snd_conv)

lemma obeys_weaken: "obeys R m \<Longrightarrow> (\<And>s t. R s t \<Longrightarrow> S s t) \<Longrightarrow> obeys S m"
  by (simp add: obeys_def)

locale step_relation =
  fixes R :: "'s \<Rightarrow> 's \<Rightarrow> bool"
  assumes refl: "R s s" and trans: "R s t \<Longrightarrow> R t u \<Longrightarrow> R s u"
begin

lemma same: "(\<And>s. snd (m s) = s) \<Longrightarrow> obeys R m"
  by (simp add: obeys_def refl)

lemma basic: "obeys R (ret x)" "obeys R (throw e)" "obeys R (lift_result r)" "obeys R (gets f)"
  "obeys R (when_err b e)"
  by (rule same; simp add: ret_def throw_def lift_result_def gets_def when_err_def)+

lemma chain: "obeys R m \<Longrightarrow> (\<And>x. obeys R (f x)) \<Longrightarrow> obeys R (and_then m f)"
  unfolding obeys_def and_then_def by (auto split: prod.splits sum.splits) (metis snd_conv trans)+

lemma attempted: "obeys R m \<Longrightarrow> obeys R (attempt m)"
  unfolding obeys_def attempt_def by (auto split: prod.splits) (metis snd_conv)

lemma mapped: "obeys R m \<Longrightarrow> obeys R (map_err g m)"
  unfolding obeys_def map_err_def by (auto split: prod.splits sum.splits) (metis snd_conv)+

lemma each: "(\<And>x b. obeys R (f x b)) \<Longrightarrow> obeys R (for_each f xs b)"
  by (induction xs arbitrary: b) (auto intro: basic chain)

lemma modified: "(\<And>s. R s (f s)) \<Longrightarrow> obeys R (modify f)"
  by (simp add: obeys_def modify_def)

lemmas rules = basic chain attempted mapped each

end

section \<open>Harmless operations\<close>

definition kept :: "('w, 's) sys_scheme \<Rightarrow> ('w, 's) sys_scheme \<Rightarrow> bool" where
  "kept s t \<longleftrightarrow> sys.more t = sys.more s"

definition is_write :: "sys_event \<Rightarrow> bool" where
  "is_write ev \<longleftrightarrow> (case ev of SourceReplaced _ _ \<Rightarrow> True | _ \<Rightarrow> False)"

text \<open>The replacements of sources so far.\<close>

definition source_writes :: "('w, 's) sys_scheme \<Rightarrow> sys_event list" where
  "source_writes s = filter is_write (log s)"

definition harmless :: "('w, 's) sys_scheme \<Rightarrow> ('w, 's) sys_scheme \<Rightarrow> bool" where
  "harmless s t \<longleftrightarrow> kept s t \<and> source_writes t = source_writes s"

lemma is_write_simps [simp]:
  "\<not> is_write (DuneAttempt a p r)" "\<not> is_write DuneKilled" "\<not> is_write (Phase y z)" "\<not> is_write (SourceRead p c)"
  "\<not> is_write (Built p b)" "\<not> is_write (Refreshed f)" "\<not> is_write (Audited x)" "is_write (SourceReplaced p t)"
  by (simp_all add: is_write_def)

interpretation kept: step_relation kept
  by unfold_locales (simp_all add: kept_def)

interpretation harmless: step_relation harmless
  by unfold_locales (simp_all add: harmless_def kept_def)

named_theorems calmness

lemmas [calmness] = harmless.rules
lemmas [calmness] = kept.rules

lemma actor_more_sys:
  "actor.more t = actor.more s \<Longrightarrow> sys.more t = sys.more s \<and> log t = log s" for s t :: "('w, 's) sys_scheme"
  by (cases s; cases t) simp

lemma calm_framed:
  fixes m :: "(('w, 's) sys_scheme, 'e, 'a) eff"
  assumes "framed m" shows "obeys harmless m"
  by (rule obeysI) (use assms in \<open>auto simp: harmless_def kept_def source_writes_def dest!: framedD actor_more_sys\<close>)

lemma calm_emit: "\<not> is_write ev \<Longrightarrow> obeys harmless (emit ev)"
  by (simp add: obeys_def emit_def modify_def harmless_def kept_def source_writes_def)

lemma calm_events [calmness]:
  "obeys harmless (emit (DuneAttempt a p r))" "obeys harmless (emit DuneKilled)" "obeys harmless (emit (Phase x y))"
  "obeys harmless (emit (SourceRead p c))" "obeys harmless (emit (Built p b))" "obeys harmless (emit (Refreshed f))"
  "obeys harmless (emit (Audited z))" "obeys harmless (progress x y)"
  by (simp_all add: calm_emit progress_def)

lemma kept_emit [calmness]: "obeys kept (emit ev)"
  by (simp add: obeys_def emit_def modify_def kept_def)

lemma calm_kept: "obeys harmless m \<Longrightarrow> obeys kept m"
  by (erule obeys_weaken) (auto simp: harmless_def)

lemma calm_external [calmness]: "obeys harmless (external g)" "obeys harmless (observe_signal env)"
  "obeys kept (external g)" "obeys kept (observe_signal env)"
  by (rule calm_framed calm_kept; intro calm_framed frame | intro frame)+

lemma calm_deadline [calmness]: "obeys harmless (deadline_passed env d)"
  by (cases d) (auto simp: deadline_passed_def intro!: calmness)

lemma calm_wait_polls [calmness]: "obeys harmless (wait_polls env child d ps)"
proof (induction ps)
  case (Cons p ps)
  then show ?case
    by (auto simp: killed_wait_def intro!: calmness split: sum.splits option.splits)
qed (auto intro!: calmness)

lemma calm_run_dune_once [calmness]: "obeys harmless (run_dune_once env args cwd d)"
  unfolding run_dune_once_def wait_for_dune_def terminate_child_group_def
  by (auto intro!: calmness split: sum.splits option.splits)

lemma calm_dune_loop [calmness]: "obeys harmless (dune_loop env args cwd d retried)"
proof (induction "if retried then 0 else 1 :: nat" arbitrary: retried rule: less_induct)
  case less
  then show ?case
    by (subst dune_loop.simps) (auto simp: logged_attempt_def intro!: calmness)
qed

lemma calm_run_dune [calmness]: "obeys harmless (run_dune env args cwd limit build_dir)"
  unfolding run_dune_def by (cases limit) (auto intro!: calmness)

section \<open>Layouts and projects\<close>

lemma calm_canonical_or [calmness]: "obeys harmless (canonical_or env p m)"
  unfolding canonical_or_def by (intro calmness)

lemma calm_load_path_entry [calmness]: "obeys harmless (load_path_entry env a w i entry out)"
  unfolding load_path_entry_def Let_def by (auto intro!: calmness split: prod.splits option.splits)

lemma calm_dune_rule [calmness]: "obeys harmless (dune_rule env workspace build_root rule acc)"
  unfolding dune_rule_def dune_load_paths_def by (auto intro!: calmness split: prod.splits)

lemma calm_dune_rules [calmness]: "obeys harmless (dune_rules env workspace build_root tokens acc)"
proof (induction env workspace build_root tokens acc rule: dune_rules.induct)
  case (1 env workspace build_root tokens acc)
  show ?case
    by (subst dune_rules.simps) (auto intro!: calmness 1 split: option.splits)
qed

lemma calm_describe [calmness]: "obeys harmless (describe_tokens env workspace args build_dir limit msg)"
  unfolding describe_tokens_def dune_describe_def by (auto intro!: calmness)

lemma calm_dune_workspace [calmness]: "obeys harmless (dune_workspace env requested build_dir limit)"
  unfolding dune_workspace_def by (intro calmness)

lemma calm_dune_sources [calmness]: "obeys harmless (dune_sources env requested limit)"
  unfolding dune_sources_def remaining_def Let_def
  by (auto intro!: calmness split: option.splits)

lemma calm_layout_load [calmness]: "obeys harmless (layout_load env requested limit)"
  unfolding layout_load_def add_mapping_def add_source_def Let_def
  by (auto intro!: calmness split: prod.splits)

lemma calm_io [calmness]: "obeys harmless (io f)" "obeys harmless (io_value g)"
  unfolding io_def io_value_def by (intro calmness)+

lemma calm_visit [calmness]: "obeys harmless (visit fuel env root directory entries)"
  by (induction fuel arbitrary: directory entries)
    (auto simp: probe_file_def Let_def intro!: calmness split: option.splits file_kind.splits)

lemma calm_layout_probe [calmness]: "obeys harmless (layout_probe env root)"
  unfolding layout_probe_def by (intro calmness)

lemma calm_attach [calmness]: "obeys harmless (attach env requested)"
  unfolding attach_def by (auto intro!: calmness split: prod.splits)

lemma calm_refresh_project [calmness]: "obeys harmless (refresh_project env pj)"
  unfolding refresh_project_def by (auto intro!: calmness split: prod.splits)

lemma calm_project_source [calmness]: "obeys harmless (project_source env pj file)"
  by (intro calm_framed frame)

lemma calm_artifact_fingerprint [calmness]: "obeys harmless (artifact_fingerprint env pj file)"
  unfolding artifact_fingerprint_def digest_if_present_def read_or_def
  by (auto intro!: calmness split: sum.splits)

lemma calm_native_build [calmness]: "obeys harmless (native_build env pj source limit)"
  unfolding native_build_def native_build_result_def by (auto intro!: calmness)

lemma calm_reconcile_source [calmness]: "obeys harmless (reconcile_source env pj file)"
  unfolding reconcile_source_def by (intro calmness)

section \<open>Engine operations\<close>

lemma calm_pet [calmness]:
  "obeys harmless (release_states env states)" "obeys harmless take_process" "obeys harmless restart"
  "obeys harmless (state_at env ws source offset)" "obeys harmless (pet_run env st fragment)"
  "obeys harmless (run_with_timeout env st fragment limit)" "obeys harmless (run_traced_with_timeout env st fragment b limit)"
  "obeys harmless (goals_of env st)" "obeys harmless (run_query env st q)" "obeys harmless (insertion_point env ws source modules)"
  "obeys harmless (refresh_workspace env ws)"
  unfolding restart_def by (intro calm_framed frame)+

lemma calm_lookup [calmness]:
  "obeys harmless (pet_source env pj source)" "obeys harmless (read_or env p e)" "obeys harmless (validate_target env pj target)"
  "obeys harmless (declarations env pj file)" "obeys harmless (resolve env pj d)" "obeys harmless (audit_target env pj target)"
  "obeys harmless (written_declaration env pj target)" "obeys harmless (built_declaration env pj target)"
  by (intro calm_framed frame)+

lemma calm_list_decls [calmness]: "obeys harmless (list_decls env pj file)"
  unfolding list_decls_def by (intro calmness)

lemma calm_glob_matches [calmness]: "obeys harmless (glob_matches env source glob symbol)"
  unfolding glob_matches_def by (auto intro!: calmness split: option.splits)

lemma calm_candidates [calmness]: "obeys harmless (locate_symbol_candidates env pj symbol)"
  unfolding locate_symbol_candidates_def candidate_file_def Let_def
  by (auto intro!: calmness split: option.splits sum.splits)

lemma calm_resolve_files [calmness]: "obeys harmless (resolve_files env pj symbol limit files acc)"
  by (induction files arbitrary: acc) (auto simp: Let_def intro!: calmness)

lemma calm_resolve_candidates [calmness]: "obeys harmless (resolve_symbol_candidates env pj symbol limit files)"
  unfolding resolve_symbol_candidates_def Let_def by (auto intro!: calmness)

lemma calm_locate_symbols [calmness]: "obeys harmless (locate_symbols env pj symbol limit)"
  unfolding locate_symbols_def by (intro calmness)

lemma calm_finish_open [calmness]: "obeys harmless (finish_open env target x)" "obeys harmless (finish_step env target x)"
  unfolding finish_open_def finish_step_def by (auto intro!: calmness split: sum.splits)

lemma calm_open_target [calmness]: "obeys harmless (open_target env pj target)"
  unfolding open_target_def by (intro calmness)

lemma calm_open_declaration [calmness]: "obeys harmless (open_declaration env pj d)"
  unfolding open_declaration_def by (auto intro!: calmness)

lemma calm_release_after [calmness]: "obeys harmless (release_after env st r)"
  unfolding release_after_def by (intro calmness)

lemma calm_declare [calmness]: "obeys harmless (declare_proof env pj k file name t)"
  unfolding declare_proof_def declare_at_def enrich_declaration_error_def Let_def
  by (auto intro!: calmness split: sum.splits option.splits)

lemma calm_replay_root [calmness]: "obeys harmless (replay_root env pj target)"
  unfolding replay_root_def by (auto intro!: calmness split: option.splits)

lemma calm_run_fragment [calmness]: "obeys harmless (run_fragment env pj target st fragment limit)"
  unfolding run_fragment_def by (intro calmness)

lemma calm_run_traced [calmness]: "obeys harmless (run_traced env pj target st fragment b limit)"
  unfolding run_traced_def checked_trace_success_def
  by (auto intro!: calmness split: pet_trace_outcome.splits)

lemma calm_engine_goals [calmness]: "obeys harmless (engine_goals env pj target st scope goal)"
  unfolding engine_goals_def by (auto intro!: calmness)

lemma calm_queries [calmness]: "obeys harmless (query_state env pj target st q)" "obeys harmless (query_at env pj d q)"
  unfolding query_state_def query_at_def by (intro calmness)+

lemma calm_close_proof [calmness]: "obeys harmless (close_proof env pj target st)"
  unfolding close_proof_def by (auto intro!: calmness)

lemma calm_audit [calmness]: "obeys harmless v \<Longrightarrow> obeys harmless (audit v)"
  unfolding audit_def by (intro calmness)

lemma calm_refresh_actor [calmness]: "obeys harmless (refresh_actor env ws)"
  unfolding refresh_actor_def by (intro calmness)

lemma calm_validate_published [calmness]: "obeys harmless (validate_published env pj target)"
  unfolding validate_published_def build_and_refresh_def by (auto intro!: calmness split: sum.splits)

text \<open>What the client of the engine calls.\<close>

lemmas engine_calm = calm_external(1,2) calm_attach calm_refresh_project calm_artifact_fingerprint calm_reconcile_source
  calm_pet calm_lookup calm_list_decls calm_candidates calm_resolve_candidates calm_open_declaration calm_declare
  calm_replay_root calm_run_fragment calm_run_traced calm_engine_goals calm_queries calm_close_proof
  calm_validate_published

section \<open>Publication\<close>

lemma calm_read_source [calmness]: "obeys harmless (read_source env p)" "obeys harmless (require_digest env p d)"
  unfolding read_source_def require_digest_def by (auto intro!: calmness)

lemma calm_prepare [calmness]: "obeys harmless (prepare env pj target fragments)"
  unfolding prepare_def Let_def by (intro calmness)

lemma kept_atomic_write [calmness]: "obeys kept (atomic_write env p bytes)"
  unfolding atomic_write_def by (intro calmness calm_kept [OF calm_io(1)] calm_kept [OF calm_io(2)])

lemma kept_restore [calmness]: "obeys kept (restore_epoch env pj p ws original d limit)"
proof -
  have "obeys kept (rebuild_selected env pj p ws limit restored)" for restored
    unfolding rebuild_selected_def by (rule calm_kept) (auto intro!: calmness split: sum.splits prod.splits)
  then show ?thesis
    unfolding restore_epoch_def
    by (auto intro!: calmness calm_kept [OF calm_read_source(1)] split: option.splits)
qed

lemma kept_publish_with_progress:
  assumes "obeys harmless v" shows "obeys kept (publish_with_progress env pj pp limit v)"
proof -
  have "obeys kept (admit env pj p ws d limit v)" for p ws d
    unfolding admit_def by (rule calm_kept) (intro calmness assms)
  then show ?thesis
    unfolding publish_with_progress_def Let_def
    by (auto intro!: calmness calm_kept [OF calm_read_source(1)] calm_kept [OF calm_events(8)]
        split: option.splits sum.splits)
qed

text \<open>A preorder that the client's state determines, and that the callback obeys, is respected by
  the whole publication.\<close>

lemma publish_obeys:
  assumes "step_relation R" and calm_R: "\<And>s t. kept s t \<Longrightarrow> R s t" and callback: "\<And>s. R s (begin_epoch s)"
  shows "obeys R (engine_publish env pj target fragments begin_epoch)"
proof -
  note rules = step_relation.rules [OF assms(1)] and modified = step_relation.modified [OF assms(1)]
  show ?thesis
    unfolding engine_publish_def
    by (intro rules modified callback obeys_weaken [OF kept_publish_with_progress calm_R]
        obeys_weaken [OF calm_kept calm_R] calm_lookup calm_prepare calm_events)
qed

end
