(* ===== verification/Adapter_Safety.thy ===== *)
theory Adapter_Safety
  imports Adapter_Tools Engine_Frame
begin

text \<open>
  What the operations of a connection do to the server. Each contract is a locale on a preorder of
  server states: \<open>observing\<close> covers engine calls and progress, \<open>reading\<close> collects the steps that reading tools make, \<open>proving\<close> those of the tools
  that move the proof of the connection, \<open>serving\<close> those of a whole request. The tools are shown to
  make only such steps once, inside the locales; the interpretations give the properties: proofs are
  preserved by reading tools, siblings are touched only all together and only by forgetting handles,
  and the server's invariant holds.
\<close>

section \<open>Steps on the server's fields\<close>

definition own_book :: "('w, 's) server_scheme \<Rightarrow> checkpoint_book" where
  "own_book s = sel_book (srv_own s)"

lemma kept_fields:
  fixes s t :: "('w, 's) server_scheme"
  assumes "kept s t"
  shows "srv_project t = srv_project s" "srv_artifacts t = srv_artifacts s" "srv_parked t = srv_parked s"
    "srv_own t = srv_own s" "srv_siblings t = srv_siblings s" "srv_progress t = srv_progress s"
  using assms by (cases s; cases t; simp add: kept_def)+

lemma harmless_kept: "harmless s t \<Longrightarrow> kept s t"
  by (simp add: harmless_def)

locale observing = step_relation R
  for R :: "('w, 's) server_scheme \<Rightarrow> ('w, 's) server_scheme \<Rightarrow> bool" +
  assumes engine: "harmless s t \<Longrightarrow> R s t"
    and progressed: "R s (s\<lparr>srv_progress := update_current_progress ph c n l (srv_progress s)\<rparr>)"
    and targeted: "R s (s\<lparr>srv_progress := set_progress_target j (srv_progress s)\<rparr>)"
begin

lemma calm_op: "obeys harmless m \<Longrightarrow> obeys R m"
  by (erule obeys_weaken) (rule engine)

lemmas engine_rules = engine_calm [THEN calm_op]

lemma lookups:
  "obeys R the_project" "obeys R the_book" "obeys R (artifact f)" "obeys R (progress_now ph c n l)"
  "obeys R (progress_target target)" "obeys R (checkpoint_result cr)" "obeys R the_proof"
  unfolding the_project_def the_book_def artifact_def progress_now_def progress_target_def checkpoint_result_def the_proof_def
  by (intro rules modified progressed targeted)+

lemma cancellation: "obeys R (reject_cancelled env)" "obeys R (commit_or_cancelled env)" "obeys R (release env states)"
proof -
  show "obeys R (reject_cancelled env)"
    unfolding reject_cancelled_def by (intro rules engine_rules)
  show "obeys R (release env states)"
    unfolding release_def by (intro rules engine_rules)
  have "obeys harmless (\<lambda>s :: ('w, 's) server_scheme. case commit_request (signal s) of (r, c) \<Rightarrow>
       (if r = Some True then Inr () else Inl cancelled_error, s\<lparr>signal := c\<rparr>))"
    by (rule obeysI) (auto simp: harmless_def kept_def source_writes_def split: prod.splits)
  then show "obeys R (commit_or_cancelled env)"
    unfolding commit_or_cancelled_def by (intro rules engine_rules calm_op)
qed

lemmas view_rules = rules lookups cancellation

lemma replay_first: "obeys R (replay_first env target root n)"
  unfolding replay_first_def by (auto intro!: view_rules engine_rules split: prod.splits)

lemma replay_rest: "obeys R (replay_rest env target n records c state staged)"
proof (induction records arbitrary: c state staged)
  case (Cons ic records)
  then show ?case
    by (cases ic) (auto simp: Let_def release_staged_def intro!: view_rules engine_rules split: sum.splits prod.splits)
qed (simp add: rules)

end

locale reading = observing R
  for R :: "('w, 's) server_scheme \<Rightarrow> ('w, 's) server_scheme \<Rightarrow> bool" +
  assumes forget: "R s (invalidate_project_states s)"
    and artifacts: "R s (s\<lparr>srv_artifacts := m\<rparr>)"
    and restored: "install_all staged (own_book s) = (r, b) \<Longrightarrow> R s (set_book b s)"
begin

lemma small_steps:
  "obeys R (record_artifact f fp)" "obeys R (forget_artifact f)" "obeys R clear_artifacts" "obeys R invalidate_all"
  unfolding record_artifact_def forget_artifact_def clear_artifacts_def invalidate_all_def
  by (intro modified artifacts forget)+

lemma end_epoch: "obeys R end_epoch"
  unfolding end_epoch_def by (intro rules small_steps engine_rules)

lemmas step_rules = view_rules small_steps end_epoch

lemma reconcile: "obeys R (reconcile_artifacts env files)" "obeys R (reconcile_artifact env f)"
proof -
  have "obeys R (reconcile_file env n ixf b)" for n ixf b
    unfolding reconcile_file_def Let_def
    by (auto intro!: step_rules engine_rules split: prod.splits sum.splits)
  then show all: "obeys R (reconcile_artifacts env files)" for files
    unfolding reconcile_artifacts_def Let_def by (auto intro!: step_rules)
  show "obeys R (reconcile_artifact env f)"
    unfolding reconcile_artifact_def by (rule all)
qed

lemma install: "obeys R (with_book (install_all staged))"
  by (rule obeysI) (auto simp: with_book_def own_book_def [symmetric] intro: restored split: prod.splits)

lemma replay: "obeys R (replay_checkpoint env i)"
  unfolding replay_checkpoint_def Let_def
  by (auto intro!: step_rules replay_first replay_rest install split: option.splits prod.splits)

lemma ensure: "obeys R (ensure_current_state env)"
  unfolding ensure_current_state_def by (auto intro!: step_rules replay split: option.splits prod.splits)

lemma open_step: "obeys R (open_step env)"
  unfolding open_step_def Let_def
  by (auto intro!: step_rules reconcile ensure engine_rules split: prod.splits)

lemma listing: "obeys R (tool_list_files args)" "obeys R (tool_list_decls env args)"
  unfolding tool_list_files_def tool_list_decls_def Let_def
  by (auto intro!: step_rules reconcile engine_rules)

lemma try_alternatives: "obeys R (try_alternatives env opt target base n i frags out)"
  by (induction frags arbitrary: i out)
    (auto intro!: step_rules ensure engine_rules split: prod.splits sum.splits traced_proof_step.splits)

lemma trying: "obeys R (tool_try env args)"
  unfolding tool_try_def Let_def by (auto intro!: step_rules open_step try_alternatives split: prod.splits)

lemma querying: "obeys R (tool_query env args)"
proof -
  have selected: "obeys R (query_selected env q)" for q
    unfolding query_selected_def by (auto intro!: step_rules ensure engine_rules split: prod.splits)
  have "obeys R (query_locate env args)"
    unfolding query_locate_def Let_def by (intro step_rules reconcile engine_rules)
  moreover have "obeys R (query_goals env args)"
    unfolding query_goals_def Let_def by (auto intro!: step_rules reconcile ensure engine_rules split: prod.splits)
  moreover have "obeys R (query_about env k args)" for k
    unfolding query_about_def Let_def by (auto intro!: step_rules reconcile selected engine_rules)
  moreover have "obeys R (query_context env k args)" for k
    unfolding query_context_def
    by (auto intro!: step_rules reconcile selected engine_rules split: option.splits)
  ultimately show ?thesis
    unfolding tool_query_def by (auto intro!: step_rules)
qed

lemma closing: "obeys R m \<Longrightarrow> obeys R (close_epoch m)"
  unfolding close_epoch_def by (auto intro!: step_rules engine_rules split: sum.splits)

lemma remembering: "obeys R (remember_artifact env f)"
  unfolding remember_artifact_def by (auto intro!: step_rules engine_rules split: sum.splits)

lemma phases_applied: "R s (s\<lparr>srv_progress := fold (apply_phase f n) evs (srv_progress s)\<rparr>)"
proof (induction evs arbitrary: s)
  case Nil
  show ?case by (cases s) (simp add: refl)
next
  case (Cons ev evs)
  have "R s (s\<lparr>srv_progress := apply_phase f n ev (srv_progress s)\<rparr>)"
    by (cases ev) (simp_all add: progressed, (cases s, simp add: refl)+)
  from trans [OF this Cons.IH] show ?case by simp
qed

lemma with_phases: "obeys R m \<Longrightarrow> obeys R (with_phases f n m)"
  unfolding with_phases_def by (intro rules modified phases_applied)

end

section \<open>Tools that move the proof\<close>

locale settling = reading R
  for R :: "('w, 's) server_scheme \<Rightarrow> ('w, 's) server_scheme \<Rightarrow> bool" +
  assumes publication: "kept s t \<Longrightarrow> R s t"
    and cleared: "book_clear (own_book s) = (r, b) \<Longrightarrow> R s (set_book b s)"
begin

lemma clearing: "obeys R clear_book"
  unfolding clear_book_def
  by (rule obeysI) (auto simp: with_book_def own_book_def [symmetric] intro: cleared split: prod.splits)

lemma retiring: "obeys R (retire_proof env)"
  unfolding retire_proof_def by (auto intro!: step_rules engine_rules clearing split: sum.splits)

lemma validating: "obeys R (validate_now env target)"
  unfolding validate_now_def by (intro step_rules engine_rules with_phases remembering)

lemma publishing: "obeys R (publish_checked env opt target base n i rejected v off c)"
proof -
  have "obeys R (engine_publish env pj target path invalidate_project_states)" for pj path
    using step_relation_axioms publication forget by (rule publish_obeys)
  then show ?thesis
    unfolding publish_checked_def Let_def
    by (auto intro!: step_rules with_phases remembering clearing split: sum.splits option.splits)
qed

end

locale proving = settling R
  for R :: "('w, 's) server_scheme \<Rightarrow> ('w, 's) server_scheme \<Rightarrow> bool" +
  assumes begun: "book_begin target st fin v n (own_book s) = (r1, b) \<Longrightarrow> R s (set_book b s)"
    and committed: "book_commit st input fin v n (own_book s) = (r2, b) \<Longrightarrow> R s (set_book b s)"
    and selected: "book_select i (own_book s) = (r3, b) \<Longrightarrow> R s (set_book b s)"
begin

lemma book_steps:
  "obeys R (with_book (book_begin target st fin v n))" "obeys R (with_book (book_commit st input fin v n))"
  "obeys R (with_book (book_select i))"
  by (rule obeysI; auto simp: with_book_def own_book_def [symmetric] intro: begun committed selected split: prod.splits)+

lemma beginning: "obeys R (begin_proof env opened)"
  unfolding begin_proof_def by (auto intro!: step_rules book_steps split: prod.splits sum.splits)

lemma rejecting: "obeys R (reject_active_proof operation)"
  unfolding reject_active_proof_def by (intro step_rules)

lemma opening_tools: "obeys R (tool_prove env args)" "obeys R (tool_declare env args)" "obeys R (tool_abandon env args)"
  unfolding tool_prove_def tool_declare_def tool_abandon_def Let_def
  by (auto intro!: step_rules engine_rules reconcile rejecting validating beginning retiring split: open_result.splits)

lemma accepting: "obeys R (accept_step env opt target base n i fragment rejected step)"
  unfolding accept_step_def Let_def
  by (auto intro!: step_rules engine_rules book_steps publishing split: prod.splits sum.splits option.splits)

lemma check_alternatives: "obeys R (check_alternatives env opt target base n i frags rejected)"
  by (induction frags arbitrary: i rejected)
    (auto intro!: step_rules ensure engine_rules accepting split: prod.splits sum.splits traced_proof_step.splits)

lemma check_tool: "obeys R (tool_check env args)"
  unfolding tool_check_def Let_def
  by (auto intro!: step_rules open_step check_alternatives split: prod.splits sum.splits)

lemma rewinding: "obeys R (tool_rewind env args)"
  unfolding tool_rewind_def Let_def by (auto intro!: step_rules engine_rules reconcile replay book_steps)

lemma tools: "obeys R (dispatch_attached env name args)"
  unfolding dispatch_attached_def
  by (auto intro!: step_rules listing opening_tools check_tool trying rewinding querying)

end

section \<open>Requests\<close>

lemma refresh_project_root:
  assumes "refresh_project env pj s = (Inr (changed, pj'), s')" shows "project_id pj' = project_id pj"
  using assms unfolding refresh_project_def replace_layout_def project_id_def
  by (auto simp: ret_def throw_def elim!: and_thenE split: if_splits prod.splits)

locale requesting = reading R
  for R :: "('w, 's) server_scheme \<Rightarrow> ('w, 's) server_scheme \<Rightarrow> bool" +
  assumes layout: "project_id pj = loaded_key s \<Longrightarrow> R s (s\<lparr>srv_project := pj\<rparr>)"
    and entering: "R s (enter k s)"
begin

lemma refreshing: "obeys R (refresh_locked env)"
proof (rule obeysI)
  fix s t :: "('w, 's) server_scheme" and r
  assume "refresh_locked env s = (r, t)"
  then obtain r1 s1 where run: "refresh_project env (srv_project s) s = (r1, s1)"
    and t: "case r1 of Inl e \<Rightarrow> t = s1 | Inr (changed, pj) \<Rightarrow> t = s1\<lparr>srv_project := pj\<rparr>"
    unfolding refresh_locked_def
    by (auto simp: and_then_def the_project_def gets_def modify_def ret_def split: prod.splits sum.splits)
  have h: "harmless s s1" by (rule obeysD [OF calm_refresh_project run])
  then have lk: "loaded_key s1 = loaded_key s" using kept_fields(1) [OF harmless_kept [OF h]] by (simp add: loaded_key_def)
  show "R s t"
  proof (cases r1)
    case (Inl e)
    with t engine [OF h] show ?thesis by simp
  next
    case (Inr x)
    then obtain changed pj where x: "r1 = Inr (changed, pj)" by (cases x) auto
    with run have "project_id pj = loaded_key s1" using refresh_project_root lk by (auto simp: loaded_key_def)
    with t x layout [of pj s1] trans [OF engine [OF h]] show ?thesis by simp
  qed
qed

lemma epochs: "obeys R layout_epoch"
  unfolding layout_epoch_def by (intro step_rules)

lemma attached_request:
  assumes "obeys R m"
  shows "obeys R (in_request env k m)"
  unfolding in_request_def
  by (auto intro!: step_rules modified entering refreshing epochs closing assms)

end

locale serving = proving R + requesting R
  for R :: "('w, 's) server_scheme \<Rightarrow> ('w, 's) server_scheme \<Rightarrow> bool" +
  fixes key :: path
  assumes attaching: "R s (s\<lparr>srv_own := (srv_own s)\<lparr>sel_project := Some key\<rparr>\<rparr>)"
    and detaching: "R s (s\<lparr>srv_own := (srv_own s)\<lparr>sel_project := None\<rparr>\<rparr>)"
begin

lemma leaving: "obeys R drop_runtime"
proof -
  have "obeys R (and_then restart (\<lambda>_. modify (\<lambda>s. s\<lparr>srv_artifacts := []\<rparr>)))"
    by (intro step_rules engine_rules modified artifacts)
  then show ?thesis
    unfolding drop_runtime_def by (auto simp: obeys_def refl)
qed

lemma retire_previous: "obeys R (retire_previous env k)"
  unfolding retire_previous_def by (auto intro!: step_rules modified entering retiring)

lemma start_view: "obeys R (install_start_view env key)"
  unfolding install_start_view_def by (auto intro!: step_rules refreshing modified attaching epochs)

lemma started: "obeys R (start_found env key)"
  unfolding start_found_def
  by (auto intro!: step_rules modified entering detaching retire_previous start_view leaving split: option.splits)

end

text \<open>A preorder that does not care which project the connection selects.\<close>

locale connecting = proving R + requesting R
  for R :: "('w, 's) server_scheme \<Rightarrow> ('w, 's) server_scheme \<Rightarrow> bool" +
  assumes choosing: "R s (s\<lparr>srv_own := (srv_own s)\<lparr>sel_project := p\<rparr>\<rparr>)"
    and finding: "R s (project_runtime pj s)"

sublocale connecting \<subseteq> serving R key for key
  by unfold_locales (rule choosing)+

context connecting
begin

lemma dispatching: "obeys R (dispatch env name args)"
  unfolding dispatch_def start_project_def start_with_def
  by (auto intro!: step_rules engine_rules attached_request tools started modified finding)

end

end
