(* ===== verification/Adapter_Properties.thy ===== *)
theory Adapter_Properties
  imports Adapter_Safety
begin

text \<open>
  The properties of the adapter: the interpretations of the contracts of \<open>Adapter_Safety\<close> on the
  preorders that say what a request may do to the proofs of its own connection, to the other
  connections, and to the invariant of the server; the epoch boundary; the restoration of a path.
\<close>

section \<open>Proofs that only lose or regain handles\<close>

definition shape :: "checkpoint \<Rightarrow> checkpoint_id option \<times> string option \<times> bool" where
  "shape c = (parent c, accepted_input c, finished c)"

text \<open>The same proof: what replaying reads of it. Handles, views and continuations may differ.\<close>

definition same_proofs :: "checkpoint_book \<Rightarrow> checkpoint_book \<Rightarrow> bool" where
  "same_proofs b b' \<longleftrightarrow> book_next b' = book_next b
     \<and> map_option (\<lambda>p. (ses_target p, current p)) (active_proof b') = map_option (\<lambda>p. (ses_target p, current p)) (active_proof b)
     \<and> (\<forall>i. map_sum id shape (book_lookup b' i) = map_sum id shape (book_lookup b i))"

lemma same_proofs_refl [simp]: "same_proofs b b"
  by (simp add: same_proofs_def)

lemma same_proofs_trans: "same_proofs b c \<Longrightarrow> same_proofs c d \<Longrightarrow> same_proofs b d"
  by (simp add: same_proofs_def)

lemma same_proofs_invalidate: "same_proofs b (invalidate_states b)"
  by (auto simp: same_proofs_def invalidate_states_def book_lookup_def bt.get_update_all ok_or_def shape_def
      split: option.splits)

lemma install_staged_same:
  assumes "install_staged staged p acc = (r, p')" "session_wf n p"
  shows "session_wf n p' \<and> ses_target p' = ses_target p \<and> current p' = current p
    \<and> (\<forall>i. map_option shape (bt_get (checkpoints p') i) = map_option shape (bt_get (checkpoints p) i))"
  using assms
proof (induction staged arbitrary: p acc)
  case (Cons x staged)
  obtain i st v g where x: "x = (i, st, v, g)" by (cases x)
  show ?case
  proof (cases "install_replayed i st v g p")
    case None
    with Cons.prems show ?thesis by (simp add: x)
  next
    case (Some y)
    then obtain old q where y: "install_replayed i st v g p = Some (old, q)" by (cases y) auto
    have wf: "session_wf n q" using install_replayed_wf [OF Cons.prems(2) y] by simp
    have "bt_wf (checkpoints p)" using Cons.prems(2) by (simp add: session_wf_def)
    with y have same: "ses_target q = ses_target p" "current q = current p"
      "map_option shape (bt_get (checkpoints q) j) = map_option shape (bt_get (checkpoints p) j)" for j
      by (auto simp: install_replayed_def bt_get_insert shape_def split: option.splits)
    from Cons.prems(1) y have "\<exists>acc. install_staged staged q acc = (r, p')" by (auto simp: x)
    with Cons.IH wf same show ?thesis by metis
  qed
qed simp

lemma install_all_same:
  assumes "install_all staged b = (r, b')" "book_wf b"
  shows "book_wf b' \<and> same_proofs b b'"
proof (cases "active_proof b")
  case None
  with assms show ?thesis by (simp add: install_all_def)
next
  case (Some p)
  with assms obtain p' where run: "install_staged staged p [] = (r, p')" and b': "b' = b\<lparr>active_proof := Some p'\<rparr>"
    by (auto simp: install_all_def split: prod.splits)
  from assms(2) Some have "session_wf (book_next b) p" by (simp add: book_wf_def)
  from install_staged_same [OF run this] have same: "session_wf (book_next b) p'" "ses_target p' = ses_target p"
    "current p' = current p" "\<And>i. map_option shape (bt_get (checkpoints p') i) = map_option shape (bt_get (checkpoints p) i)"
    by simp_all
  have "map_sum id shape (ok_or Unknown (bt_get (checkpoints p') i)) = map_sum id shape (ok_or Unknown (bt_get (checkpoints p) i))" for i
    using same(4) [of i] by (cases "bt_get (checkpoints p') i"; cases "bt_get (checkpoints p) i") auto
  with same(1-3) Some b' show ?thesis by (simp add: book_wf_def same_proofs_def book_lookup_def)
qed

lemma server_updates [simp]:
  "own_book (s\<lparr>srv_artifacts := m\<rparr>) = own_book s" "own_book (s\<lparr>srv_progress := g\<rparr>) = own_book s"
  "own_book (s\<lparr>srv_project := pj\<rparr>) = own_book s" "own_book (set_book b s) = b"
  "own_book (invalidate_project_states s) = invalidate_states (own_book s)"
  "own_book (install_runtime rt s) = own_book s" "own_book (s\<lparr>srv_parked := ps\<rparr>) = own_book s"
  "source_writes (s\<lparr>srv_artifacts := m\<rparr>) = source_writes s" "source_writes (s\<lparr>srv_progress := g\<rparr>) = source_writes s"
  "source_writes (s\<lparr>srv_project := pj\<rparr>) = source_writes s" "source_writes (set_book b s) = source_writes s"
  "source_writes (invalidate_project_states s) = source_writes s"
  "source_writes (install_runtime rt s) = source_writes s" "source_writes (s\<lparr>srv_parked := ps\<rparr>) = source_writes s"
  by (simp_all add: own_book_def set_book_def invalidate_project_states_def source_writes_def install_runtime_def Let_def)

lemma enter_cases: "enter k s = s \<or> (\<exists>rt ps. enter k s = install_runtime rt (s\<lparr>srv_parked := ps\<rparr>))"
  unfolding enter_def by (auto split: option.splits)

lemma enter_keeps [simp]: "own_book (enter k s) = own_book s" "source_writes (enter k s) = source_writes s"
  using enter_cases [of k s] by auto

lemma harmless_server:
  fixes s t :: "('w, 's) server_scheme"
  assumes "harmless s t"
  shows "own_book t = own_book s" "source_writes t = source_writes s"
  using kept_fields(4) [OF harmless_kept [OF assms]] assms by (simp_all add: own_book_def harmless_def)

section \<open>Reading tools\<close>

definition reading_step :: "('w, 's) server_scheme \<Rightarrow> ('w, 's) server_scheme \<Rightarrow> bool" where
  "reading_step s t \<longleftrightarrow> source_writes t = source_writes s
     \<and> (book_wf (own_book s) \<longrightarrow> book_wf (own_book t) \<and> same_proofs (own_book s) (own_book t))"

interpretation reads: requesting reading_step
proof (unfold_locales, goal_cases)
  case (2 s t u)
  then show ?case by (auto simp: reading_step_def intro: same_proofs_trans)
next
  case (3 s t)
  then show ?case by (simp add: reading_step_def harmless_server)
next
  case (6 s)
  then show ?case by (simp add: reading_step_def invalidate_states_wf same_proofs_invalidate)
next
  case (8 staged s r b)
  then show ?case using install_all_same by (auto simp: reading_step_def)
qed (simp_all add: reading_step_def)

definition reading_tool :: "string \<Rightarrow> bool" where
  "reading_tool name \<longleftrightarrow> name \<in> {''list_files'', ''list_decls'', ''try'', ''query''}"

text \<open>
  C10. Reading tools leave the proof as it is. Whatever \<open>list_files\<close>, \<open>list_decls\<close>, \<open>try\<close> and
  \<open>query\<close> do, build, replay, restart PET, time out or fail, the whole request replaces no source, and
  the proof of the connection has the same target, the same checkpoints with the same parents, inputs
  and completion, the same selection, and the same identifier counter: only handles and renderings
  may change.
\<close>

theorem reading_tools_keep_proof:
  assumes "reading_tool name" and "in_request env key (dispatch_attached env name args) s = (r, t)"
  shows "source_writes t = source_writes s
    \<and> (book_wf (own_book s) \<longrightarrow> book_wf (own_book t) \<and> same_proofs (own_book s) (own_book t))"
proof -
  have "obeys reading_step (dispatch_attached env name args)"
    using assms(1) unfolding reading_tool_def insert_iff empty_iff
    by (elim disjE) (simp_all add: dispatch_attached_def reads.listing reads.trying reads.querying)
  from obeysD [OF reads.attached_request [OF this] assms(2)] show ?thesis
    by (simp add: reading_step_def)
qed

section \<open>Other connections\<close>

text \<open>All selections of some projects forget their handles.\<close>

definition invalidate_in :: "path set \<Rightarrow> selection \<Rightarrow> selection" where
  "invalidate_in K o' =
     (case sel_project o' of None \<Rightarrow> o'
      | Some k \<Rightarrow> if k \<in> K then o'\<lparr>sel_book := invalidate_states (sel_book o')\<rparr> else o')"

lemma invalidate_states_twice [simp]: "invalidate_states (invalidate_states b) = invalidate_states b"
  by (auto simp: invalidate_states_def bt_map_values_def comp_def case_prod_beta split: option.splits)

lemma invalidate_in_simps [simp]:
  "invalidate_in {} = id" "invalidate_in K \<circ> invalidate_in J = invalidate_in (J \<union> K)"
  "invalidate_selection k = invalidate_in {k}"
  by (auto simp: invalidate_in_def invalidate_selection_def fun_eq_iff split: option.splits)

definition sibling_step :: "('w, 's) server_scheme \<Rightarrow> ('w, 's) server_scheme \<Rightarrow> bool" where
  "sibling_step s t \<longleftrightarrow> (\<exists>K. srv_siblings t = map (invalidate_in K) (srv_siblings s))"

lemma sibling_same: "srv_siblings t = srv_siblings s \<Longrightarrow> sibling_step s t"
  unfolding sibling_step_def by (rule exI [of _ "{}"]) simp

lemma sibling_updates [simp]:
  "srv_siblings (set_book b s) = srv_siblings s" "srv_siblings (install_runtime rt s) = srv_siblings s"
  "srv_siblings (project_runtime pj s) = srv_siblings s" "srv_siblings (enter k s) = srv_siblings s"
  by (auto simp: set_book_def install_runtime_def project_runtime_def enter_def Let_def split: option.splits)

lemma invalidated_siblings [simp]:
  "srv_siblings (invalidate_project_states s) = map (invalidate_in {loaded_key s}) (srv_siblings s)"
  "loaded_key (set_book b s) = loaded_key s"
  by (simp_all add: invalidate_project_states_def Let_def set_book_def loaded_key_def)

interpretation others: connecting sibling_step
proof (unfold_locales, goal_cases)
  case (2 s t u)
  then show ?case unfolding sibling_step_def by (metis list.map_comp invalidate_in_simps(2))
next
  case (3 s t)
  then show ?case by (intro sibling_same kept_fields harmless_kept)
next
  case (6 s)
  then show ?case
    unfolding sibling_step_def
    by (rule exI [of _ "{loaded_key s}"]) simp
next
  case (9 s t)
  then show ?case by (intro sibling_same kept_fields)
qed (simp_all add: sibling_same)

text \<open>
  C9. A request cannot disturb another connection's proof. Whatever a request of one connection does,
  on any tool, with success or with an error, every other connection keeps its attachment and its
  proof: target, checkpoints, parents, inputs, views, selection; the only thing that can happen to it
  is that it forgets its PET handles, and then every connection attached to the same project forgets
  all of its handles too.
\<close>

theorem other_connections_undisturbed:
  assumes "dispatch env name args s = (r, t)"
  shows "\<exists>K. srv_siblings t = map (invalidate_in K) (srv_siblings s)
    \<and> list_all2 (\<lambda>o' o''. sel_project o'' = sel_project o' \<and> same_proofs (sel_book o') (sel_book o''))
        (srv_siblings s) (srv_siblings t)"
proof -
  from obeysD [OF others.dispatching assms] obtain K where K: "srv_siblings t = map (invalidate_in K) (srv_siblings s)"
    by (auto simp: sibling_step_def)
  have "sel_project (invalidate_in K o') = sel_project o' \<and> same_proofs (sel_book o') (sel_book (invalidate_in K o'))" for o'
    by (auto simp: invalidate_in_def same_proofs_invalidate split: option.splits)
  with K show ?thesis by (auto simp: list_all2_conv_all_nth)
qed

section \<open>A sample server\<close>

text \<open>Two connections on the sample project and one elsewhere; PET is not running.\<close>

definition sample_server :: "checkpoint_book \<Rightarrow> unit server" where
  "sample_server b = sys.extend idle_sys (server.fields sample_pj []
     [([RootDir], runtime_new (sample_pj\<lparr>pj_root := [RootDir]\<rparr>))]
     \<lparr>sel_project = Some sample_project, sel_book = b\<rparr>
     [\<lparr>sel_project = Some sample_project, sel_book = sample_book\<rparr>,
      \<lparr>sel_project = Some [RootDir], sel_book = sample_book\<rparr>] progress_new)"

definition sample_request :: json where
  "sample_request = json_obj [(''target'', declaration_identity_json (identity sample_info))]"

lemma sample_server_simps [simp]:
  "srv_project (sample_server b) = sample_pj" "srv_own (sample_server b) = \<lparr>sel_project = Some sample_project, sel_book = b\<rparr>"
  "srv_siblings (sample_server b) = [\<lparr>sel_project = Some sample_project, sel_book = sample_book\<rparr>,
      \<lparr>sel_project = Some [RootDir], sel_book = sample_book\<rparr>]"
  "srv_parked (sample_server b) = [([RootDir], runtime_new (sample_pj\<lparr>pj_root := [RootDir]\<rparr>))]" "process (sample_server b) = None" "signal (sample_server b) = None"
  "own_book (sample_server b) = b" "srv_artifacts (sample_server b) = []" "srv_progress (sample_server b) = progress_new"
  by (simp_all add: sample_server_def sys.defs server.defs idle_sys_def idle_actor_def actor.defs own_book_def)

lemma unit_world [simp]: "s\<lparr>world := w\<rparr> = s" for s :: "(unit, 's) actor_scheme"
  by (cases s) simp

lemma sample_observe [simp]: "observe_signal (sample_engine_env de) s = (Inr (signal s), s)"
  for s :: "(unit, 's) actor_scheme"
  by (simp add: observe_signal_def and_then_def external_def modify_def gets_def sample_engine_env_def sample_fs_env_def
      sample_dune_env_def scripted_env_def pet_env.defs dune_env.defs fs_env.defs)

lemma sample_refresh [simp]: "refresh_project (sample_engine_env de) sample_pj s = (Inr (False, sample_pj), s)"
  for s :: "(unit, 's) sys_scheme"
proof -
  have "visit 2048 (sample_engine_env de) root root [] s = (Inr [], s)" for root
    by (simp add: numeral_eq_Suc io_value_def external_def and_then_def lift_result_def ret_def
        sample_engine_env_def fs_env.defs)
  then show ?thesis
    by (simp add: refresh_project_def layout_probe_def and_then_def map_err_def ret_def probe_bytes_def sample_pj_def)
qed

text \<open>A request of a connection that is attached to the sample project is just its tool.\<close>

lemma sample_in_request:
  fixes s :: "(unit, 's) server_scheme"
  assumes "srv_project s = sample_pj" "sel_project (srv_own s) = Some sample_project" "signal s = None"
  shows "in_request (sample_engine_env de) sample_project m s = close_epoch m s"
proof -
  have same: "s\<lparr>srv_project := sample_pj\<rparr> = s" using assms(1) by (cases s) simp
  have "enter sample_project s = s"
    using assms(1) by (simp add: enter_def loaded_key_def project_id_def sample_pj_def)
  then have "in_request (sample_engine_env de) sample_project m s = close_epoch m (s\<lparr>srv_project := sample_pj\<rparr>)"
    using assms
    by (simp add: in_request_def and_then_def modify_def reject_cancelled_def request_cancelled_def when_err_def ret_def
        refresh_locked_def the_project_def gets_def)
  then show ?thesis by (simp only: same)
qed

lemma sample_dispatch:
  fixes s :: "(unit, 's) server_scheme"
  assumes "srv_project s = sample_pj" "sel_project (srv_own s) = Some sample_project" "signal s = None"
    and "name \<noteq> ''query''" "name \<noteq> ''start''"
  shows "\<exists>g. dispatch (sample_engine_env de) name args s
    = close_epoch (dispatch_attached (sample_engine_env de) name args) (s\<lparr>srv_progress := g\<rparr>)"
proof -
  let ?s = "s\<lparr>srv_progress := update_current_progress ''project_refresh'' 0 None ''checking Dune project view'' (srv_progress s)\<rparr>"
  have "in_request (sample_engine_env de) sample_project (dispatch_attached (sample_engine_env de) name args) ?s
      = close_epoch (dispatch_attached (sample_engine_env de) name args) ?s"
    by (rule sample_in_request) (simp_all add: assms)
  then show ?thesis
    using assms
    by (auto simp: dispatch_def and_then_def reject_cancelled_def request_cancelled_def when_err_def ret_def
        progress_now_def modify_def gets_def lift_result_def)
qed

text \<open>The argument of the sample request.\<close>

lemma sample_target_argument:
  "reject_unknown sample_request [''target''] = Inr ()"
  "target_argument sample_request = Inr (identity sample_info)"
  by (simp_all add: sample_request_def reject_unknown_def target_argument_def declaration_id_def declaration_identity_json_def
      sample_info_def members_def identity_part_def backslash_to_slash_def json_obj_def bt_get_def)

text \<open>Abandoning the proof when PET is gone: the handles of both connections of the project go.\<close>

lemma sample_abandon:
  assumes "s = (sample_server sample_root_book)\<lparr>srv_progress := g\<rparr>"
  shows "\<exists>t. close_epoch (dispatch_attached (sample_engine_env de) ''abandon'' sample_request) s = (Inr (json_obj []), t)
    \<and> active_proof (own_book t) = None \<and> source_writes t = []
    \<and> srv_siblings t = [\<lparr>sel_project = Some sample_project, sel_book = invalidate_states sample_book\<rparr>,
        \<lparr>sel_project = Some [RootDir], sel_book = sample_book\<rparr>]"
proof -
  let ?env = "sample_engine_env de"
  have handles: "book_handles sample_root_book = [5]"
    by (simp add: book_handles_def sample_root_book_def book_begin_def allocate_def checked_add_def book_default_def
        List.map_filter_def)
  have act: "active_proof sample_root_book \<noteq> None"
    "identity (info (ses_target (the (active_proof sample_root_book)))) = identity sample_info"
    by (simp_all add: sample_root_book_def book_begin_def allocate_def checked_add_def book_default_def sample_target_def)
  have own: "own_book s = sample_root_book" "process s = None" "signal s = None" by (simp_all add: assms)
  have book: "the_book s = (Inr sample_root_book, s)" "the_proof s = (Inr (the (active_proof sample_root_book)), s)"
    using own(1) act(1) by (auto simp: the_book_def the_proof_def gets_def and_then_def own_book_def lift_result_def)
  have commit: "commit_or_cancelled ?env s = (Inr (), s)"
    using own(3) by (simp add: commit_or_cancelled_def and_then_def commit_request_def)
  have "release_states ?env [5] s = (Inl (ProcessLost ''process is not running''), s)"
    using own(2) by (simp add: release_states_def call_live_def call_live_with_timeout_def and_then_def)
  then have "retire_proof ?env s = (Inr True, set_book (snd (book_clear sample_root_book)) s)"
    using own(1) act(1)
    by (simp add: book(1) retire_proof_def and_then_def attempt_def handles clear_book_def with_book_def own_book_def ret_def
        book_clear_def)
  then have "tool_abandon ?env sample_request s
      = (Inr (json_obj []), invalidate_project_states (set_book (snd (book_clear sample_root_book)) s))"
    using commit act(2)
    by (simp add: book tool_abandon_def and_then_def lift_result_def sample_target_argument when_err_def ret_def
        invalidate_all_def modify_def)
  then have run: "close_epoch (dispatch_attached ?env ''abandon'' sample_request) s
      = (Inr (json_obj []), invalidate_project_states (set_book (snd (book_clear sample_root_book)) s))"
    by (simp add: close_epoch_def dispatch_attached_def and_then_def attempt_def ret_def)
  have "source_writes s = []" by (simp add: assms source_writes_def sample_server_def sys.defs idle_sys_def actor.defs)
  moreover have "loaded_key s = sample_project" by (simp add: assms loaded_key_def project_id_def sample_pj_def)
  moreover have "active_proof (invalidate_states (snd (book_clear sample_root_book))) = None"
    by (simp add: book_clear_def invalidate_states_def)
  moreover have "invalidate_in {sample_project} \<lparr>sel_project = Some sample_project, sel_book = sample_book\<rparr>
      = \<lparr>sel_project = Some sample_project, sel_book = invalidate_states sample_book\<rparr>"
    "invalidate_in {sample_project} \<lparr>sel_project = Some [RootDir], sel_book = sample_book\<rparr>
      = \<lparr>sel_project = Some [RootDir], sel_book = sample_book\<rparr>"
    by (simp_all add: invalidate_in_def sample_project_def)
  ultimately show ?thesis
    unfolding run
    by (intro exI [of _ "invalidate_project_states (set_book (snd (book_clear sample_root_book)) s)"] conjI)
      (simp_all add: assms)
qed

theorem reading_tools_keep_proof_witness:
  "reading_tool ''list_files''
   \<and> in_request (sample_engine_env declarations_de) sample_project
       (dispatch_attached (sample_engine_env declarations_de) ''list_files'' (json_obj [])) (sample_server sample_book)
     = (Inr (json_obj [(''files'', JArray [JString ''A.v''])]), sample_server sample_book)
   \<and> book_wf sample_book \<and> same_proofs (own_book (sample_server sample_book)) (own_book (sample_server sample_book))"
proof -
  let ?env = "sample_engine_env declarations_de" and ?s = "sample_server sample_book"
  have files: "list_files sample_pj = Inr [''A.v'']"
    by (simp add: list_files_def project_files_def layout_files_def sample_pj_def sample_layout_def sample_project_def
        file_id_from_path_def path_strip_prefix_def backslash_to_slash_def path_str_def)
  have tool: "reading_tool ''list_files''" by (simp add: reading_tool_def)
  have "in_request ?env sample_project (dispatch_attached ?env ''list_files'' (json_obj [])) ?s
      = close_epoch (dispatch_attached ?env ''list_files'' (json_obj [])) ?s"
    by (rule sample_in_request) simp_all
  also have "\<dots> = (Inr (json_obj [(''files'', JArray [JString ''A.v''])]), ?s)"
    by (simp add: close_epoch_def dispatch_attached_def tool_list_files_def and_then_def attempt_def ret_def lift_result_def
        reject_unknown_def the_project_def gets_def files members_def)
  finally have run: "in_request ?env sample_project (dispatch_attached ?env ''list_files'' (json_obj [])) ?s
      = (Inr (json_obj [(''files'', JArray [JString ''A.v''])]), ?s)" .
  from reading_tools_keep_proof [OF tool run] run tool sample_wf(2) show ?thesis by simp
qed

theorem other_connections_undisturbed_witness:
  "\<exists>t. dispatch (sample_engine_env declarations_de) ''abandon'' sample_request (sample_server sample_root_book)
       = (Inr (json_obj []), t)
     \<and> srv_siblings t \<noteq> srv_siblings (sample_server sample_root_book)
     \<and> list_all2 (\<lambda>o' o''. sel_project o'' = sel_project o' \<and> same_proofs (sel_book o') (sel_book o''))
         (srv_siblings (sample_server sample_root_book)) (srv_siblings t)"
proof -
  obtain g where "dispatch (sample_engine_env declarations_de) ''abandon'' sample_request (sample_server sample_root_book)
    = close_epoch (dispatch_attached (sample_engine_env declarations_de) ''abandon'' sample_request)
        ((sample_server sample_root_book)\<lparr>srv_progress := g\<rparr>)"
    using sample_dispatch [of "sample_server sample_root_book" "''abandon''" declarations_de sample_request] by auto
  with sample_abandon [OF refl, of declarations_de g] obtain t where
    t: "dispatch (sample_engine_env declarations_de) ''abandon'' sample_request (sample_server sample_root_book) = (Inr (json_obj []), t)"
      "srv_siblings t = [\<lparr>sel_project = Some sample_project, sel_book = invalidate_states sample_book\<rparr>,
        \<lparr>sel_project = Some [RootDir], sel_book = sample_book\<rparr>]"
    by fastforce
  have "book_handles sample_book = [5, 7]"
    by (simp add: book_handles_def sample_eval List.map_filter_def)
  moreover have "book_handles (invalidate_states sample_book) = []"
    by (simp add: book_handles_def sample_eval invalidate_states_def bt_map_values_def List.map_filter_def)
  ultimately have "invalidate_states sample_book \<noteq> sample_book" by (metis list.simps(3))
  with t other_connections_undisturbed [OF t(1)] show ?thesis by auto
qed

end
