(* ===== verification/Server_Invariant.thy ===== *)
theory Server_Invariant
  imports Adapter_Properties
begin

text \<open>
  The invariant of the server: every checkpoint book is a tree, every project runtime is filed under
  its own root and once, and every connection's project has a runtime. Every request preserves it.
\<close>

section \<open>The invariant of the server\<close>

text \<open>Every book is a tree; every runtime is filed under its own key, once; every attached project has
  a runtime.\<close>

definition available :: "path \<Rightarrow> ('w, 's) server_scheme \<Rightarrow> bool" where
  "available key s \<longleftrightarrow> key = loaded_key s \<or> key \<in> fst ` set (srv_parked s)"

definition runtimes_ok :: "('w, 's) server_scheme \<Rightarrow> bool" where
  "runtimes_ok s \<longleftrightarrow> distinct (loaded_key s # map fst (srv_parked s))
     \<and> (\<forall>(k, rt) \<in> set (srv_parked s). project_id (rt_project rt) = k)
     \<and> (\<forall>k. attached k s \<longrightarrow> available k s)"

definition server_wf :: "('w, 's) server_scheme \<Rightarrow> bool" where
  "server_wf s \<longleftrightarrow> book_wf (own_book s) \<and> list_all (\<lambda>o'. book_wf (sel_book o')) (srv_siblings s) \<and> runtimes_ok s"

text \<open>What the invariant reads of the runtimes.\<close>

definition runtime_view :: "('w, 's) server_scheme \<Rightarrow> path \<times> (path \<times> runtime) list \<times> path option \<times> path option list" where
  "runtime_view s = (loaded_key s, srv_parked s, sel_project (srv_own s), map sel_project (srv_siblings s))"

lemma runtime_view_cong:
  fixes s t :: "('w, 's) server_scheme"
  assumes "runtime_view t = runtime_view s"
  shows "runtimes_ok t = runtimes_ok s" "available key t = available key s" "attached key t = attached key s"
proof -
  have att: "attached k u \<longleftrightarrow> sel_project (srv_own u) = Some k \<or> Some k \<in> set (map sel_project (srv_siblings u))"
    for k and u :: "('w, 's) server_scheme"
    by (force simp: attached_def)
  show "attached key t = attached key s"
    using assms by (simp only: att) (simp add: runtime_view_def)
  show "available key t = available key s" using assms by (simp add: available_def runtime_view_def)
  have eqs: "loaded_key t = loaded_key s" "srv_parked t = srv_parked s" "\<And>k. attached k t = attached k s"
    using assms by (simp_all add: runtime_view_def att)
  show "runtimes_ok t = runtimes_ok s" by (simp add: runtimes_ok_def available_def eqs)
qed

lemma kept_view:
  fixes s t :: "('w, 's) server_scheme"
  assumes "kept s t" shows "runtime_view t = runtime_view s"
  by (simp add: runtime_view_def loaded_key_def kept_fields [OF assms])

lemma invalidate_selection_project [simp]: "sel_project (invalidate_in K o') = sel_project o'"
  by (simp add: invalidate_in_def split: option.splits)

lemma view_updates [simp]:
  "runtime_view (s\<lparr>srv_artifacts := m\<rparr>) = runtime_view s" "runtime_view (s\<lparr>srv_progress := g\<rparr>) = runtime_view s"
  "runtime_view (set_book b s) = runtime_view s" "runtime_view (invalidate_project_states s) = runtime_view s"
  by (simp_all add: runtime_view_def set_book_def loaded_key_def invalidate_project_states_def Let_def comp_def)

lemma layout_view: "project_id pj = loaded_key s \<Longrightarrow> runtime_view (s\<lparr>srv_project := pj\<rparr>) = runtime_view s"
  by (simp add: runtime_view_def loaded_key_def)

lemma delete_filter: "AList.delete k al = filter (\<lambda>x. fst x \<noteq> k) al"
  by (induction al) auto

lemma update_fresh: "k \<notin> fst ` set al \<Longrightarrow> AList.update k v al = al @ [(k, v)]"
  by (induction al) auto

text \<open>What \<open>enter\<close> does when it does something: the two runtimes change places.\<close>

lemma enter_swap:
  assumes "runtimes_ok s" and "enter k s \<noteq> s"
  obtains rt where "(k, rt) \<in> set (srv_parked s)" "loaded_key s \<noteq> k" "loaded_key (enter k s) = k"
    "srv_parked (enter k s) = filter (\<lambda>x. fst x \<noteq> k) (srv_parked s) @ [(loaded_key s, locked_runtime s)]"
    "sel_project (srv_own (enter k s)) = sel_project (srv_own s)" "srv_siblings (enter k s) = srv_siblings s"
proof -
  from assms(2) obtain rt where other: "loaded_key s \<noteq> k" and rt: "map_of (srv_parked s) k = Some rt"
    by (auto simp: enter_def split: if_splits option.splits)
  let ?qs = "filter (\<lambda>x. fst x \<noteq> k) (srv_parked s)"
  have "loaded_key s \<notin> fst ` set ?qs" using assms(1) by (auto simp: runtimes_ok_def)
  then have ps: "AList.update (loaded_key s) (locked_runtime s) (AList.delete k (srv_parked s)) = ?qs @ [(loaded_key s, locked_runtime s)]"
    by (simp add: delete_filter update_fresh)
  have t: "enter k s = install_runtime rt (s\<lparr>srv_parked := ?qs @ [(loaded_key s, locked_runtime s)]\<rparr>)"
    using other rt by (simp add: enter_def ps)
  have mem: "(k, rt) \<in> set (srv_parked s)" using rt by (rule map_of_SomeD)
  then have "loaded_key (enter k s) = k"
    using assms(1) by (auto simp: t install_runtime_def loaded_key_def runtimes_ok_def)
  with that [OF mem other] show ?thesis by (simp add: t install_runtime_def)
qed

lemma enter_runtimes:
  assumes "runtimes_ok s"
  shows "runtimes_ok (enter k s) \<and> (available j s \<longrightarrow> available j (enter k s))"
proof (cases "enter k s = s")
  case False
  obtain rt where mem: "(k, rt) \<in> set (srv_parked s)" and other: "loaded_key s \<noteq> k" and key: "loaded_key (enter k s) = k"
    and parked: "srv_parked (enter k s) = filter (\<lambda>x. fst x \<noteq> k) (srv_parked s) @ [(loaded_key s, locked_runtime s)]"
    and sels: "sel_project (srv_own (enter k s)) = sel_project (srv_own s)" "srv_siblings (enter k s) = srv_siblings s"
    by (rule enter_swap [OF assms False])
  have avail: "available j (enter k s) \<longleftrightarrow> available j s" for j
    using mem unfolding available_def key parked by (cases "j = k") (force simp: image_iff)+
  have att: "attached j (enter k s) \<longleftrightarrow> attached j s" for j
    by (simp add: attached_def sels)
  have "distinct (k # map fst (srv_parked (enter k s)))"
    using assms other by (auto simp: parked runtimes_ok_def distinct_map_filter)
  moreover have "\<forall>(j, r) \<in> set (srv_parked (enter k s)). project_id (rt_project r) = j"
    using assms by (auto simp: parked runtimes_ok_def locked_runtime_def loaded_key_def)
  ultimately show ?thesis
    using assms avail att by (simp add: runtimes_ok_def key)
qed (simp add: assms)

lemma project_runtime_ok:
  assumes "runtimes_ok s"
  shows "runtimes_ok (project_runtime pj s) \<and> available (project_id pj) (project_runtime pj s)"
proof -
  let ?k = "project_id pj"
  let ?s = "s\<lparr>srv_parked := filter (\<lambda>(k, _). attached k s) (srv_parked s)\<rparr>"
  have att: "attached k ?s \<longleftrightarrow> attached k s" for k by (simp add: attached_def)
  have ok: "runtimes_ok ?s"
    using assms unfolding runtimes_ok_def att
    by (auto simp: loaded_key_def available_def distinct_map_filter case_prod_beta image_iff)
  consider (old) "attached ?k s" | (dead) "\<not> attached ?k s" "loaded_key s = ?k" | (new) "\<not> attached ?k s" "loaded_key s \<noteq> ?k"
    by blast
  then show ?thesis
  proof cases
    case old
    then have "project_runtime pj s = ?s" by (simp add: project_runtime_def Let_def att)
    with ok old show ?thesis by (auto simp: runtimes_ok_def att)
  next
    case dead
    then have "project_runtime pj s = install_runtime (runtime_new pj) ?s"
      by (simp add: project_runtime_def Let_def att loaded_key_def)
    then have "runtime_view (project_runtime pj s) = runtime_view ?s"
      using dead(2) by (simp add: runtime_view_def install_runtime_def runtime_new_def loaded_key_def)
    from runtime_view_cong [OF this] ok dead(2) show ?thesis
      by (simp add: available_def loaded_key_def)
  next
    case new
    have fresh: "?k \<notin> fst ` set (srv_parked ?s)" using new by (auto simp: image_iff)
    then have t: "project_runtime pj s = ?s\<lparr>srv_parked := srv_parked ?s @ [(?k, runtime_new pj)]\<rparr>"
      using new by (simp add: project_runtime_def Let_def att loaded_key_def update_fresh)
    have att': "attached k (project_runtime pj s) \<longleftrightarrow> attached k s" for k by (simp add: t attached_def)
    have lk: "loaded_key (project_runtime pj s) = loaded_key s" by (simp add: t loaded_key_def)
    have "distinct (loaded_key s # map fst (srv_parked (project_runtime pj s)))"
      using ok fresh new(2) by (auto simp: runtimes_ok_def t loaded_key_def)
    moreover have "\<forall>(k, rt) \<in> set (srv_parked (project_runtime pj s)). project_id (rt_project rt) = k"
      using ok by (auto simp: runtimes_ok_def t runtime_new_def)
    moreover have "available k (project_runtime pj s) \<longleftrightarrow> available k ?s \<or> k = ?k" for k
      by (auto simp: available_def t loaded_key_def)
    ultimately show ?thesis
      using ok by (simp add: runtimes_ok_def lk att att')
  qed
qed

definition wf_step :: "path \<Rightarrow> ('w, 's) server_scheme \<Rightarrow> ('w, 's) server_scheme \<Rightarrow> bool" where
  "wf_step key s t \<longleftrightarrow> (server_wf s \<and> available key s \<longrightarrow> server_wf t \<and> available key t)"

lemma wf_stepI:
  fixes s t :: "('w, 's) server_scheme"
  assumes "book_wf (own_book s) \<Longrightarrow> book_wf (own_book t)" and "sibling_step s t"
    and "runtimes_ok s \<Longrightarrow> available key s \<Longrightarrow> runtimes_ok t \<and> available key t"
  shows "wf_step key s t"
proof -
  have "book_wf (sel_book (invalidate_in K o'))" if "book_wf (sel_book o')" for K o'
    using that by (auto simp: invalidate_in_def invalidate_states_wf split: option.splits)
  then have "list_all (\<lambda>o'. book_wf (sel_book o')) (srv_siblings t)" if "list_all (\<lambda>o'. book_wf (sel_book o')) (srv_siblings s)"
    using that assms(2) by (auto simp: list_all_iff sibling_step_def)
  with assms(1, 3) show ?thesis by (simp add: wf_step_def server_wf_def)
qed

lemma wf_step_view:
  fixes s t :: "('w, 's) server_scheme"
  assumes "book_wf (own_book s) \<Longrightarrow> book_wf (own_book t)" and "sibling_step s t" and "runtime_view t = runtime_view s"
  shows "wf_step key s t"
  using assms(1, 2) runtime_view_cong [OF assms(3)] by (intro wf_stepI) simp_all

lemma wf_step_kept:
  fixes s t :: "('w, 's) server_scheme"
  assumes "kept s t" shows "wf_step key s t"
  using kept_fields(4) [OF assms] kept_fields(5) [OF assms] kept_view [OF assms]
  by (intro wf_step_view sibling_same) (simp_all add: own_book_def)

lemma wf_step_book:
  "(book_wf (own_book s) \<Longrightarrow> book_wf b) \<Longrightarrow> wf_step key s (set_book b s)"
  by (rule wf_step_view) (simp_all add: sibling_same)

lemma wf_step_forget: "wf_step key s (invalidate_project_states s)"
proof (rule wf_step_view)
  show "sibling_step s (invalidate_project_states s)"
    unfolding sibling_step_def by (rule exI [of _ "{loaded_key s}"]) simp
qed (simp_all add: invalidate_states_wf)

lemma attach_runtimes:
  assumes "runtimes_ok s" "\<And>key. p = Some key \<Longrightarrow> available key s"
  shows "runtimes_ok (s\<lparr>srv_own := (srv_own s)\<lparr>sel_project := p\<rparr>\<rparr>)"
  using assms by (auto simp: runtimes_ok_def available_def attached_def loaded_key_def)

lemma attach_simps [simp]:
  "own_book (s\<lparr>srv_own := (srv_own s)\<lparr>sel_project := p\<rparr>\<rparr>) = own_book s"
  "available k (s\<lparr>srv_own := o'\<rparr>) = available k s"
  by (simp_all add: own_book_def available_def loaded_key_def)

lemma wf_step_attach:
  "(\<And>k. p = Some k \<Longrightarrow> k = key) \<Longrightarrow> wf_step key s (s\<lparr>srv_own := (srv_own s)\<lparr>sel_project := p\<rparr>\<rparr>)"
  by (rule wf_stepI) (use attach_runtimes [of s p] in \<open>auto simp: sibling_same\<close>)

interpretation wf: serving "wf_step key" key for key
proof (unfold_locales, goal_cases)
  case (3 s t)
  then show ?case by (intro wf_step_kept harmless_kept)
next
  case (8 staged s r b)
  then show ?case by (intro wf_step_book) (simp add: install_all_same)
next
  case (10 s r b)
  then show ?case by (intro wf_step_book) (metis book_clear_wf snd_conv)
next
  case (11 target st fin v n s r1 b)
  then show ?case by (intro wf_step_book) (metis book_begin_wf snd_conv)
next
  case (12 st input fin v n s r2 b)
  then show ?case by (intro wf_step_book) (metis book_commit_wf snd_conv)
next
  case (13 i s r3 b)
  then show ?case by (intro wf_step_book) (metis book_select_wf snd_conv)
next
  case (14 pj s)
  then show ?case by (intro wf_step_view) (simp_all add: sibling_same layout_view)
next
  case (15 s k)
  show ?case
    by (rule wf_stepI) (simp_all add: sibling_same enter_runtimes)
next
  case (16 s)
  show ?case by (rule wf_step_attach) simp
next
  case (17 s)
  show ?case by (rule wf_step_attach) simp
qed (simp_all add: wf_step_kept wf_step_forget wf_step_view sibling_same, simp_all add: wf_step_def)

section \<open>The invariant under every request\<close>

definition wf_pres :: "('w, 's) server_scheme \<Rightarrow> ('w, 's) server_scheme \<Rightarrow> bool" where
  "wf_pres s t \<longleftrightarrow> (server_wf s \<longrightarrow> server_wf t)"

interpretation pres: step_relation wf_pres
  by unfold_locales (simp_all add: wf_pres_def)

lemma wf_presI: "(\<And>key. obeys (wf_step key) m) \<Longrightarrow> obeys wf_pres m"
proof (rule obeysI)
  fix s t r
  assume "\<And>key. obeys (wf_step key) m" and "m s = (r, t)"
  then have "wf_step (loaded_key s) s t" by (auto dest: obeysD)
  then show "wf_pres s t" by (simp add: wf_step_def wf_pres_def available_def)
qed

lemma project_runtime_wf:
  fixes s :: "('w, 's) server_scheme"
  assumes "server_wf s"
  shows "server_wf (project_runtime pj s) \<and> available (project_id pj) (project_runtime pj s)"
proof -
  have "own_book (project_runtime pj s) = own_book s"
    by (simp add: project_runtime_def install_runtime_def own_book_def Let_def)
  with assms project_runtime_ok [of s pj] show ?thesis by (simp add: server_wf_def)
qed

lemma wf_start:
  fixes env :: "('w, 'z) engine_env_scheme"
  shows "obeys (wf_pres :: ('w, 's) server_scheme \<Rightarrow> _) (start_with env pj)"
proof (rule obeysI)
  fix s t :: "('w, 's) server_scheme" and r
  assume "start_with env pj s = (r, t)"
  then have "start_found env (project_id pj) (project_runtime pj s) = (r, t)"
    by (simp add: start_with_def and_then_def modify_def)
  with wf.started have "wf_step (project_id pj) (project_runtime pj s) t" by (rule obeysD)
  then show "wf_pres s t" using project_runtime_wf [of s pj] by (simp add: wf_step_def wf_pres_def)
qed

text \<open>
  The invariant under one request. Whatever the request, its tool, its arguments and its outcome, and
  whatever the file system, Dune and PET do: if every connection's checkpoint book is a tree whose
  selection is a node, each runtime is filed once and under its own project root, and every attached
  project has a runtime, then all of this holds after the request.
\<close>

theorem request_keeps_server_invariant:
  assumes "dispatch env name args s = (r, t)" and "server_wf s"
  shows "server_wf t"
proof -
  have "obeys wf_pres (dispatch env name args)"
    unfolding dispatch_def start_project_def
    by (auto intro!: pres.rules wf_start wf_presI [of "reject_cancelled env"] wf_presI [of "attach env p" for p]
        wf_presI [of "external f" for f] wf_presI [of "progress_now a b c d" for a b c d]
        wf_presI [of "in_request env k m" for k m] wf.step_rules wf.engine_rules wf.attached_request wf.tools)
  from obeysD [OF this assms(1)] assms(2) show ?thesis by (simp add: wf_pres_def)
qed

theorem request_keeps_server_invariant_witness:
  "\<exists>t. dispatch (sample_engine_env declarations_de) ''abandon'' sample_request (sample_server sample_root_book)
       = (Inr (json_obj []), t)
     \<and> server_wf (sample_server sample_root_book) \<and> server_wf t"
proof -
  obtain g where "dispatch (sample_engine_env declarations_de) ''abandon'' sample_request (sample_server sample_root_book)
    = close_epoch (dispatch_attached (sample_engine_env declarations_de) ''abandon'' sample_request)
        ((sample_server sample_root_book)\<lparr>srv_progress := g\<rparr>)"
    using sample_dispatch [of "sample_server sample_root_book" "''abandon''" declarations_de sample_request] by auto
  with sample_abandon [OF refl, of declarations_de g] obtain t where
    t: "dispatch (sample_engine_env declarations_de) ''abandon'' sample_request (sample_server sample_root_book) = (Inr (json_obj []), t)"
    by fastforce
  have "runtimes_ok (sample_server sample_root_book)"
    by (auto simp: runtimes_ok_def available_def attached_def loaded_key_def project_id_def sample_pj_def sample_project_def
        runtime_new_def)
  then have wf: "server_wf (sample_server sample_root_book)" by (simp add: server_wf_def sample_wf)
  with t request_keeps_server_invariant [OF t wf] show ?thesis by blast
qed

end
