(* ===== verification/Server_Sessions.thy ===== *)
theory Server_Sessions
  imports Server_Invariant
begin

text \<open>
  The life of a server as a whole: connections open, send requests and close, in any order. The state is the one
  of \<open>Server_State\<close>, seen from the connection whose turn it is; \<open>turn\<close> gives the turn to another one.
\<close>

section \<open>Connections\<close>

text \<open>\<open>ServerRuntime::connection\<close>: a new session cell, known to the runtime; it is a sibling of the one at turn.\<close>

definition connection :: "('w, 's) server_scheme \<Rightarrow> ('w, 's) server_scheme" where
  "connection s = s\<lparr>srv_siblings := srv_siblings s @ [selection_new]\<rparr>"

definition turn :: "nat \<Rightarrow> progress_book \<Rightarrow> ('w, 's) server_scheme \<Rightarrow> ('w, 's) server_scheme" where
  "turn i g s = s\<lparr>srv_own := srv_siblings s ! i, srv_siblings := (srv_siblings s)[i := srv_own s], srv_progress := g\<rparr>"

definition idle_server :: "('w, 's) server_scheme \<Rightarrow> bool" where
  "idle_server s \<longleftrightarrow> srv_own s = selection_new \<and> srv_siblings s = [] \<and> srv_parked s = []"

inductive server_reachable :: "('w, 'z) engine_env_scheme \<Rightarrow> ('w, 's) server_scheme \<Rightarrow> bool" for env where
  idle: "idle_server s \<Longrightarrow> server_reachable env s"
| request: "server_reachable env s \<Longrightarrow> dispatch env name args s = (r, t) \<Longrightarrow> server_reachable env t"
| connect: "server_reachable env s \<Longrightarrow> server_reachable env (connection s)"
| other: "server_reachable env s \<Longrightarrow> i < length (srv_siblings s) \<Longrightarrow> server_reachable env (turn i g s)"
| close: "server_reachable env s \<Longrightarrow> session_drop env s = (r, t) \<Longrightarrow> server_reachable env t"

section \<open>The invariant\<close>

lemma book_default_wf [simp]: "book_wf book_default"
  by (simp add: book_default_def book_wf_def)

lemma idle_wf: "idle_server s \<Longrightarrow> server_wf s"
  by (auto simp: idle_server_def server_wf_def own_book_def runtimes_ok_def available_def attached_def selection_new_def)

lemma connection_wf: "server_wf s \<Longrightarrow> server_wf (connection s)"
  by (auto simp: server_wf_def connection_def own_book_def runtimes_ok_def available_def attached_def loaded_key_def
      selection_new_def list_all_iff)

lemma turn_wf:
  assumes "server_wf s" and "i < length (srv_siblings s)"
  shows "server_wf (turn i g s)"
proof -
  have sels: "set ((srv_siblings s)[i := srv_own s]) \<subseteq> insert (srv_own s) (set (srv_siblings s))"
    by (rule set_update_subset_insert)
  have "attached k (turn i g s) \<Longrightarrow> attached k s" for k
    using assms(2) sels by (auto simp: attached_def turn_def)
  then show ?thesis
    using assms sels
    by (auto simp: server_wf_def turn_def own_book_def list_all_iff runtimes_ok_def available_def loaded_key_def)
qed

lemma wf_step_leave: "wf_step key s (s\<lparr>srv_own := selection_new\<rparr>)"
  by (rule wf_stepI)
    (auto simp: own_book_def sibling_same runtimes_ok_def available_def attached_def loaded_key_def selection_new_def)

lemma session_drop_wf:
  fixes s t :: "('w, 's) server_scheme"
  assumes "session_drop env s = (r, t)" and "server_wf s"
  shows "server_wf t"
proof (cases "sel_project (srv_own s)")
  case None
  with assms show ?thesis by (simp add: session_drop_def)
next
  case (Some key)
  have "available key s" using assms(2) Some by (simp add: server_wf_def runtimes_ok_def attached_def)
  have "obeys (wf_step key) (and_then (modify (enter key)) (\<lambda>_.
         and_then clear_book (\<lambda>retired.
         and_then (case retired of
             None \<Rightarrow> ret ()
           | Some p \<Rightarrow> and_then (attempt (release_states env (book_handles \<lparr>book_next = 0, active_proof = Some p\<rparr>)))
               (\<lambda>_. ret ())) (\<lambda>_.
         and_then (modify (\<lambda>s. s\<lparr>srv_own := selection_new\<rparr>)) (\<lambda>_. drop_runtime)))))"
    by (auto intro!: wf.step_rules wf.engine_rules wf.modified wf.entering wf.clearing wf.leaving wf_step_leave
        split: option.splits)
  moreover have "wf_step key s t" if "obeys (wf_step key) m" "m s = (r, t)" for m :: "(('w, 's) server_scheme, err, unit) eff"
    using that by (rule obeysD)
  ultimately have "wf_step key s t" using assms(1) Some by (simp add: session_drop_def)
  with assms(2) \<open>available key s\<close> show ?thesis by (simp add: wf_step_def)
qed

text \<open>
  C5. The invariant of the server. Start an idle server, open connections, close them, and serve requests in any
  order, each with any tool, any arguments and any outcome, whatever the file system, Dune and PET do: every
  connection's checkpoint book is a tree whose selection is one of its nodes, each project runtime is filed once
  and under its own root, and every project that a connection selects has a runtime.
\<close>

theorem every_reachable_server_is_wf:
  assumes "server_reachable env s"
  shows "server_wf s"
  using assms
proof (induction rule: server_reachable.induct)
  case (request s name args r t)
  then show ?case by (blast intro: request_keeps_server_invariant)
next
  case (close s r t)
  then show ?case by (blast intro: session_drop_wf)
qed (simp_all add: idle_wf connection_wf turn_wf)

theorem every_reachable_server_is_wf_witness:
  "\<exists>t. session_drop (sample_engine_env declarations_de)
       (turn 0 progress_new (connection (sample_server sample_book\<lparr>srv_own := selection_new, srv_siblings := [], srv_parked := []\<rparr>)))
     = (Inr (), t) \<and> server_wf t"
proof -
  let ?env = "sample_engine_env declarations_de"
  let ?s = "sample_server sample_book\<lparr>srv_own := selection_new, srv_siblings := [], srv_parked := []\<rparr>"
  let ?t = "turn 0 progress_new (connection ?s)"
  have "server_reachable ?env ?t"
    by (intro server_reachable.other server_reachable.connect server_reachable.idle) (simp_all add: idle_server_def connection_def)
  moreover have run: "session_drop ?env ?t = (Inr (), ?t)"
    by (simp add: session_drop_def turn_def connection_def selection_new_def)
  ultimately have "server_reachable ?env ?t" by (blast intro: server_reachable.close)
  from every_reachable_server_is_wf [OF this] run show ?thesis by blast
qed

end
