(* ===== verification/Adapter_Check.thy ===== *)
theory Adapter_Check
  imports Adapter_Properties
begin

text \<open>
  The tool \<open>check\<close>: of the submitted alternatives at most one is committed, as a child of the selected
  checkpoint, and a source is replaced only after a fragment that finished the proof.
\<close>

section \<open>After the commit\<close>




section \<open>One commit at most\<close>


















end
