(* ===== verification/Adapter_Epoch.thy ===== *)
theory Adapter_Epoch
  imports Adapter_Properties
begin

text \<open>
  Handles and epochs. A successful restoration gives every checkpoint on the path a handle and
  changes nothing else; a request that finds that Dune rebuilt an artifact of the project drops PET
  and every handle to it.
\<close>

section \<open>Steps that leave the book and the snapshots alone\<close>

definition observed :: "('w, 's) server_scheme \<Rightarrow> ('w, 's) server_scheme \<Rightarrow> bool" where
  "observed s t \<longleftrightarrow> own_book t = own_book s \<and> srv_artifacts t = srv_artifacts s"

interpretation sees: observing observed
proof (unfold_locales, goal_cases)
  case (3 s t)
  then show ?case by (simp add: observed_def harmless_server kept_fields [OF harmless_kept])
qed (simp_all add: observed_def)

lemma lift_runs:
  "and_then (lift_result (Inl e)) f s = (Inl e, s)" "and_then (lift_result (Inr x)) k = k x"
  by (simp_all add: lift_result_def and_then_def)

lemma view_runs:
  "and_then (gets g) f s = f (g s) s" "and_then (modify h) k s = k () (h s)"
  by (simp_all add: gets_def modify_def and_then_def)

lemma and_then_okE:
  assumes "and_then m f s = (Inr x, t)"
  obtains y u where "m s = (Inr y, u)" "f y u = (Inr x, t)"
  using assms by (auto elim: and_thenE)

lemma case_prod_runE:
  assumes "case_prod f p s = r"
  obtains a b where "p = (a, b)" "f a b s = r"
  using assms by (cases p) simp

section \<open>Restoring a path\<close>

definition has_handle :: "checkpoint_book \<Rightarrow> checkpoint_id \<Rightarrow> bool" where
  "has_handle b i \<longleftrightarrow> (case book_lookup b i of Inl e \<Rightarrow> False | Inr c \<Rightarrow> pet_state c \<noteq> None)"

text \<open>The handle that the last replayed node got.\<close>

definition last_staged :: "staged list \<Rightarrow> pet_state_id" where
  "last_staged staged = fst (snd (last staged))"

lemma replay_first_staged:
  "replay_first env target root n s = (Inr (st, x), t) \<Longrightarrow> fst x = fst root \<and> fst (snd x) = st"
  unfolding replay_first_def
  by (auto simp: ret_def throw_def elim!: and_thenE split: if_splits prod.splits)

lemma replay_rest_staged:
  assumes "replay_rest env target n records c st staged s = (Inr (st', staged'), t)"
    and "staged \<noteq> [] \<Longrightarrow> last_staged staged = st"
  shows "map fst staged' = map fst staged @ map fst records \<and> (staged' \<noteq> [] \<longrightarrow> last_staged staged' = st')"
  using assms
proof (induction records arbitrary: c st staged s)
  case (Cons ic records)
  obtain i c' where ic: "ic = (i, c')" by (cases ic)
  from Cons.prems(1) obtain c2 st2 v g s2 where
    "replay_rest env target n records c2 st2 (staged @ [(i, st2, v, g)]) s2 = (Inr (st', staged'), t)"
    by (auto simp: ic Let_def throw_def elim!: and_thenE split: sum.splits if_splits prod.splits)
  from Cons.IH [OF this] show ?case by (simp add: ic last_staged_def)
qed (simp add: ret_def)

lemma install_staged_handles:
  assumes "install_staged staged p acc = (Inr r, p')" and "session_wf n p"
  shows "(\<forall>j. j \<notin> fst ` set staged \<longrightarrow> bt_get (checkpoints p') j = bt_get (checkpoints p) j)
    \<and> (\<forall>j \<in> fst ` set staged. \<exists>c. bt_get (checkpoints p') j = Some c \<and> pet_state c \<noteq> None)
    \<and> (staged \<noteq> [] \<longrightarrow> (\<exists>c. bt_get (checkpoints p') (fst (last staged)) = Some c \<and> pet_state c = Some (last_staged staged)))"
  using assms
proof (induction staged arbitrary: p acc)
  case (Cons x staged)
  obtain i st v g where x: "x = (i, st, v, g)" by (cases x)
  from Cons.prems(1) obtain old q acc' where y: "install_replayed i st v g p = Some (old, q)"
    and rest: "install_staged staged q acc' = (Inr r, p')"
    by (auto simp: x split: option.splits prod.splits)
  have wf: "session_wf n q" using install_replayed_wf [OF Cons.prems(2) y] by simp
  have bt: "bt_wf (checkpoints p)" using Cons.prems(2) by (simp add: session_wf_def)
  with y have i: "\<exists>c. bt_get (checkpoints q) i = Some c \<and> pet_state c = Some st"
    and other: "\<And>j. j \<noteq> i \<Longrightarrow> bt_get (checkpoints q) j = bt_get (checkpoints p) j"
    by (auto simp: install_replayed_def bt_get_insert split: option.splits)
  note IH = Cons.IH [OF rest wf]
  show ?case
  proof (cases "i \<in> fst ` set staged")
    case True
    then have "staged \<noteq> []" by auto
    with True IH other show ?thesis by (auto simp: x last_staged_def)
  next
    case False
    with IH have "bt_get (checkpoints p') i = bt_get (checkpoints q) i" by blast
    with False IH i other show ?thesis by (auto simp: x last_staged_def)
  qed
qed simp

text \<open>The nodes of a path.\<close>

lemma path_records_ok:
  assumes "path_records b i = Inr records" and "book_wf b"
  shows "book_path b i = Some (Inr (map fst records))" "records \<noteq> []" "fst (last records) = i"
    "\<And>j c. (j, c) \<in> set records \<Longrightarrow> book_lookup b j = Inr c"
proof -
  from assms(1) obtain ids where ids: "book_path b i = Some (Inr ids)"
    and col: "collect_results (\<lambda>i. result_map_err checkpoint_error_of (result_bind (book_lookup b i) (\<lambda>c. Inr (i, c)))) ids
      = Inr records"
    by (auto simp: path_records_def result_bind_def result_map_err_def split: option.splits sum.splits)
  from col have "map fst records = ids \<and> (\<forall>(j, c) \<in> set records. book_lookup b j = Inr c)"
  proof (induction ids arbitrary: records)
    case (Cons j ids)
    then show ?case by (fastforce simp: result_bind_def result_map_err_def split: sum.splits)
  qed simp
  then have fsts: "map fst records = ids" and look: "\<And>j c. (j, c) \<in> set records \<Longrightarrow> book_lookup b j = Inr c" by auto
  have "\<exists>c. book_lookup b i = Inr c" using ids book_path_unknown [of b i] by (cases "book_lookup b i") auto
  then obtain ns where "rooted_path (node_parent b) i ns" "book_path b i = Some (Inr ns)"
    using book_path_lookup [OF assms(2)] by metis
  with ids rooted_path_ends have ids': "ids \<noteq> []" "last ids = i" by fastforce+
  with fsts show ne: "records \<noteq> []" by auto
  show "fst (last records) = i" using last_map [OF ne, of fst] fsts ids'(2) by simp
  show "book_path b i = Some (Inr (map fst records))" using ids fsts by simp
  show "\<And>j c. (j, c) \<in> set records \<Longrightarrow> book_lookup b j = Inr c" by (rule look)
qed

lemma not_dropped: "x \<in> set xs \<Longrightarrow> x \<notin> set (dropWhile P xs) \<Longrightarrow> P x"
  by (induction xs) (auto split: if_splits)

lemma first_missing_drop:
  "(case first_missing records of
      None \<Rightarrow> dropWhile (\<lambda>(j, c). pet_state c \<noteq> None) records = []
    | Some m \<Rightarrow> m < length records \<and> drop m records = dropWhile (\<lambda>(j, c). pet_state c \<noteq> None) records)"
  by (induction records) (auto split: option.splits)

lemma replayed_ids:
  assumes "(if missing = 0 then and_then (replay_first env target (hd records) n) (\<lambda>(state, x). ret (state, [x], 1))
      else ret (the (pet_state (snd (records ! (missing - 1)))), [], missing)) s = (Inr (st0, staged0, first), s1)"
    and "replay_rest env target n (drop first records) c st0 staged0 s2 = (Inr (st, staged), t)"
    and "missing < length records"
  shows "map fst staged = map fst (drop missing records) \<and> staged \<noteq> [] \<and> last_staged staged = st"
proof -
  have ids: "map fst staged0 @ map fst (drop first records) = map fst (drop missing records)
      \<and> (staged0 \<noteq> [] \<longrightarrow> last_staged staged0 = st0)"
  proof (cases "missing = 0")
    case True
    with assms(1) obtain x where x: "replay_first env target (hd records) n s = (Inr (st0, x), s1)"
      and "staged0 = [x]" "first = 1"
      by (auto simp: ret_def elim!: and_thenE split: prod.splits)
    with True assms(3) replay_first_staged [OF x] show ?thesis
      by (cases records) (auto simp: last_staged_def)
  qed (use assms(1) in \<open>auto simp: ret_def\<close>)
  from replay_rest_staged [OF assms(2)] ids assms(3) show ?thesis
    by (metis append_is_Nil_conv drop_eq_Nil linorder_not_less map_is_Nil_conv)
qed

text \<open>What a replay has to restore: the path from its first checkpoint without a handle on.\<close>

lemma lost_records:
  assumes "path_records b i = Inr records" and "book_wf b"
  shows "dropWhile (has_handle b) (map fst records) = map fst (dropWhile (\<lambda>(j, c). pet_state c \<noteq> None) records)"
proof -
  have "book_lookup b (fst x) = Inr (snd x)" if "x \<in> set records" for x
    using path_records_ok(4) [OF assms, of "fst x" "snd x"] that by simp
  then have "dropWhile (has_handle b \<circ> fst) records = dropWhile (\<lambda>(j, c). pet_state c \<noteq> None) records"
    by (intro dropWhile_cong) (auto simp: has_handle_def)
  then show ?thesis by (simp only: dropWhile_map)
qed

lemma the_book_runs: "and_then the_book f s = f (own_book s) s"
  by (simp add: the_book_def gets_def own_book_def and_then_def)

lemma replay_records:
  assumes "replay_checkpoint env i s = (Inr st, t)"
  obtains records where "path_records (own_book s) i = Inr records"
  using assms by (cases "path_records (own_book s) i") (auto simp: replay_checkpoint_def the_book_runs lift_runs)

text \<open>The replay of a path that misses a handle installs what it staged, and nothing else.\<close>

lemma replay_installs:
  assumes run: "replay_checkpoint env i s = (Inr st, t)" and rec: "path_records (own_book s) i = Inr records"
    and missing: "first_missing records = Some m"
  obtains staged r p p' where "active_proof (own_book s) = Some p" and "install_staged staged p [] = (Inr r, p')"
    and "own_book t = own_book s\<lparr>active_proof := Some p'\<rparr>"
    and "map fst staged = map fst (drop m records)" and "staged \<noteq> []" and "last_staged staged = st"
proof -
  let ?tot = "length records - m"
  have m: "m < length records" using first_missing_drop [of records] missing by simp
  from run obtain msg u1 q u2 s1 st0 staged0 first s2 c staged s3 r s4 where
    views: "(progress_now ''pet_replay'' 0 (Some ?tot) msg s :: (err + _) \<times> _) = (Inr (), u1)" "the_proof u1 = (Inr q, u2)"
      "(progress_target (ses_target q) u2 :: (err + _) \<times> _) = (Inr (), s1)"
    and one: "(if m = 0 then and_then (replay_first env (ses_target q) (hd records) ?tot) (\<lambda>(state, x). ret (state, [x], 1))
      else ret (the (pet_state (snd (records ! (m - 1)))), [], m)) s1 = (Inr (st0, staged0, first), s2)"
    and rest: "replay_rest env (ses_target q) ?tot (drop first records) c st0 staged0 s2 = (Inr (st, staged), s3)"
    and inst: "(with_book (install_all staged) s3 :: (err + _) \<times> _) = (Inr (Inr r), s4)" and rel: "release env r s4 = (Inr (), t)"
    unfolding replay_checkpoint_def the_book_runs rec lift_runs missing Let_def option.case
    by (elim and_then_okE case_prod_runE) (auto simp: lift_result_def ret_def intro!: that)
  have "observed s s1"
    using sees.trans [OF obeysD [OF sees.lookups(4) views(1)] sees.trans [OF obeysD [OF sees.lookups(7) views(2)]
        obeysD [OF sees.lookups(5) views(3)]]] .
  moreover have "observed s1 s2"
    using one
    by (auto simp: ret_def sees.refl split: if_splits prod.splits elim!: and_thenE dest: obeysD [OF sees.replay_first])
  moreover have "observed s2 s3" by (rule obeysD [OF sees.replay_rest rest])
  moreover have "observed s4 t" by (rule obeysD [OF sees.cancellation(3) rel])
  ultimately have "own_book s3 = own_book s" "own_book t = own_book s4" by (simp_all add: observed_def)
  with inst have all: "install_all staged (own_book s) = (Inr r, own_book t)"
    by (auto simp: with_book_def own_book_def set_book_def split: prod.splits)
  from views(2) have "active_proof (own_book u1) \<noteq> None"
    by (auto simp: the_proof_def the_book_def gets_def and_then_def own_book_def lift_result_def ok_or_def split: option.splits)
  then obtain p where "active_proof (own_book s) = Some p"
    using obeysD [OF sees.lookups(4) views(1)] by (auto simp: observed_def)
  moreover from this all obtain p' where "install_staged staged p [] = (Inr r, p')"
    "own_book t = own_book s\<lparr>active_proof := Some p'\<rparr>"
    by (auto simp: install_all_def split: prod.splits)
  ultimately show ?thesis using replayed_ids [OF one rest m] that by blast
qed

lemma replay_unneeded:
  assumes "replay_checkpoint env i s = (Inr st, t)" and "path_records (own_book s) i = Inr records"
    and "first_missing records = None"
  shows "t = s \<and> st = the (pet_state (snd (last records)))"
  using assms by (simp add: replay_checkpoint_def the_book_runs lift_runs ret_def)

text \<open>The staged handles, installed in the checkpoints without one, leave no checkpoint of the path without one.\<close>

lemma installed_path:
  assumes wf: "book_wf b" and open_proof: "active_proof b = Some p" and run: "install_staged staged p [] = (Inr r, p')"
    and lost: "map fst staged = dropWhile (has_handle b) ids" and some: "staged \<noteq> []"
  shows "(\<forall>j \<in> set ids. has_handle (b\<lparr>active_proof := Some p'\<rparr>) j)
    \<and> (\<exists>c. book_lookup (b\<lparr>active_proof := Some p'\<rparr>) (last ids) = Inr c \<and> pet_state c = Some (last_staged staged))
    \<and> (\<forall>j. j \<notin> set (dropWhile (has_handle b) ids) \<longrightarrow> book_lookup (b\<lparr>active_proof := Some p'\<rparr>) j = book_lookup b j)"
proof -
  let ?c = "b\<lparr>active_proof := Some p'\<rparr>"
  have "session_wf (book_next b) p" using wf open_proof by (simp add: book_wf_def)
  note handles = install_staged_handles [OF run this]
  have look: "book_lookup ?c j = ok_or Unknown (bt_get (checkpoints p') j)"
    "book_lookup b j = ok_or Unknown (bt_get (checkpoints p) j)" for j
    by (simp_all add: open_proof book_lookup_def)
  have set: "fst ` set staged = set (dropWhile (has_handle b) ids)" using lost by (metis list.set_map)
  have "dropWhile (has_handle b) ids \<noteq> []" using lost some by (metis list.map_disc_iff)
  then have "last (map fst staged) = last ids" using lost by (metis append_Nil2 last_appendR takeWhile_dropWhile_id)
  then have last: "fst (last staged) = last ids" using some by (simp add: last_map)
  have untouched: "book_lookup ?c j = book_lookup b j" if "j \<notin> set (dropWhile (has_handle b) ids)" for j
    using handles that by (simp add: look set)
  have "has_handle ?c j" if "j \<in> set ids" for j
  proof (cases "j \<in> set (dropWhile (has_handle b) ids)")
    case True
    with handles set have "\<exists>c. bt_get (checkpoints p') j = Some c \<and> pet_state c \<noteq> None" by simp
    then show ?thesis by (auto simp: has_handle_def look)
  next
    case False
    from not_dropped [OF that this] untouched [OF this] show ?thesis by (simp add: has_handle_def)
  qed
  moreover have "\<exists>c. book_lookup ?c (last ids) = Inr c \<and> pet_state c = Some (last_staged staged)"
    using handles some last by (auto simp: look)
  ultimately show ?thesis using untouched by blast
qed

text \<open>
  C7. Restoring a checkpoint. When \<open>replay_checkpoint\<close> returns a handle, then every checkpoint on the
  path from the root to the requested one has a handle, the requested one has the returned handle, and
  the proof is otherwise as it was: same target, selection, parents, inputs and completion; the
  checkpoints off the path, and those before the first one whose handle was lost, are untouched.
\<close>

theorem replay_restores_path:
  assumes "replay_checkpoint env i s = (Inr st, t)" and "book_wf (own_book s)"
  shows "\<exists>ids. book_path (own_book s) i = Some (Inr ids) \<and> same_proofs (own_book s) (own_book t)
    \<and> (\<forall>j \<in> set ids. has_handle (own_book t) j)
    \<and> (\<exists>c. book_lookup (own_book t) i = Inr c \<and> pet_state c = Some st)
    \<and> (\<forall>j. j \<notin> set (dropWhile (has_handle (own_book s)) ids)
        \<longrightarrow> book_lookup (own_book t) j = book_lookup (own_book s) j)"
proof -
  let ?b = "own_book s"
  have same: "same_proofs ?b (own_book t)"
    using obeysD [OF reads.replay assms(1)] assms(2) by (simp add: reading_step_def)
  obtain records where rec: "path_records ?b i = Inr records" by (rule replay_records [OF assms(1)])
  note nodes = path_records_ok [OF rec assms(2)]
  let ?ids = "map fst records"
  have i: "last ?ids = i" using nodes(2, 3) by (simp add: last_map)
  show ?thesis
  proof (cases "first_missing records")
    case None
    note t = replay_unneeded [OF assms(1) rec this]
    have "dropWhile (has_handle ?b) ?ids = []"
      using first_missing_drop [of records] by (simp only: lost_records [OF rec assms(2)] None option.case list.map(1))
    then have all: "has_handle ?b j" if "j \<in> set ?ids" for j using not_dropped [OF that] by (metis empty_iff empty_set)
    moreover have "book_lookup ?b i = Inr (snd (last records))"
      using nodes(4) [of i "snd (last records)"] last_in_set [OF nodes(2)] by (simp add: nodes(3) [symmetric])
    moreover have "has_handle ?b i" using all nodes(2) i by (metis last_in_set list.map_disc_iff)
    ultimately show ?thesis using nodes(1) same t by (auto simp: has_handle_def)
  next
    case (Some m)
    from replay_installs [OF assms(1) rec this] obtain staged r p p' where
      p: "active_proof ?b = Some p" "install_staged staged p [] = (Inr r, p')" and t: "own_book t = ?b\<lparr>active_proof := Some p'\<rparr>"
      and staged: "map fst staged = map fst (drop m records)" "staged \<noteq> []" "last_staged staged = st" .
    have "map fst staged = dropWhile (has_handle ?b) ?ids"
      using staged(1) first_missing_drop [of records] Some by (simp add: lost_records [OF rec assms(2)])
    from installed_path [OF assms(2) p this staged(2)] show ?thesis
      using nodes(1) same staged(3) by (auto simp: t [symmetric] i)
  qed
qed

section \<open>Changed artifacts\<close>

lemma no_handles: "book_handles (invalidate_states b) = []"
  by (auto simp: book_handles_def invalidate_states_def bt_map_values_def List.map_filter_def filter_empty_conv
      split: option.splits)

text \<open>The state right after an epoch boundary.\<close>

definition epoch_ended :: "('w, 's) server_scheme \<Rightarrow> bool" where
  "epoch_ended s \<longleftrightarrow> process s = None \<and> book_handles (own_book s) = []
     \<and> (\<forall>o' \<in> set (srv_siblings s). sel_project o' = Some (loaded_key s) \<longrightarrow> book_handles (sel_book o') = [])"

lemma end_epoch_ends:
  "end_epoch s = (r, t) \<Longrightarrow> epoch_ended t \<and> r = Inr () \<and> srv_artifacts t = srv_artifacts s"
  by (auto simp: end_epoch_def and_then_def restart_def take_process_def modify_def invalidate_all_def epoch_ended_def
      invalidate_project_states_def Let_def own_book_def set_book_def no_handles loaded_key_def invalidate_in_def split: if_splits option.splits)

lemma reconcile_file_recorded:
  assumes "reconcile_file env n (k, f) b s = (Inr b', t)"
  shows "\<exists>built. srv_artifacts t = bt_insert f built (srv_artifacts s)
    \<and> (b \<longrightarrow> b') \<and> (\<forall>previous. bt_get (srv_artifacts s) f = Some previous \<and> previous \<noteq> built \<longrightarrow> b')"
proof -
  from assms obtain u1 pj u2 before u3 cached u4 u5 built u6 where
    run: "reject_cancelled env s = (Inr (), u1)" "the_project u1 = ((Inr pj :: err + _), u2)"
      "artifact_fingerprint env pj f u2 = (Inr before, u3)" "artifact f u3 = ((Inr cached :: err + _), u4)"
      "progress_now ''dune_build'' k (Some n) (''building consumer target for '' @ f) u4 = ((Inr () :: err + _), u5)"
      "reconcile_source env pj f u5 = (Inr built, u6)"
      "progress_now ''dune_build'' (k + 1) (Some n) ''consumer target is current'' (u6\<lparr>srv_artifacts := bt_insert f built (srv_artifacts u6)\<rparr>)
        = ((Inr () :: err + _), t)"
    and b': "b' = (b \<or> (case cached of Some previous \<Rightarrow> previous \<noteq> built
                 | None \<Rightarrow> (af_vo before \<noteq> None \<or> af_glob before \<noteq> None) \<and> before \<noteq> built))"
    unfolding reconcile_file_def Let_def prod.case
    apply (elim and_then_okE)
    apply (simp add: attempt_def split: prod.splits sum.splits)
     apply (elim and_then_okE; simp add: throw_def)
    apply (elim and_then_okE)
    apply (simp add: ret_def record_artifact_def modify_def)
    done
  have "observed s u1" "observed u1 u2" "observed u2 u3" "observed u3 u4" "observed u4 u5" "observed u5 u6"
    by (rule obeysD [OF sees.cancellation(1) run(1)] obeysD [OF sees.lookups(1) run(2)] obeysD [OF sees.lookups(3) run(4)]
        obeysD [OF sees.calm_op [OF calm_artifact_fingerprint] run(3)] obeysD [OF sees.lookups(4) run(5)]
        obeysD [OF sees.calm_op [OF calm_reconcile_source] run(6)])+
  then have same: "srv_artifacts u3 = srv_artifacts s" "srv_artifacts u6 = srv_artifacts s"
    by (simp_all add: observed_def)
  have "cached = bt_get (srv_artifacts s) f" using run(4) same(1) by (simp add: artifact_def gets_def)
  moreover have "srv_artifacts t = bt_insert f built (srv_artifacts s)"
    using obeysD [OF sees.lookups(4) run(7)] same(2) by (simp add: observed_def)
  ultimately show ?thesis by (intro exI [of _ built]) (auto simp: b' split: option.splits)
qed

lemma reconcile_files_recorded:
  assumes "for_each (reconcile_file env n) kfs b s = (Inr b', t)" and "bt_wf (srv_artifacts s)" and "distinct (map snd kfs)"
  shows "bt_wf (srv_artifacts t) \<and> (b \<longrightarrow> b')
    \<and> (\<forall>f previous. bt_get (srv_artifacts s) f = Some previous \<and> bt_get (srv_artifacts t) f \<noteq> Some previous \<longrightarrow> b')
    \<and> (\<forall>f. f \<notin> snd ` set kfs \<longrightarrow> bt_get (srv_artifacts t) f = bt_get (srv_artifacts s) f)"
  using assms
proof (induction kfs arbitrary: b s)
  case (Cons kf kfs)
  obtain k f where kf: "kf = (k, f)" by (cases kf)
  with Cons.prems(1) obtain b1 s1 where one: "reconcile_file env n (k, f) b s = (Inr b1, s1)"
    and rest: "for_each (reconcile_file env n) kfs b1 s1 = (Inr b', t)"
    by (auto elim: and_then_okE)
  from reconcile_file_recorded [OF one] obtain built where
    s1: "srv_artifacts s1 = bt_insert f built (srv_artifacts s)" "b \<longrightarrow> b1"
      "\<And>previous. bt_get (srv_artifacts s) f = Some previous \<Longrightarrow> previous \<noteq> built \<Longrightarrow> b1" by blast
  have wf: "bt_wf (srv_artifacts s1)" using Cons.prems(2) by (simp add: s1(1) bt_wf_insert)
  have dist: "distinct (map snd kfs)" "f \<notin> snd ` set kfs" using Cons.prems(3) kf by auto
  note IH = Cons.IH [OF rest wf dist(1)]
  have get: "bt_get (srv_artifacts s1) g = (if g = f then Some built else bt_get (srv_artifacts s) g)" for g
    using Cons.prems(2) by (simp add: s1(1) bt_get_insert)
  have "b'" if "bt_get (srv_artifacts s) g = Some previous" "bt_get (srv_artifacts t) g \<noteq> Some previous" for g previous
  proof (cases "g = f")
    case True
    with IH dist(2) get have "bt_get (srv_artifacts t) g = Some built" by simp
    with that True s1(3) IH show ?thesis by auto
  next
    case False
    with that get IH show ?thesis by metis
  qed
  with IH s1(2) get show ?case by (auto simp: kf)
qed (auto simp: ret_def)

text \<open>
  C8. No stale process survives a changed artifact. When reconciling the artifacts of some files
  succeeds and the snapshot of some file is then not the one that was cached before, the PET process
  has been dropped, and neither the calling connection nor any other connection attached to the
  project holds a handle of it: whatever PET had loaded from the old artifact is gone.
\<close>

theorem changed_artifact_ends_epoch:
  assumes "reconcile_artifacts env files s = (Inr (), t)" and "bt_wf (srv_artifacts s)"
    and "bt_get (srv_artifacts s) f = Some previous" and "bt_get (srv_artifacts t) f \<noteq> Some previous"
  shows "process t = None \<and> book_handles (own_book t) = []
    \<and> (\<forall>o' \<in> set (srv_siblings t). sel_project o' = Some (loaded_key t) \<longrightarrow> book_handles (sel_book o') = [])"
proof -
  let ?unique = "rev (remdups (rev files))"
  from assms(1) obtain b u where loop: "for_each (reconcile_file env (length ?unique)) (zip [0 ..< length ?unique] ?unique) False s = (Inr b, u)"
    and rest: "(if b then end_epoch else ret ()) u = (Inr (), t)"
    unfolding reconcile_artifacts_def Let_def by (elim and_then_okE)
  have "srv_artifacts t = srv_artifacts u" using rest end_epoch_ends [of u] by (auto simp: ret_def split: if_splits)
  then have "b" using reconcile_files_recorded [OF loop assms(2)] assms(3, 4) by fastforce
  with rest end_epoch_ends [of u] have "epoch_ended t" by auto
  then show ?thesis by (simp add: epoch_ended_def)
qed

section \<open>A sample build\<close>

lemma sample_spawn: "dune_spawn (sample_engine_env de) = (\<lambda>args cwd w. (Inr (sample_child (sample_describe args)), w))"
  by (simp add: sample_engine_env_def sample_fs_env_def sample_dune_env_def pet_env.defs dune_env.defs fs_env.defs)

lemma sample_native_build:
  fixes s :: "(unit, 's) sys_scheme"
  assumes "signal s = None"
  shows "\<exists>s'. native_build (sample_engine_env de) sample_pj sample_source None s = (Inr (), s')"
proof -
  have "\<exists>out s'. run_dune (sample_engine_env de) args cwd None build_dir s = (Inr out, s')
    \<and> \<not> no_cancelled out \<and> \<not> no_timed_out out \<and> \<not> no_overflow out \<and> exit_success (no_status out)" for args cwd build_dir
    using assms sample_describe_short [of "dune_args args build_dir"]
    by (simp add: run_dune_def and_then_def ret_def, subst dune_loop.simps)
      (simp add: logged_attempt_def and_then_def attempt_def run_dune_once_def external_def sample_spawn
        sample_child_def wait_for_dune_def gets_def request_scope_active_def
        lift_result_def emit_def modify_def collect_output_def join_reader_def bounded_read_result
        ret_def exit_signal_def exit_success_def)
  then obtain out s' where "run_dune (sample_engine_env de) [''build'', path_str [Normal ''A.vo'']] sample_project None None s = (Inr out, s')"
    "\<not> no_cancelled out" "\<not> no_timed_out out" "\<not> no_overflow out" "exit_success (no_status out)" by blast
  moreover have "project_id sample_pj = sample_project" by (simp add: project_id_def sample_pj_def)
  ultimately show ?thesis
    by (simp add: native_build_def native_build_result_def and_then_def attempt_def map_err_def lift_result_def ret_def
        emit_def modify_def sample_project_facts)
qed

text \<open>The sample's source is built; Dune leaves no artifact.\<close>

definition sample_built :: artifact_fingerprint where
  "sample_built = \<lparr>af_source = sample_text, af_vo = None, af_glob = None\<rparr>"

lemma sample_fingerprint:
  fixes s :: "(unit, 's) sys_scheme"
  shows "artifact_fingerprint (sample_engine_env de) sample_pj ''A.v'' s = (Inr sample_built, s)"
proof -
  have "read_artifact (sample_engine_env de) = (\<lambda>p w. (Inl True, w))"
    by (simp add: sample_engine_env_def fs_env.defs)
  then show ?thesis
    by (simp add: artifact_fingerprint_def and_then_def sample_project_source read_or_def external_def lift_result_def
        artifact_path_def sample_project_facts digest_if_present_def ret_def ok_or_def sample_built_def)
qed

lemma sample_reconcile:
  fixes s :: "(unit, 's) sys_scheme"
  assumes "signal s = None"
  shows "\<exists>s'. reconcile_source (sample_engine_env de) sample_pj ''A.v'' s = (Inr sample_built, s')"
proof -
  have "command_timeout (sample_engine_env de) = None" by (simp add: sample_engine_env_def fs_env.defs)
  with sample_native_build [OF assms, of de] show ?thesis
    by (auto simp: reconcile_source_def and_then_def sample_project_source sample_fingerprint)
qed

theorem changed_artifact_ends_epoch_witness:
  "\<exists>s t :: unit server. reconcile_artifacts (sample_engine_env declarations_de) [''A.v''] s = (Inr (), t)
     \<and> book_handles (own_book s) = [5, 7] \<and> bt_wf (srv_artifacts s)
     \<and> bt_get (srv_artifacts s) ''A.v'' = Some (sample_built\<lparr>af_source := []\<rparr>)
     \<and> bt_get (srv_artifacts t) ''A.v'' = Some sample_built
     \<and> process t = None \<and> book_handles (own_book t) = []"
proof -
  let ?env = "sample_engine_env declarations_de" and ?old = "sample_built\<lparr>af_source := []\<rparr>"
  let ?s = "(sample_server sample_book)\<lparr>srv_artifacts := [(''A.v'', ?old)]\<rparr>"
  let ?g = "update_current_progress ''dune_build'' 0 (Some 1) ''building consumer target for A.v'' (srv_progress ?s)"
  obtain u where u: "reconcile_source ?env sample_pj ''A.v'' (?s\<lparr>srv_progress := ?g\<rparr>) = (Inr sample_built, u)"
    using sample_reconcile [of "?s\<lparr>srv_progress := ?g\<rparr>" declarations_de] by auto
  have art: "srv_artifacts u = [(''A.v'', ?old)]"
    using obeysD [OF sees.calm_op [OF calm_reconcile_source] u] by (simp add: observed_def)
  have old: "?old \<noteq> sample_built" by (simp add: sample_built_def sample_text_def)
  have "\<exists>v. reconcile_file ?env 1 (0, ''A.v'') False ?s = (Inr True, v) \<and> srv_artifacts v = [(''A.v'', sample_built)]"
    using u art old
    by (simp add: reconcile_file_def and_then_def reject_cancelled_def request_cancelled_def when_err_def ret_def
        the_project_def gets_def sample_fingerprint artifact_def bt_get_def progress_now_def modify_def attempt_def
        record_artifact_def)
  then obtain v where v: "reconcile_file ?env 1 (0, ''A.v'') False ?s = (Inr True, v)" "srv_artifacts v = [(''A.v'', sample_built)]"
    by blast
  obtain r t where t: "end_epoch v = (r, t)" by fastforce
  from end_epoch_ends [OF t] v have run: "reconcile_artifacts ?env [''A.v''] ?s = (Inr (), t)"
    and new: "bt_get (srv_artifacts t) ''A.v'' = Some sample_built"
    using t by (simp_all add: reconcile_artifacts_def and_then_def ret_def bt_get_def)
  have facts: "bt_wf (srv_artifacts ?s)" "bt_get (srv_artifacts ?s) ''A.v'' = Some ?old" "book_handles (own_book ?s) = [5, 7]"
    by (simp_all add: bt_wf_def bt_get_def book_handles_def sample_eval List.map_filter_def)
  have "bt_get (srv_artifacts t) ''A.v'' \<noteq> Some ?old" using new old by simp
  from changed_artifact_ends_epoch [OF run facts(1, 2) this] have "process t = None \<and> book_handles (own_book t) = []"
    by (elim conjE) (rule conjI)
  with run new facts show ?thesis by blast
qed

theorem replay_restores_path_witness:
  "replay_checkpoint (sample_engine_env declarations_de) 2 (sample_server sample_book) = (Inr 7, sample_server sample_book)
   \<and> book_wf (own_book (sample_server sample_book))
   \<and> (\<exists>ids. book_path (own_book (sample_server sample_book)) 2 = Some (Inr ids)
        \<and> (\<forall>j \<in> set ids. has_handle (own_book (sample_server sample_book)) j))"
proof -
  let ?s = "sample_server sample_book"
  have path: "book_path sample_book 2 = Some (Inr [1, 2])"
    by (simp add: book_path_def sample_eval path_loop.simps)
  let ?cs = "checkpoints (the (active_proof sample_book))"
  have recs: "path_records sample_book 2 = Inr ?cs"
    by (simp add: path_records_def path) (simp add: sample_eval)
  have live: "first_missing ?cs = None" "pet_state (snd (last ?cs)) = Some 7" by (simp_all add: sample_eval)
  have "sel_book (srv_own ?s) = sample_book" by simp
  with recs live have run: "replay_checkpoint (sample_engine_env declarations_de) 2 ?s = (Inr 7, ?s)"
    by (simp add: replay_checkpoint_def the_book_def view_runs lift_runs ret_def)
  have wf: "book_wf (own_book ?s)" by (simp add: sample_wf)
  from run wf replay_restores_path [OF run wf] show ?thesis by blast
qed

end
