(* ===== verification/Server.thy ===== *)
theory Server
  imports Adapter_Properties
begin

text \<open>
  The MCP side of a connection: the published tool schemas (\<open>rocq-mcp/src/schema.rs\<close>), the resolution of
  relative project paths and \<open>call_tool\<close> (\<open>rocq-mcp/src/server.rs\<close>): bypass for progress queries,
  admission, progress generation, cancellation scope, dispatch, and the projection of the outcome.
\<close>

section \<open>Tool schemas\<close>

definition schema :: "json \<Rightarrow> string list \<Rightarrow> json" where
  "schema p r = json_obj [(''type'', JString ''object''), (''properties'', p), (''required'', JArray (map JString r)),
     (''additionalProperties'', JBool False)]"

definition string_schema :: json where
  "string_schema = json_obj [(''type'', JString ''string''), (''minLength'', json_nat 1)]"

definition declaration_id_schema :: json where
  "declaration_id_schema = json_obj
     [(''type'', JString ''object''),
      (''properties'', json_obj [(''file'', string_schema),
        (''qualified_path'', json_obj [(''type'', JString ''array''), (''items'', string_schema), (''minItems'', json_nat 1)])]),
      (''required'', JArray [JString ''file'', JString ''qualified_path'']), (''additionalProperties'', JBool False)]"

definition timeout_schema :: json where
  "timeout_schema = json_obj [(''type'', JString ''integer''), (''minimum'', json_nat 1),
     (''description'', JString ''Optional deadline in milliseconds, applied independently to each proof fragment.'')]"

definition positive_schema :: json where
  "positive_schema = json_obj [(''type'', JString ''integer''), (''minimum'', json_nat 1)]"

definition natural_schema :: json where
  "natural_schema = json_obj [(''type'', JString ''integer''), (''minimum'', json_nat 0)]"

definition enum_schema :: "string list \<Rightarrow> json" where
  "enum_schema xs = json_obj [(''enum'', JArray (map JString xs))]"

definition bool_schema :: "string \<Rightarrow> json" where
  "bool_schema d = json_obj [(''type'', JString ''boolean''), (''description'', JString d)]"

definition query_schema :: json where
  "query_schema = schema (json_obj
     [(''kind'', enum_schema [''goals'', ''search'', ''about'', ''print'', ''assumptions'', ''dependencies'', ''type'',
         ''notations'', ''locate_symbol'', ''progress'']),
      (''target'', declaration_id_schema), (''at'', declaration_id_schema), (''expression'', string_schema),
      (''pattern'', string_schema),
      (''scope'', enum_schema [''focused'', ''unfocused'', ''shelved'', ''given_up'', ''all'']),
      (''goal_id'', json_obj [(''type'', JString ''array''), (''minItems'', json_nat 1)]),
      (''offset'', natural_schema), (''symbol'', string_schema),
      (''limit'', json_obj [(''type'', JString ''integer''), (''minimum'', json_nat 1), (''maximum'', json_nat 100)]),
      (''generation'', natural_schema), (''diff'', json_obj [(''type'', JString ''boolean'')]),
      (''structured'', bool_schema ''Include structured local contexts in a goals response.'')])
     [''kind'']"

definition attempts_schema :: json where
  "attempts_schema = schema (json_obj
     [(''attempts'', json_obj [(''type'', JString ''array''), (''items'', string_schema), (''minItems'', json_nat 1),
         (''maxItems'', json_nat 20)]),
      (''timeout_ms'', timeout_schema),
      (''trace'', bool_schema ''Include a bounded sentence trace for rejected fragments.''),
      (''structured'', bool_schema ''Include structured goal contexts and semantic goal diffs.'')])
     [''attempts'']"

text \<open>The catalog. The descriptions are taken from the handbook file and not modelled.\<close>

definition tool_definitions :: "(string \<times> json) list" where
  "tool_definitions =
     [(''start'', schema (json_obj [(''project_path'', string_schema)]) [''project_path'']),
      (''list_files'', schema (json_obj []) []),
      (''list_decls'', schema (json_obj [(''file'', string_schema)]) [''file'']),
      (''query'', query_schema),
      (''declare'', schema (json_obj [(''name'', string_schema), (''statement'', string_schema), (''kind'', string_schema),
         (''file'', string_schema)]) [''name'', ''statement'', ''file'']),
      (''prove'', schema (json_obj [(''target'', declaration_id_schema)]) [''target'']),
      (''abandon'', schema (json_obj [(''target'', declaration_id_schema)]) [''target'']),
      (''check'', attempts_schema),
      (''try'', attempts_schema),
      (''rewind'', schema (json_obj [(''steps'', positive_schema), (''checkpoint'', positive_schema)]) [])]"

text \<open>The members that a schema allows and requires.\<close>

definition schema_properties :: "json \<Rightarrow> string list" where
  "schema_properties v = (case Option.bind (json_get v ''properties'') as_object of None \<Rightarrow> [] | Some m \<Rightarrow> map fst m)"

definition schema_required :: "json \<Rightarrow> string list" where
  "schema_required v =
     (case Option.bind (json_get v ''required'') as_array of None \<Rightarrow> [] | Some xs \<Rightarrow> List.map_filter as_str xs)"

lemma schema_parts [simp]:
  "schema_properties (schema (JObject m) r) = map fst m" "schema_required (schema p r) = r"
  by (simp_all add: schema_properties_def schema_required_def schema_def json_obj_def bt_get_def List.map_filter_def comp_def)

definition allows :: "string \<Rightarrow> string list \<Rightarrow> string list \<Rightarrow> bool" where
  "allows name ps rs \<longleftrightarrow> (\<exists>v. (name, v) \<in> set tool_definitions \<and> set (schema_properties v) = set ps \<and> set (schema_required v) = set rs)"

lemma json_obj_schema: "\<exists>m. json_obj kvs = JObject m \<and> fst ` set m = fst ` set kvs"
proof -
  have "fst ` set (foldl (\<lambda>m (k, v). bt_insert k v m) m kvs) = fst ` set m \<union> fst ` set kvs" for m :: "(string, json) btree_map"
  proof (induction kvs arbitrary: m)
    case (Cons x kvs)
    then show ?case by (cases x) (auto simp: bt_insert_keys)
  qed simp
  then show ?thesis by (auto simp: json_obj_def)
qed

lemma schema_keys: "set (schema_properties (schema (json_obj kvs) r)) = fst ` set kvs"
  using json_obj_schema [of kvs] by (metis schema_parts(1) set_map)

lemma schema_empty: "schema_properties (schema (json_obj []) r) = []"
  using schema_keys [of "[]" r] by simp

lemma tool_schemas:
  "allows ''start'' [''project_path''] [''project_path'']" "allows ''list_files'' [] []" "allows ''list_decls'' [''file''] [''file'']"
  "allows ''query'' [''kind'', ''target'', ''at'', ''expression'', ''pattern'', ''scope'', ''goal_id'', ''offset'', ''symbol'',
     ''limit'', ''generation'', ''diff'', ''structured''] [''kind'']"
  "allows ''declare'' [''name'', ''statement'', ''kind'', ''file''] [''name'', ''statement'', ''file'']"
  "allows ''prove'' [''target''] [''target'']" "allows ''abandon'' [''target''] [''target'']"
  "allows ''check'' [''attempts'', ''timeout_ms'', ''trace'', ''structured''] [''attempts'']"
  "allows ''try'' [''attempts'', ''timeout_ms'', ''trace'', ''structured''] [''attempts'']"
  "allows ''rewind'' [''steps'', ''checkpoint''] []"
  unfolding allows_def tool_definitions_def query_schema_def attempts_schema_def
  by (simp_all add: schema_keys schema_empty)

section \<open>Requests match their schema\<close>

text \<open>What an accepted request has looked at.\<close>

definition fits :: "json \<Rightarrow> string list \<Rightarrow> string list \<Rightarrow> bool" where
  "fits args ps rs \<longleftrightarrow> (\<exists>m. args = JObject m \<and> fst ` set m \<subseteq> set ps \<and> set rs \<subseteq> fst ` set m)"

lemma liftedE:
  assumes "and_then (lift_result r) f s = (Inr v, t)"
  obtains x where "r = Inr x" "f x s = (Inr v, t)"
  using assms by (auto simp: lift_result_def and_then_def split: sum.splits prod.splits)

lemma known_fields: "reject_unknown args ps = Inr u \<Longrightarrow> set ps \<subseteq> set qs \<Longrightarrow> fits args qs []"
  by (cases args) (fastforce simp: reject_unknown_def fits_def find_None_iff split: option.splits)+

lemma present_field: "fits args ps rs \<Longrightarrow> json_get args k = Some x \<Longrightarrow> fits args ps (k # rs)"
  by (cases args) (auto simp: fits_def bt_get_def dest!: map_of_SomeD intro: image_eqI [rotated])

lemma required_field: "fits args ps rs \<Longrightarrow> required_string args k = Inr x \<Longrightarrow> fits args ps (k # rs)"
  by (cases "json_get args k") (auto simp: required_string_def intro: present_field split: option.splits if_splits)

lemma step_fits:
  assumes "step_arguments args = Inr x"
  shows "fits args [''attempts'', ''timeout_ms'', ''trace'', ''structured''] [''attempts'']"
proof -
  from assms have "reject_unknown args [''attempts'', ''timeout_ms'', ''trace'', ''structured''] = Inr ()"
    and "\<exists>v. json_get args ''attempts'' = Some v"
    by (auto simp: step_arguments_def result_bind_def attempts_def ok_or_def split: sum.splits option.splits bind_splits)
  then show ?thesis using present_field [OF known_fields] by blast
qed

lemma target_fits: "fits args ps rs \<Longrightarrow> target_argument args = Inr d \<Longrightarrow> fits args ps (''target'' # rs)"
  by (cases "json_get args ''target''") (auto simp: target_argument_def intro: present_field)

lemma list_files_fits: "tool_list_files args s = (Inr v, t) \<Longrightarrow> fits args [] []"
  unfolding tool_list_files_def Let_def
  by (elim liftedE) (rule known_fields [OF _ subset_refl])

lemma list_decls_fits: "tool_list_decls env args s = (Inr v, t) \<Longrightarrow> fits args [''file''] [''file'']"
  unfolding tool_list_decls_def Let_def
  by (elim liftedE) (rule required_field [OF known_fields [OF _ subset_refl]])

lemma prove_fits: "tool_prove env args s = (Inr v, t) \<Longrightarrow> fits args [''target''] [''target'']"
  unfolding tool_prove_def Let_def
  by (elim liftedE) (rule target_fits [OF known_fields [OF _ subset_refl]])

lemma abandon_fits: "tool_abandon env args s = (Inr v, t) \<Longrightarrow> fits args [''target''] [''target'']"
  unfolding tool_abandon_def Let_def
  by (elim liftedE) (rule target_fits [OF known_fields [OF _ subset_refl]])

lemma check_fits: "tool_check env args s = (Inr v, t) \<Longrightarrow> fits args [''attempts'', ''timeout_ms'', ''trace'', ''structured''] [''attempts'']"
  unfolding tool_check_def Let_def
  by (elim liftedE) (rule step_fits)

lemma try_fits: "tool_try env args s = (Inr v, t) \<Longrightarrow> fits args [''attempts'', ''timeout_ms'', ''trace'', ''structured''] [''attempts'']"
  unfolding tool_try_def Let_def
  by (elim liftedE) (rule step_fits)

lemma rewind_fits: "tool_rewind env args s = (Inr v, t) \<Longrightarrow> fits args [''steps'', ''checkpoint''] []"
  unfolding tool_rewind_def Let_def
  by (elim liftedE) (rule known_fields [OF _ subset_refl])

lemma start_fits: "start_project env args s = (Inr v, t) \<Longrightarrow> fits args [''project_path''] [''project_path'']"
  unfolding start_project_def Let_def
  by (elim liftedE) (rule required_field [OF known_fields [OF _ subset_refl]])

lemma declare_fits:
  "tool_declare env args s = (Inr v, t) \<Longrightarrow> fits args [''name'', ''statement'', ''kind'', ''file''] [''statement'', ''file'', ''name'']"
  unfolding tool_declare_def Let_def
  by (elim liftedE) (intro required_field known_fields [OF _ subset_refl])

lemmas tool_fits = list_files_fits list_decls_fits prove_fits abandon_fits check_fits try_fits rewind_fits

lemma kind_fits:
  "fits args ps [] \<Longrightarrow> Option.bind (json_get args ''kind'') as_str = Some k \<Longrightarrow> fits args ps [''kind'']"
  by (cases "json_get args ''kind''") (auto intro: present_field)

definition query_fields :: "string list" where
  "query_fields = [''kind'', ''target'', ''at'', ''expression'', ''pattern'', ''scope'', ''goal_id'', ''offset'', ''symbol'',
     ''limit'', ''generation'', ''diff'', ''structured'']"

lemma goal_arguments_fields: "goal_arguments args = Inr ga \<Longrightarrow> fits args query_fields []"
  unfolding goal_arguments_def
  by (cases "reject_unknown args [''kind'', ''scope'', ''goal_id'', ''offset'', ''diff'', ''structured'']")
    (simp, erule known_fields, simp add: query_fields_def)

lemma query_kinds_fields:
  "query_locate env args s = (Inr v, t) \<Longrightarrow> fits args query_fields []"
  "query_goals env args s = (Inr v, t) \<Longrightarrow> fits args query_fields []"
  "query_about env k args s = (Inr v, t) \<Longrightarrow> fits args query_fields []"
  "query_context env k args s = (Inr v, t) \<Longrightarrow> fits args query_fields []"
  unfolding query_locate_def query_goals_def query_about_def query_context_def Let_def
     apply (elim liftedE, erule known_fields, simp add: query_fields_def)
    apply (elim liftedE, erule goal_arguments_fields)
   apply (elim liftedE, erule known_fields, simp add: query_fields_def)
  apply (elim liftedE, erule known_fields, simp add: query_fields_def)
  done

lemma query_fits:
  assumes "tool_query env args s = (Inr v, t)" shows "fits args query_fields [''kind'']"
proof -
  from assms obtain k where k: "Option.bind (json_get args ''kind'') as_str = Some k"
    and run: "query_locate env args s = (Inr v, t) \<or> query_goals env args s = (Inr v, t)
      \<or> query_about env k args s = (Inr v, t) \<or> query_context env k args s = (Inr v, t)"
    unfolding tool_query_def
    by (elim liftedE) (auto simp: ok_or_def throw_def split: option.splits if_splits)
  from run have "fits args query_fields []"
    by (elim disjE) (erule query_kinds_fields)+
  from kind_fits [OF this k] show ?thesis .
qed

lemma attached_fits:
  assumes "dispatch_attached env name args s = (Inr v, t)"
  shows "\<exists>ps rs. allows name ps rs \<and> fits args ps rs"
proof -
  have reorder: "fits args ps rs \<Longrightarrow> set rs = set rs' \<Longrightarrow> fits args ps rs'" for ps rs rs' by (simp add: fits_def)
  have declared: "tool_declare env args s = (Inr v, t) \<Longrightarrow>
      fits args [''name'', ''statement'', ''kind'', ''file''] [''name'', ''statement'', ''file'']"
    by (rule reorder, erule declare_fits) auto
  from assms consider
      "name = ''list_files''" "tool_list_files args s = (Inr v, t)"
    | "name = ''list_decls''" "tool_list_decls env args s = (Inr v, t)"
    | "name = ''prove''" "tool_prove env args s = (Inr v, t)"
    | "name = ''declare''" "tool_declare env args s = (Inr v, t)"
    | "name = ''abandon''" "tool_abandon env args s = (Inr v, t)"
    | "name = ''check''" "tool_check env args s = (Inr v, t)"
    | "name = ''try''" "tool_try env args s = (Inr v, t)"
    | "name = ''rewind''" "tool_rewind env args s = (Inr v, t)"
    | "name = ''query''" "tool_query env args s = (Inr v, t)"
    unfolding dispatch_attached_def throw_def by (simp split: if_splits)
  then show ?thesis
    by cases (blast intro: tool_schemas tool_schemas(4) [folded query_fields_def] dest: tool_fits declared query_fits)+
qed

lemma close_epoch_ok: "close_epoch m s = (Inr v, t) \<Longrightarrow> m s = (Inr v, t)"
  by (auto simp: close_epoch_def attempt_def throw_def ret_def split: prod.splits sum.splits elim!: and_thenE)

lemma in_request_ok: "in_request env k m s = (Inr v, t) \<Longrightarrow> \<exists>u. m u = (Inr v, t)"
  unfolding in_request_def by (auto elim!: and_thenE dest!: close_epoch_ok)

text \<open>
  C23. Published schemas are what is enforced. A tool call that succeeds was made to a tool of the
  catalog, its arguments were an object, every member of that object is a property of the tool's
  published schema, and every member that the schema requires was there: no call outside the closed
  schema is ever carried out.
\<close>

theorem accepted_arguments_match_schema:
  assumes "dispatch env name args s = (Inr v, t)"
  shows "\<exists>sch m. (name, sch) \<in> set tool_definitions \<and> args = JObject m
    \<and> fst ` set m \<subseteq> set (schema_properties sch) \<and> set (schema_required sch) \<subseteq> fst ` set m"
proof -
  have "\<exists>ps rs. allows name ps rs \<and> fits args ps rs"
  proof (cases "name = ''query'' \<and> Option.bind (json_get args ''kind'') as_str = Some ''progress''")
    case True
    with assms have "\<exists>u. reject_unknown args [''kind'', ''generation''] = Inr u"
      by (auto simp: dispatch_def elim!: and_thenE liftedE)
    then have "fits args query_fields []" by (auto simp: query_fields_def intro: known_fields)
    with True kind_fits tool_schemas(4) show ?thesis by (fold query_fields_def) blast
  next
    case False
    show ?thesis
    proof (cases "name = ''start''")
      case True
      with False assms have "\<exists>u. start_project env args u = (Inr v, t)"
        by (auto simp: dispatch_def elim!: and_thenE)
      with True start_fits tool_schemas(1) show ?thesis by blast
    next
      case other: False
      with False assms obtain k u where "in_request env k (dispatch_attached env name args) u = (Inr v, t)"
        by (auto simp: dispatch_def elim!: and_thenE liftedE)
      from in_request_ok [OF this] attached_fits show ?thesis by blast
    qed
  qed
  then show ?thesis by (auto simp: allows_def fits_def)
qed

section \<open>The project path of \<open>start\<close>\<close>

text \<open>What \<open>Url::parse\<close> and \<open>to_file_path\<close> of the \<open>url\<close> crate say of a URI; the crate is a parameter.\<close>

record uri =
  uri_scheme :: string
  uri_query :: "string option"
  uri_fragment :: "string option"
  uri_path :: "path option"

datatype roots_answer = RootsCancelled | RootsFailed string | Roots "string list"

text \<open>What a call reads of its client: the request metadata, the \<open>roots\<close> capability, the answer to
  \<open>list_roots\<close>, and whether the protocol's cancellation token was set before admission and before the
  worker began; \<open>ROCQ_QUERY_TIMEOUT_SECS\<close> of the environment.\<close>

record client =
  cl_parse_uri :: "string \<Rightarrow> string + uri"
  cl_meta :: "(string, json) btree_map"
  cl_has_roots :: bool
  cl_roots :: roots_answer
  cl_cancelled_waiting :: bool
  cl_cancelled_admitted :: bool
  cl_query_timeout :: "string option"

definition CODEX_SANDBOX_STATE_META :: string where
  "CODEX_SANDBOX_STATE_META = ''codex/sandbox-state-meta''"

definition CODEX_SANDBOX_CWD :: string where
  "CODEX_SANDBOX_CWD = ''sandboxCwd''"

definition local_file_uri_path :: "client \<Rightarrow> string \<Rightarrow> string \<Rightarrow> err + path" where
  "local_file_uri_path cl u source =
     (case cl_parse_uri cl u of
        Inl e \<Rightarrow> Inl (invalid_conf (source @ '' is not a valid URI: '' @ e))
      | Inr p \<Rightarrow>
          (if uri_scheme p \<noteq> ''file''
           then Inl (invalid_conf (source @ '' must be a local file URI, got scheme '' @ quoted (uri_scheme p)))
           else if uri_query p \<noteq> None \<or> uri_fragment p \<noteq> None
           then Inl (invalid_conf (source @ '' must not contain a query or fragment''))
           else case uri_path p of
             None \<Rightarrow> Inl (invalid_conf (source @ '' does not identify a local path on this MCP server''))
           | Some q \<Rightarrow>
               (if \<not> path_is_absolute q then Inl (invalid_conf (source @ '' must identify an absolute path'')) else Inr q)))"

definition codex_sandbox_cwd :: "client \<Rightarrow> err + path option" where
  "codex_sandbox_cwd cl =
     (case bt_get (cl_meta cl) CODEX_SANDBOX_STATE_META of
        None \<Rightarrow> Inr None
      | Some sandbox \<Rightarrow>
          result_bind (ok_or (invalid_conf (''request metadata '' @ quoted CODEX_SANDBOX_STATE_META
              @ '' must contain string field '' @ quoted CODEX_SANDBOX_CWD))
            (Option.bind (as_object sandbox) (\<lambda>m. Option.bind (bt_get m CODEX_SANDBOX_CWD) as_str))) (\<lambda>u.
          result_bind (local_file_uri_path cl u ''client working directory'') (\<lambda>p. Inr (Some p))))"

definition sole_workspace_root :: "client \<Rightarrow> string list \<Rightarrow> err + path" where
  "sole_workspace_root cl uris =
     (case uris of
        [] \<Rightarrow> Inl (invalid_conf ''relative project_path cannot be resolved because the client returned no workspace roots; pass an absolute project_path'')
      | [u] \<Rightarrow> local_file_uri_path cl u ''client workspace root''
      | roots \<Rightarrow> Inl (error_new Ambiguous (''relative project_path is ambiguous because the client returned ''
          @ show_nat (length roots) @ '' workspace roots; pass an absolute project_path'')))"

text \<open>The directory that a relative path is joined to.\<close>

definition start_base :: "client \<Rightarrow> err + path" where
  "start_base cl =
     result_bind (codex_sandbox_cwd cl) (\<lambda>cwd.
     case cwd of
       Some p \<Rightarrow> Inr p
     | None \<Rightarrow>
         (if cl_has_roots cl
          then (case cl_roots cl of
              RootsCancelled \<Rightarrow> Inl (error_new RequestCancelled ''request was cancelled while resolving the client workspace root'')
            | RootsFailed e \<Rightarrow> Inl (invalid_conf (''could not obtain the client workspace root: '' @ e
                @ ''; pass an absolute project_path''))
            | Roots uris \<Rightarrow> sole_workspace_root cl uris)
          else Inl (invalid_conf ''relative project_path requires a client working directory, but this client supplied neither Codex sandbox metadata nor MCP roots; pass an absolute project_path'')))"

text \<open>Whatever is not a well-formed relative path is left for the adapter. Paths are texts in the
  model, so the joined path is valid UTF-8.\<close>

definition resolve_start_project_path :: "client \<Rightarrow> string \<Rightarrow> json \<Rightarrow> err + json" where
  "resolve_start_project_path cl name args =
     (if name \<noteq> ''start'' then Inr args
      else case as_object args of
        None \<Rightarrow> Inr args
      | Some m \<Rightarrow>
          (if list_ex (\<lambda>k. k \<noteq> ''project_path'') (map fst m) then Inr args
           else case Option.bind (bt_get m ''project_path'') as_str of
             None \<Rightarrow> Inr args
           | Some p \<Rightarrow>
               (if p = [] \<or> path_is_absolute (path_of p) then Inr args
                else result_bind (start_base cl) (\<lambda>base.
                  Inr (json_set ''project_path'' (JString (path_str (path_join base (path_of p)))) args)))))"

section \<open>A tool call\<close>

datatype tool_response = Structured json | StructuredError json | ProtocolError string

definition find_tool :: "string \<Rightarrow> json option" where
  "find_tool name = map_of tool_definitions name"

definition query_deadline :: "client \<Rightarrow> string \<Rightarrow> nat option" where
  "query_deadline cl name =
     (if name \<noteq> ''query'' then None
      else case Option.bind (cl_query_timeout cl) parse_usize of
        Some seconds \<Rightarrow> (if 0 < seconds then Some seconds else Some 240)
      | None \<Rightarrow> Some 240)"

text \<open>The watcher of a request without a deadline never reports a timeout.\<close>

definition watched :: "nat option \<Rightarrow> ('w, 'z) engine_env_scheme \<Rightarrow> ('w, 'z) engine_env_scheme" where
  "watched deadline env =
     (if deadline \<noteq> None then env
      else env\<lparr>async_signal := (\<lambda>w. case async_signal env w of (ev, w') \<Rightarrow> (if ev = AsyncTimeout then NoSignal else ev, w'))\<rparr>)"

text \<open>The worker: the request runs inside its own cancellation scope, which ends with it.\<close>

definition run_request ::
  "('w, 'z) engine_env_scheme \<Rightarrow> client \<Rightarrow> string \<Rightarrow> json \<Rightarrow> ('w, 's) server_scheme \<Rightarrow> (err + json) \<times> ('w, 's) server_scheme" where
  "run_request env cl name args s =
     (if cl_cancelled_admitted cl
      then (Inl (error_new RequestCancelled ''request was cancelled before admission''), s)
      else
        (let env' = watched (query_deadline cl name) env;
             (r, t) = dispatch env' name args (s\<lparr>signal := Some new_signal\<rparr>);
             (c, u) = observe_signal env' t;
             timed_out = (case c of Inl (e :: err) \<Rightarrow> False | Inr c \<Rightarrow> request_timed_out c)
         in (if timed_out then Inl (error_new QueryTimeout ''query deadline exceeded'') else r, u\<lparr>signal := signal s\<rparr>)))"

definition tool_outcome :: "('w, 'z) engine_env_scheme \<Rightarrow> err + json \<Rightarrow> tool_response" where
  "tool_outcome env r = (case r of Inr v \<Rightarrow> Structured v | Inl e \<Rightarrow> StructuredError (public_error env e))"

text \<open>The current time, as the progress record reads it.\<close>

definition tick :: "('w, 'z) engine_env_scheme \<Rightarrow> ('w, 's) server_scheme \<Rightarrow> nat \<times> ('w, 's) server_scheme" where
  "tick env s = (case clock env (world s) of (now, w) \<Rightarrow> (now, s\<lparr>world := w\<rparr>))"

text \<open>A call whose worker panics is not modelled: no operation of the model panics.\<close>

definition call_tool ::
  "('w, 'z) engine_env_scheme \<Rightarrow> client \<Rightarrow> string \<Rightarrow> (string, json) btree_map option \<Rightarrow> ('w, 's) server_scheme
   \<Rightarrow> tool_response \<times> ('w, 's) server_scheme" where
  "call_tool env cl name arguments s =
     (if find_tool name = None
      then (ProtocolError ''unknown tool; call tools/list and use one of the returned names'', s)
      else
        (let args = JObject (case arguments of None \<Rightarrow> [] | Some m \<Rightarrow> m) in
         if name = ''query'' \<and> Option.bind (json_get args ''kind'') as_str = Some ''progress''
         then (case tick env s of (now, s) \<Rightarrow> (tool_outcome env (progress_query now (srv_progress s) args), s))
         else case resolve_start_project_path cl name args of
           Inl e \<Rightarrow> (StructuredError (public_error env e), s)
         | Inr args \<Rightarrow>
             (if cl_cancelled_waiting cl
              then (ProtocolError ''request cancelled before admission; retry when ready'', s)
              else
                (let target = (case json_get args ''target'' of Some v \<Rightarrow> Some v | None \<Rightarrow> json_get args ''at'');
                     (now, s) = tick env s;
                     (generation, g) = begin_progress name target now (srv_progress s);
                     (r, s) = run_request env cl name args (s\<lparr>srv_progress := g\<rparr>);
                     (now, s) = tick env s
                 in (tool_outcome env r, s\<lparr>srv_progress := finish_progress generation now r (srv_progress s)\<rparr>)))))"

section \<open>Calls and their progress record\<close>

text \<open>While a call runs, its record stays the running one.\<close>

definition running_step :: "('w, 's) server_scheme \<Rightarrow> ('w, 's) server_scheme \<Rightarrow> bool" where
  "running_step s t \<longleftrightarrow>
     (progress_ok (srv_progress s) \<longrightarrow> progress_ok (srv_progress t))
     \<and> (\<forall>r. pg_record (srv_progress s) = Some r \<and> pg_status r = ''running'' \<longrightarrow>
         pg_generation (srv_progress t) = pg_generation (srv_progress s)
         \<and> (\<exists>r'. pg_record (srv_progress t) = Some r' \<and> pg_status r' = ''running'' \<and> pg_operation r' = pg_operation r))"

lemma running_same: "srv_progress t = srv_progress s \<Longrightarrow> running_step s t"
  by (simp add: running_step_def)

lemma progress_updates [simp]:
  "srv_progress (set_book b s) = srv_progress s" "srv_progress (install_runtime rt s) = srv_progress s"
  "srv_progress (project_runtime pj s) = srv_progress s" "srv_progress (enter k s) = srv_progress s"
  "srv_progress (invalidate_project_states s) = srv_progress s"
  by (auto simp: set_book_def install_runtime_def project_runtime_def enter_def invalidate_project_states_def Let_def
      split: option.splits)

interpretation running: connecting running_step
proof (unfold_locales, goal_cases)
  case (2 s t u)
  then show ?case unfolding running_step_def by metis
next
  case (3 s t)
  then show ?case by (intro running_same kept_fields harmless_kept)
next
  case (4 s ph c n l)
  show ?case
    using progress_ok_call [of "srv_progress s" "CallUpdateCurrent ph c n l"]
    by (auto simp: running_step_def update_current_progress_def update_progress_def)
next
  case (5 s j)
  show ?case
    using progress_ok_call [of "srv_progress s" "CallTarget j"]
    by (auto simp: running_step_def set_progress_target_def)
next
  case (9 s t)
  then show ?case by (intro running_same kept_fields)
qed (simp_all add: running_same)

lemma tick_progress [simp]: "tick env s = (now, t) \<Longrightarrow> srv_progress t = srv_progress s \<and> signal t = signal s"
  by (auto simp: tick_def split: prod.splits)

lemma run_request_running:
  assumes "run_request env cl name args s = (r, t)"
  shows "running_step s t \<and> signal t = signal s"
proof (cases "cl_cancelled_admitted cl")
  case True
  with assms show ?thesis by (simp add: run_request_def running_same)
next
  case False
  let ?env = "watched (query_deadline cl name) env"
  obtain r1 s1 where one: "dispatch ?env name args (s\<lparr>signal := Some new_signal\<rparr>) = (r1, s1)" by fastforce
  obtain c s2 where two: "(observe_signal ?env s1 :: (err + _) \<times> _) = (c, s2)" by fastforce
  from False assms one two have t: "t = s2\<lparr>signal := signal s\<rparr>"
    by (simp add: run_request_def Let_def split: prod.splits)
  have "running_step s (s\<lparr>signal := Some new_signal\<rparr>)" by (simp add: running_same)
  also have "running_step \<dots> s1" by (rule obeysD [OF running.dispatching one])
  finally (running.trans) have "running_step s s1" .
  moreover have "running_step s1 s2" by (rule obeysD [OF running.engine_rules(2) two])
  ultimately have "running_step s s2" by (rule running.trans)
  then show ?thesis by (auto simp: t running_step_def)
qed

lemma finished_status:
  "pg_operation (finished_record now r p) = pg_operation p
   \<and> pg_status (finished_record now r p) = (case r of
        Inr v \<Rightarrow> if json_get v ''error'' = None then ''completed'' else ''failed''
      | Inl e \<Rightarrow> if err_kind e = RequestCancelled then ''cancelled'' else ''failed'')"
  by (auto simp: finished_record_def Let_def split: sum.splits option.splits)

lemma call_tool_admitted:
  fixes s t :: "('w, 's) server_scheme"
  assumes "call_tool env cl name arguments s = (response, t)"
  shows "(srv_progress t = srv_progress s \<and> signal t = signal s)
    \<or> (\<exists>args target now now' g r (s1 :: ('w, 's) server_scheme) s2. signal s1 = signal s
        \<and> begin_progress name target now (srv_progress s) = (g, srv_progress s1)
        \<and> run_request env cl name args s1 = (r, s2)
        \<and> response = tool_outcome env r \<and> srv_progress t = finish_progress g now' r (srv_progress s2) \<and> signal t = signal s2)"
proof (cases "find_tool name = None")
  case True
  with assms show ?thesis by (simp add: call_tool_def)
next
  case known: False
  let ?args = "JObject (case arguments of None \<Rightarrow> [] | Some m \<Rightarrow> m)"
  show ?thesis
  proof (cases "name = ''query'' \<and> Option.bind (json_get ?args ''kind'') as_str = Some ''progress''")
    case True
    with known assms show ?thesis by (auto simp: call_tool_def Let_def dest!: tick_progress split: prod.splits)
  next
    case False
    show ?thesis
    proof (cases "resolve_start_project_path cl name ?args")
      case (Inl e)
      with known False assms show ?thesis by (simp only: call_tool_def Let_def if_False sum.case) simp
    next
      case (Inr args)
      let ?target = "case json_get args ''target'' of Some v \<Rightarrow> Some v | None \<Rightarrow> json_get args ''at''"
      obtain n1 u1 where one: "tick env s = (n1, u1)" by fastforce
      obtain g b where two: "begin_progress name ?target n1 (srv_progress u1) = (g, b)" by fastforce
      obtain r u2 where three: "run_request env cl name args (u1\<lparr>srv_progress := b\<rparr>) = (r, u2)" by fastforce
      obtain n2 u3 where four: "tick env u2 = (n2, u3)" by fastforce
      show ?thesis
      proof (cases "cl_cancelled_waiting cl")
        case True
        with known False Inr assms show ?thesis by (simp only: call_tool_def Let_def if_False if_True sum.case) simp
      next
        case admitted: False
        from known False Inr admitted assms have "response = tool_outcome env r"
          "t = u3\<lparr>srv_progress := finish_progress g n2 r (srv_progress u3)\<rparr>"
          by (simp_all only: call_tool_def Let_def if_False sum.case one two three four prod.case prod.inject)
        with tick_progress [OF one] tick_progress [OF four] two three show ?thesis
          by (intro disjI2 exI [of _ args] exI [of _ ?target] exI [of _ n1] exI [of _ n2] exI [of _ g] exI [of _ r]
              exI [of _ "u1\<lparr>srv_progress := b\<rparr>"] exI [of _ u2]) simp
      qed
    qed
  qed
qed

text \<open>
  C22. The life of a call. However a tool call ends, it leaves the cancellation scope and a well-formed
  progress record: either the record is the one from before, since the call was refused before its
  admission or only asked for progress; or the call has the next generation, the record carries its
  name and is terminal, and its status says what the caller is told: completed for a result,
  failed for a result with an error or for an error, cancelled exactly for a cancelled request.
\<close>

theorem call_settles_progress:
  fixes s t :: "('w, 's) server_scheme"
  assumes "call_tool env cl name arguments s = (response, t)" and "progress_ok (srv_progress s)"
  shows "signal t = signal s \<and> progress_ok (srv_progress t)
    \<and> (srv_progress t = srv_progress s
       \<or> pg_generation (srv_progress t) = saturating_add (pg_generation (srv_progress s)) 1
         \<and> (\<exists>p r. pg_record (srv_progress t) = Some p \<and> pg_operation p = name \<and> response = tool_outcome env r
            \<and> pg_status p = (case r of
                Inr v \<Rightarrow> if json_get v ''error'' = None then ''completed'' else ''failed''
              | Inl e \<Rightarrow> if err_kind e = RequestCancelled then ''cancelled'' else ''failed'')))"
  using call_tool_admitted [OF assms(1)]
proof (elim disjE exE conjE)
  assume "srv_progress t = srv_progress s" "signal t = signal s"
  with assms(2) show ?thesis by simp
next
  fix args target now now' g r and s1 s2 :: "('w, 's) server_scheme"
  assume begun: "signal s1 = signal s" "begin_progress name target now (srv_progress s) = (g, srv_progress s1)"
    and run: "run_request env cl name args s1 = (r, s2)"
    and t: "response = tool_outcome env r" "srv_progress t = finish_progress g now' r (srv_progress s2)" "signal t = signal s2"
  from run_request_running [OF run] have step: "running_step s1 s2" "signal s2 = signal s1" by simp_all
  have ok1: "progress_ok (srv_progress s1)"
    using progress_ok_call [OF assms(2), of "CallBegin name target now"] begun(2) by simp
  with step(1) have "progress_ok (srv_progress s2)" by (simp add: running_step_def)
  from progress_ok_call [OF this, of "CallFinish g now' r"] have ok: "progress_ok (srv_progress t)" by (simp add: t(2))
  from begun(2) have "srv_progress s1 = snd (begin_progress name target now (srv_progress s))"
    "g = fst (begin_progress name target now (srv_progress s))" by simp_all
  then have "\<exists>p. pg_record (srv_progress s1) = Some p \<and> pg_status p = ''running'' \<and> pg_operation p = name"
    and g: "g = saturating_add (pg_generation (srv_progress s)) 1" "pg_generation (srv_progress s1) = g"
    by (simp_all add: begin_progress_def Let_def)
  with step(1) obtain p where "pg_generation (srv_progress s2) = g" "pg_record (srv_progress s2) = Some p" "pg_operation p = name"
    unfolding running_step_def by metis
  with t ok g step(2) begun(1) finished_status [of now' r p] show ?thesis
    by (auto simp: finish_progress_def)
qed

text \<open>A client without workspace roots that asks for a relative project.\<close>

definition sample_client :: client where
  "sample_client = \<lparr>cl_parse_uri = (\<lambda>u. Inr \<lparr>uri_scheme = ''file'', uri_query = None, uri_fragment = None,
       uri_path = Some sample_project\<rparr>),
     cl_meta = [], cl_has_roots = False, cl_roots = RootsCancelled, cl_cancelled_waiting = False,
     cl_cancelled_admitted = True, cl_query_timeout = None\<rparr>"

theorem call_settles_progress_witness:
  "\<exists>t. call_tool (sample_engine_env declarations_de) sample_client ''list_files'' None (sample_server sample_book)
       = (tool_outcome (sample_engine_env declarations_de)
            (Inl (error_new RequestCancelled ''request was cancelled before admission'')), t)
     \<and> progress_ok (srv_progress (sample_server sample_book)) \<and> progress_ok (srv_progress t)
     \<and> pg_generation (srv_progress t) = 1
     \<and> (\<exists>p. pg_record (srv_progress t) = Some p \<and> pg_operation p = ''list_files'' \<and> pg_status p = ''cancelled'')"
proof -
  let ?env = "sample_engine_env declarations_de" and ?s = "sample_server sample_book"
  have clock: "clock ?env = (\<lambda>w. (0, w))"
    by (simp add: sample_engine_env_def sample_fs_env_def sample_dune_env_def scripted_env_def pet_env.defs dune_env.defs fs_env.defs)
  have tool: "find_tool ''list_files'' \<noteq> None" by (simp add: find_tool_def tool_definitions_def)
  have start: "srv_progress ?s = progress_new" by simp
  obtain t where t: "call_tool ?env sample_client ''list_files'' None ?s
       = (tool_outcome ?env (Inl (error_new RequestCancelled ''request was cancelled before admission'')), t)"
    "pg_generation (srv_progress t) = 1"
    "\<exists>p. pg_record (srv_progress t) = Some p \<and> pg_operation p = ''list_files'' \<and> pg_status p = ''cancelled''"
    using tool
    by (simp add: call_tool_def resolve_start_project_path_def sample_client_def tick_def clock begin_progress_def
        run_request_def finish_progress_def finished_record_def Let_def start progress_new_def saturating_add_def checked_add_def)
  have ok: "progress_ok (srv_progress ?s)" by (simp add: progress_ok_def progress_new_def)
  from t ok call_settles_progress [OF t(1) ok] show ?thesis by blast
qed

theorem accepted_arguments_match_schema_witness:
  "\<exists>t. dispatch (sample_engine_env declarations_de) ''abandon'' sample_request (sample_server sample_root_book) = (Inr (json_obj []), t)
     \<and> (\<exists>sch m. (''abandon'', sch) \<in> set tool_definitions \<and> sample_request = JObject m
       \<and> fst ` set m \<subseteq> set (schema_properties sch) \<and> set (schema_required sch) \<subseteq> fst ` set m)"
proof -
  obtain g where "dispatch (sample_engine_env declarations_de) ''abandon'' sample_request (sample_server sample_root_book)
    = close_epoch (dispatch_attached (sample_engine_env declarations_de) ''abandon'' sample_request)
        ((sample_server sample_root_book)\<lparr>srv_progress := g\<rparr>)"
    using sample_dispatch [of "sample_server sample_root_book" "''abandon''" declarations_de sample_request] by auto
  with sample_abandon [OF refl, of declarations_de g] obtain t where
    t: "dispatch (sample_engine_env declarations_de) ''abandon'' sample_request (sample_server sample_root_book) = (Inr (json_obj []), t)"
    by fastforce
  from t accepted_arguments_match_schema [OF t] show ?thesis by blast
qed

end
