(* ===== verification/Startup.thy ===== *)
theory Startup
  imports Server
begin

text \<open>
  The entry points: the command line and environment of \<open>rocq-mcp\<close> (\<open>main.rs\<close>), the sections of the handbook and
  the published catalog (\<open>schema.rs\<close>), \<open>tools/list\<close> (\<open>server.rs\<close>).

  Binding sockets and serving them is \<open>rmcp\<close> and \<open>axum\<close>: \<open>main_plan\<close> says what is served to whom. The reader of
  socket addresses is a parameter.
\<close>

section \<open>Numbers from text\<close>

text \<open>\<open>str::parse::<u64>\<close>: an optional plus, digits, no overflow; the first bad digit or overflow decides.\<close>

fun parse_digits :: "u64 \<Rightarrow> string \<Rightarrow> string + u64" where
  "parse_digits n [] = Inr n"
| "parse_digits n (c # cs) =
     (if \<not> between 48 57 c then Inl ''invalid digit found in string''
      else if 2 ^ 64 \<le> unat n * 10 then Inl ''number too large to fit in target type''
      else (case checked_add (n * 10) (of_nat (byte c - 48)) of
              None \<Rightarrow> Inl ''number too large to fit in target type''
            | Some m \<Rightarrow> parse_digits m cs))"

definition parse_u64 :: "string \<Rightarrow> string + u64" where
  "parse_u64 s =
     (if s = [] then Inl ''cannot parse integer from empty string''
      else if s = ''+'' \<or> s = ''-'' then Inl ''invalid digit found in string''
      else if hd s = CHR ''+'' then parse_digits 0 (tl s)
      else parse_digits 0 s)"

section \<open>The command line\<close>

datatype ip_address = V4 "8 word" "8 word" "8 word" "8 word" | V6 "16 word list"

record socket_address =
  sa_ip :: ip_address
  sa_port :: "16 word"

definition is_loopback :: "ip_address \<Rightarrow> bool" where
  "is_loopback ip = (case ip of V4 a _ _ _ \<Rightarrow> a = 127 | V6 segments \<Rightarrow> segments = [0, 0, 0, 0, 0, 0, 0, 1])"

datatype plan = ShowHelp | ServeStdio "u64 option" | ServeHttp socket_address "u64 option"

text \<open>The loop over the arguments: \<open>None\<close> when help was asked for, otherwise the last \<open>--http\<close> address.\<close>

fun cli_arguments :: "string option \<Rightarrow> string list \<Rightarrow> string + string option option" where
  "cli_arguments http [] = Inr (Some http)"
| "cli_arguments http (arg # args) =
     (if arg = ''--http'' then
        (case args of [] \<Rightarrow> Inl ''--http requires an address'' | address # rest \<Rightarrow> cli_arguments (Some address) rest)
      else if arg = ''--stdio'' then cli_arguments http args
      else if arg = ''-h'' \<or> arg = ''--help'' then Inr None
      else Inl (''unknown argument: '' @ arg))"

text \<open>\<open>std::env::var(..).ok()\<close> of \<open>ROCQ_COMMAND_TIMEOUT_SECS\<close> is \<open>variable\<close>; the timeout is in seconds.\<close>

definition main_plan :: "(string \<Rightarrow> string + socket_address) \<Rightarrow> string list \<Rightarrow> string option \<Rightarrow> string + plan" where
  "main_plan parse_address args variable =
     result_bind (cli_arguments None args) (\<lambda>http.
     case http of
       None \<Rightarrow> Inr ShowHelp
     | Some http \<Rightarrow>
         result_bind (case variable of None \<Rightarrow> Inr None | Some v \<Rightarrow> result_bind (parse_u64 v) (\<lambda>n. Inr (Some n))) (\<lambda>timeout.
         case http of
           None \<Rightarrow> Inr (ServeStdio timeout)
         | Some text \<Rightarrow>
             result_bind (parse_address text) (\<lambda>address.
             if \<not> is_loopback (sa_ip address) then Inl ''HTTP address must be loopback''
             else Inr (ServeHttp address timeout))))"

section \<open>The handbook and the catalog\<close>

text \<open>\<open>None\<close>: the section is missing, a panic. The handbook is the file \<open>COMMANDS.md\<close>.\<close>

definition up_to :: "string \<Rightarrow> string \<Rightarrow> string" where
  "up_to p s = take (case str_find p s of None \<Rightarrow> length s | Some i \<Rightarrow> i) s"

definition handbook_section :: "string \<Rightarrow> string \<Rightarrow> string option" where
  "handbook_section handbook title =
     (let heading = ''## '' @ title @ [CHR 0x0A] in
      map_option (\<lambda>start. trim (up_to ([CHR 0x0A] @ ''## '') (drop (start + length heading) handbook)))
        (str_find heading handbook))"

definition tool_description :: "string \<Rightarrow> string \<Rightarrow> string option" where
  "tool_description handbook name = handbook_section handbook ([CHR 0x60] @ name @ [CHR 0x60])"

definition server_instructions :: "string \<Rightarrow> string option" where
  "server_instructions handbook = handbook_section handbook ''Proof-editing workflow''"

record tool =
  tl_name :: string
  tl_description :: string
  tl_schema :: json
  tl_read_only :: bool
  tl_open_world :: bool

definition annotate :: "string \<Rightarrow> string \<times> json \<Rightarrow> tool option" where
  "annotate handbook entry =
     (case entry of (name, sc) \<Rightarrow>
        map_option (\<lambda>d. \<lparr>tl_name = name, tl_description = d, tl_schema = sc, tl_read_only = reading_tool name,
          tl_open_world = False\<rparr>) (tool_description handbook name))"

definition catalog :: "string \<Rightarrow> tool list option" where
  "catalog handbook = those (map (annotate handbook) tool_definitions)"

text \<open>\<open>tools/list\<close>: everything at once; a cursor is refused. \<open>None\<close> is again the panic.\<close>

definition list_tools :: "string \<Rightarrow> string option option \<Rightarrow> (string + tool list) option" where
  "list_tools handbook request =
     (if (case request of Some (Some _) \<Rightarrow> True | _ \<Rightarrow> False)
      then Some (Inl ''tool catalog is not paginated; omit the cursor and retry'')
      else map_option Inr (catalog handbook))"

definition get_tool :: "string \<Rightarrow> string \<Rightarrow> tool option option" where
  "get_tool handbook name = map_option (find (\<lambda>t. tl_name t = name)) (catalog handbook)"

section \<open>What is shown\<close>

lemma parse_digits_append:
  "parse_digits n (xs @ ys) = result_bind (parse_digits n xs) (\<lambda>m. parse_digits m ys)"
  by (induction xs arbitrary: n) (auto split: option.splits)

lemma decimal_char:
  assumes "d < 10"
  shows "between 48 57 (char_of (48 + d))" "byte (char_of (48 + d)) - 48 = d"
  using assms by (simp_all add: between_def byte_def)

lemma parse_digit:
  assumes "d < 10"
  shows "parse_digits n [char_of (48 + d)] =
    (if unat n * 10 + d < 2 ^ 64 then Inr (of_nat (unat n * 10 + d)) else Inl ''number too large to fit in target type'')"
proof (cases "unat n * 10 < 2 ^ 64")
  case True
  have ten: "unat (n * 10) = unat n * 10"
    using True by (simp add: unat_word_ariths)
  have digit: "unat (of_nat d :: u64) = d"
    using assms by (simp add: unat_of_nat take_bit_nat_eq_self)
  have "n * 10 + of_nat d = (of_nat (unat n * 10 + d) :: u64)" by simp
  then have "checked_add (n * 10) (of_nat d) = (if unat n * 10 + d < 2 ^ 64 then Some (of_nat (unat n * 10 + d)) else None)"
    unfolding checked_add_def ten digit by simp
  with True show ?thesis using decimal_char [OF assms] by simp
next
  case False
  then show ?thesis using decimal_char [OF assms] by simp
qed

lemma parse_shown:
  "parse_digits 0 (show_nat n) = (if n < 2 ^ 64 then Inr (of_nat n) else Inl ''number too large to fit in target type'')"
proof (induction n rule: show_nat.induct)
  case (1 n)
  show ?case
  proof (cases "n < 10")
    case True
    then show ?thesis using parse_digit [of n 0] by (simp add: show_nat.simps [of n])
  next
    case False
    have split: "show_nat n = show_nat (n div 10) @ [char_of (48 + n mod 10)]"
      using False by (simp add: show_nat.simps [of n])
    have n: "n = n div 10 * 10 + n mod 10" by simp
    show ?thesis
    proof (cases "n div 10 < 2 ^ 64")
      case True
      then have "unat (of_nat (n div 10) :: u64) = n div 10" by (simp add: unat_of_nat take_bit_nat_eq_self)
      with True 1 False n show ?thesis
        unfolding split by (simp add: parse_digits_append parse_digit del: parse_digits.simps)
    next
      case big: False
      then have "\<not> n < 2 ^ 64" using n by linarith
      with big 1 False show ?thesis unfolding split by (simp add: parse_digits_append del: parse_digits.simps)
    qed
  qed
qed

lemma show_nat_head: "\<exists>c cs. show_nat n = c # cs \<and> between 48 57 c"
proof (induction n rule: show_nat.induct)
  case (1 n)
  show ?case
  proof (cases "n < 10")
    case True
    then show ?thesis using decimal_char [of n] by (simp add: show_nat.simps [of n])
  next
    case False
    with 1 show ?thesis by (auto simp: show_nat.simps [of n])
  qed
qed

text \<open>
  The command timeout is read exactly: a number printed in decimal, with or without a leading plus, is read back as
  that number when it fits in 64 bits and refused as too large when it does not; it never wraps.
\<close>

theorem timeout_read_exactly:
  "parse_u64 (show_nat n) = (if n < 2 ^ 64 then Inr (of_nat n) else Inl ''number too large to fit in target type'')
   \<and> parse_u64 (CHR ''+'' # show_nat n) = parse_u64 (show_nat n)"
proof -
  obtain c cs where c: "show_nat n = c # cs" "between 48 57 c" using show_nat_head by blast
  have "c \<noteq> CHR ''+'' \<and> c \<noteq> CHR ''-''" using c(2) by (auto simp: between_def byte_def)
  then have "parse_u64 (show_nat n) = parse_digits 0 (show_nat n)"
    "parse_u64 (CHR ''+'' # show_nat n) = parse_digits 0 (show_nat n)"
    using c(1) by (auto simp: parse_u64_def)
  then show ?thesis by (simp only: parse_shown)
qed

lemma main_plan_loopback:
  "main_plan parse args variable = Inr (ServeHttp a t) \<Longrightarrow> is_loopback (sa_ip a)"
  by (auto simp: main_plan_def split: option.splits if_splits)

text \<open>What the last \<open>--http\<close> of a command line gives.\<close>

fun http_argument :: "string option \<Rightarrow> string list \<Rightarrow> string option" where
  "http_argument http (a # b # rest) = (if a = ''--http'' then http_argument (Some b) rest else http_argument http (b # rest))"
| "http_argument http _ = http"

lemma cli_http: "cli_arguments http args = Inr (Some h) \<Longrightarrow> h = http_argument http args"
  by (induction http args rule: http_argument.induct) (auto split: if_splits)

text \<open>
  C24. The server is reachable from its own host only: whatever the arguments, the environment and the reader of
  addresses, HTTP is served on the loopback address that the last \<open>--http\<close> names, or not at all; without \<open>--http\<close> the
  server talks over its standard input and output; and a timeout that cannot be read stops the start.
\<close>

theorem serves_loopback_only:
  assumes "main_plan parse args variable = Inr plan" and "plan \<noteq> ShowHelp"
  shows "(case http_argument None args of
      None \<Rightarrow> (\<exists>t. plan = ServeStdio t)
    | Some text \<Rightarrow> (\<exists>a t. plan = ServeHttp a t \<and> parse text = Inr a \<and> is_loopback (sa_ip a)))
    \<and> (\<forall>v. variable = Some v \<longrightarrow> (\<exists>n. parse_u64 v = Inr n \<and> plan \<noteq> ServeStdio None \<and> (\<forall>a. plan \<noteq> ServeHttp a None)))"
proof -
  from assms obtain h where h: "cli_arguments None args = Inr (Some h)"
    by (auto simp: main_plan_def split: option.splits)
  with cli_http have "h = http_argument None args" by blast
  with h assms show ?thesis
    by (auto simp: main_plan_def split: option.splits if_splits)
qed

theorem serves_loopback_only_witness:
  "main_plan (\<lambda>_. Inr \<lparr>sa_ip = V4 127 0 0 1, sa_port = 80\<rparr>) [''--http'', ''127.0.0.1:80''] (Some ''5'')
   = Inr (ServeHttp \<lparr>sa_ip = V4 127 0 0 1, sa_port = 80\<rparr> (Some 5))
   \<and> is_loopback (V4 127 0 0 1)"
proof -
  have run: "main_plan (\<lambda>_. Inr \<lparr>sa_ip = V4 127 0 0 1, sa_port = 80\<rparr>) [''--http'', ''127.0.0.1:80''] (Some ''5'')
    = Inr (ServeHttp \<lparr>sa_ip = V4 127 0 0 1, sa_port = 80\<rparr> (Some 5))"
    by (simp add: main_plan_def is_loopback_def parse_u64_def between_def byte_def checked_add_def)
  from serves_loopback_only [OF run] run show ?thesis by simp
qed

text \<open>The handbook section of a tool ends before the next heading.\<close>

lemma up_to_stops:
  assumes "p \<noteq> []" shows "\<not> sublist p (up_to p s)"
proof
  assume "sublist p (up_to p s)"
  then obtain x y where xy: "up_to p s = x @ p @ y" by (auto simp: sublist_def)
  show False
  proof (cases "str_find p s")
    case None
    then have "\<not> sublist p s" using str_find_None by blast
    with None xy show False by (auto simp: up_to_def sublist_def)
  next
    case (Some i)
    then have i: "up_to p s = take i s" by (simp add: up_to_def)
    have "length x < i"
      using arg_cong [OF xy, of length] i assms by (cases p) auto
    moreover have "s = x @ p @ y @ drop i s"
      using xy i by (metis append.assoc append_take_drop_id)
    then have "prefix p (drop (length x) s)" by (metis append_eq_conv_conj prefixI)
    ultimately show False using str_find_least [OF Some] by blast
  qed
qed

lemma handbook_section_ends:
  assumes "handbook_section handbook title = Some d"
  shows "\<not> sublist ([CHR 0x0A] @ ''## '') d"
proof
  assume "sublist ([CHR 0x0A] @ ''## '') d"
  moreover obtain s where "d = trim (up_to ([CHR 0x0A] @ ''## '') s)"
    using assms by (auto simp: handbook_section_def Let_def)
  then have "sublist d (up_to ([CHR 0x0A] @ ''## '') s)" using trim_infix by (auto simp: sublist_def)
  ultimately show False using up_to_stops sublist_order.order_trans by blast
qed

end
