(* ===== verification/Pet_Lifeline.thy ===== *)
theory Pet_Lifeline
  imports Pet_Transport
begin

text \<open>
  The birth and the death of PET on Linux (\<open>pet/mod.rs\<close>): the thread that forks the child and then only lives, so
  that the parent-death signal of the kernel is bound to it; the caller that receives the child over a rendezvous
  channel and, when it drops the process, kills and reaps it before it lets the thread go; and the hook that the
  child runs between \<open>fork\<close> and \<open>exec\<close>. Caller, thread, child and the death of the server interleave, so the
  component is a step relation. The drain of the child's standard error is at the end.
\<close>

section \<open>Threads and child\<close>

text \<open>\<open>Gone True\<close>: it ran PET before it ended. Between \<open>Forked\<close> and \<open>Armed\<close> lies the \<open>prctl\<close> of the hook.\<close>

datatype child = Unborn | Forked | Armed | Running | Gone bool

text \<open>\<open>Sending True\<close>: \<open>child_tx.send(Ok(child))\<close> has not met a receiver yet.\<close>

datatype launcher = NotStarted | Spawning | Sending bool | Holding | Finished

datatype caller =
    Building
  | Receiving
  | Owning
  | Dropping
  | JoiningDropped
  | Released
  | JoiningFailed
  | CallFailed
  | Vanished
  | Crashed

record lifeline =
  ln_child :: child
  ln_launcher :: launcher
  ln_caller :: caller
  ln_stopped :: bool
  ln_server :: bool
  ln_signalled :: bool

definition lifeline_init :: lifeline where
  "lifeline_init = \<lparr>ln_child = Unborn, ln_launcher = NotStarted, ln_caller = Building, ln_stopped = False, ln_server = True,
     ln_signalled = False\<rparr>"

text \<open>The kernel ends the creating thread: a child that asked for the signal is killed.\<close>

definition death_signal :: "child \<Rightarrow> child" where
  "death_signal c = (case c of Armed \<Rightarrow> Gone False | Running \<Rightarrow> Gone True | _ \<Rightarrow> c)"

definition launcher_ends :: "lifeline \<Rightarrow> lifeline" where
  "launcher_ends s = s\<lparr>ln_launcher := Finished, ln_child := death_signal (ln_child s),
     ln_signalled := (ln_signalled s \<or> death_signal (ln_child s) \<noteq> ln_child s)\<rparr>"

text \<open>\<open>terminate_child\<close>: killed unless it has ended already, and reaped.\<close>

definition terminate_child :: "lifeline \<Rightarrow> lifeline" where
  "terminate_child s = s\<lparr>ln_child := Gone True\<rparr>"

text \<open>\<open>Drop\<close> of the process and then of its lifeline, up to the join of the thread.\<close>

definition process_dropped :: "lifeline \<Rightarrow> lifeline" where [simp]:
  "process_dropped s = (terminate_child s)\<lparr>ln_caller := Dropping\<rparr>"

definition lifeline_dropped :: "lifeline \<Rightarrow> lifeline" where [simp]:
  "lifeline_dropped s = s\<lparr>ln_caller := JoiningDropped, ln_stopped := True\<rparr>"

section \<open>Steps\<close>

text \<open>The child: the hook asks for the signal, then compares its parent with the server; PET may end at any time.\<close>

inductive child_step :: "lifeline \<Rightarrow> lifeline \<Rightarrow> bool" where
  arm: "ln_child s = Forked \<Longrightarrow> child_step s (s\<lparr>ln_child := Armed\<rparr>)"
| arm_fails: "ln_child s = Forked \<Longrightarrow> child_step s (s\<lparr>ln_child := Gone False\<rparr>)"
| parent_alive: "ln_child s = Armed \<Longrightarrow> ln_server s \<Longrightarrow> child_step s (s\<lparr>ln_child := Running\<rparr>)"
| parent_lost: "ln_child s = Armed \<Longrightarrow> \<not> ln_server s \<Longrightarrow> child_step s (s\<lparr>ln_child := Gone False\<rparr>)"
| exec_fails: "ln_child s = Armed \<Longrightarrow> child_step s (s\<lparr>ln_child := Gone False\<rparr>)"
| exits: "ln_child s = Running \<Longrightarrow> child_step s (s\<lparr>ln_child := Gone True\<rparr>)"

text \<open>The launcher thread: \<open>command.spawn()\<close> returns when the child has run \<open>exec\<close> or failed to; the result is
  sent to the caller, or handled when the caller is gone; then the thread waits for the stop message.\<close>

inductive launcher_step :: "lifeline \<Rightarrow> lifeline \<Rightarrow> bool" where
  forks: "ln_launcher s = Spawning \<Longrightarrow> ln_child s = Unborn \<Longrightarrow> launcher_step s (s\<lparr>ln_child := Forked\<rparr>)"
| fork_fails: "ln_launcher s = Spawning \<Longrightarrow> ln_child s = Unborn \<Longrightarrow> launcher_step s (s\<lparr>ln_launcher := Sending False\<rparr>)"
| panics: "ln_launcher s = Spawning \<Longrightarrow> ln_child s = Unborn \<Longrightarrow> launcher_step s (launcher_ends s)"
| spawned: "ln_launcher s = Spawning \<Longrightarrow> ln_child s = Running \<or> ln_child s = Gone True
    \<Longrightarrow> launcher_step s (s\<lparr>ln_launcher := Sending True\<rparr>)"
| not_spawned: "ln_launcher s = Spawning \<Longrightarrow> ln_child s = Gone False \<Longrightarrow> launcher_step s (s\<lparr>ln_launcher := Sending False\<rparr>)"
| send_child: "ln_launcher s = Sending True \<Longrightarrow> ln_caller s = Receiving
    \<Longrightarrow> launcher_step s (s\<lparr>ln_launcher := Holding, ln_caller := Owning\<rparr>)"
| send_error: "ln_launcher s = Sending False \<Longrightarrow> ln_caller s = Receiving
    \<Longrightarrow> launcher_step s (launcher_ends (s\<lparr>ln_caller := JoiningFailed\<rparr>))"
| nobody_takes_child: "ln_launcher s = Sending True \<Longrightarrow> ln_caller s = Vanished
    \<Longrightarrow> launcher_step s (launcher_ends (terminate_child s))"
| nobody_takes_error: "ln_launcher s = Sending False \<Longrightarrow> ln_caller s = Vanished \<Longrightarrow> launcher_step s (launcher_ends s)"
| stops: "ln_launcher s = Holding \<Longrightarrow> ln_stopped s \<Longrightarrow> launcher_step s (launcher_ends s)"

text \<open>The caller: it starts the thread and waits for the child; a panic makes it vanish with both channel ends;
  \<open>Drop\<close> of the process terminates the child, then drops the lifeline: stop, and join.\<close>

inductive caller_step :: "lifeline \<Rightarrow> lifeline \<Rightarrow> bool" where
  starts: "ln_caller s = Building \<Longrightarrow> caller_step s (s\<lparr>ln_caller := Receiving, ln_launcher := Spawning\<rparr>)"
| no_thread: "ln_caller s = Building \<Longrightarrow> caller_step s (s\<lparr>ln_caller := CallFailed\<rparr>)"
| disconnected: "ln_caller s = Receiving \<Longrightarrow> ln_launcher s = Finished \<Longrightarrow> caller_step s (s\<lparr>ln_caller := JoiningFailed\<rparr>)"
| vanishes: "ln_caller s = Receiving \<Longrightarrow> caller_step s (s\<lparr>ln_caller := Vanished, ln_stopped := True\<rparr>)"
| joined_failed: "ln_caller s = JoiningFailed \<Longrightarrow> ln_launcher s = Finished \<Longrightarrow> caller_step s (s\<lparr>ln_caller := CallFailed\<rparr>)"
| drops: "ln_caller s = Owning \<Longrightarrow> caller_step s (process_dropped s)"
| signals_stop: "ln_caller s = Dropping \<Longrightarrow> caller_step s (lifeline_dropped s)"
| joined: "ln_caller s = JoiningDropped \<Longrightarrow> ln_launcher s = Finished \<Longrightarrow> caller_step s (s\<lparr>ln_caller := Released\<rparr>)"

text \<open>The threads run while the server does; its death ends them all, the launcher among them.\<close>

inductive lifeline_step :: "lifeline \<Rightarrow> lifeline \<Rightarrow> bool" where
  child: "child_step s t \<Longrightarrow> lifeline_step s t"
| launcher: "ln_server s \<Longrightarrow> launcher_step s t \<Longrightarrow> lifeline_step s t"
| caller: "ln_server s \<Longrightarrow> caller_step s t \<Longrightarrow> lifeline_step s t"
| server_dies: "ln_server s \<Longrightarrow> lifeline_step s
    (s\<lparr>ln_server := False, ln_caller := Crashed, ln_launcher := Finished, ln_child := death_signal (ln_child s)\<rparr>)"

inductive lifeline_reachable :: "lifeline \<Rightarrow> bool" where
  initial: "lifeline_reachable lifeline_init"
| step: "lifeline_reachable s \<Longrightarrow> lifeline_step s t \<Longrightarrow> lifeline_reachable t"

inductive_simps child_step_iff: "child_step s t"
inductive_simps launcher_step_iff: "launcher_step s t"
inductive_simps caller_step_iff: "caller_step s t"
inductive_simps lifeline_step_iff: "lifeline_step s t"

lemmas lifeline_steps = lifeline_step_iff child_step_iff launcher_step_iff caller_step_iff

section \<open>The invariant\<close>

text \<open>No process: there never was one, or it has ended.\<close>

definition absent :: "child \<Rightarrow> bool" where
  "absent c \<longleftrightarrow> c \<notin> {Forked, Armed, Running}"

text \<open>Where caller and child can be, by the state of the launcher, while the server is alive.\<close>

fun together :: "launcher \<Rightarrow> caller \<Rightarrow> child \<Rightarrow> bool" where
  "together NotStarted p c \<longleftrightarrow> c = Unborn \<and> p \<in> {Building, CallFailed}"
| "together Spawning p c \<longleftrightarrow> p \<in> {Receiving, Vanished}"
| "together (Sending ok) p c \<longleftrightarrow> (if ok then c \<in> {Running, Gone True} else c \<in> {Unborn, Gone False}) \<and> p \<in> {Receiving, Vanished}"
| "together Holding p c \<longleftrightarrow> (p = Owning \<and> c \<in> {Running, Gone True}) \<or> (p \<in> {Dropping, JoiningDropped} \<and> c = Gone True)"
| "together Finished p c \<longleftrightarrow> absent c \<and> p \<in> {Receiving, JoiningFailed, CallFailed, Vanished, JoiningDropped, Released}"

definition lifeline_inv :: "lifeline \<Rightarrow> bool" where
  "lifeline_inv s \<longleftrightarrow> \<not> ln_signalled s
     \<and> (if ln_server s
        then together (ln_launcher s) (ln_caller s) (ln_child s)
          \<and> (ln_stopped s \<longleftrightarrow> ln_caller s \<in> {Vanished, JoiningDropped, Released})
        else ln_child s \<noteq> Running \<and> ln_launcher s = Finished \<and> ln_caller s = Crashed)"

lemma absent_simps [simp]:
  "absent Unborn" "absent (Gone b)" "\<not> absent Forked" "\<not> absent Armed" "\<not> absent Running"
  by (simp_all add: absent_def)

lemma death_signal_simps [simp]:
  "death_signal Unborn = Unborn" "death_signal Forked = Forked" "death_signal Armed = Gone False"
  "death_signal Running = Gone True" "death_signal (Gone b) = Gone b"
  by (simp_all add: death_signal_def)

lemma death_signal_not_running [simp]: "death_signal c \<noteq> Running"
  by (cases c) simp_all

lemma child_step_inv:
  assumes "child_step s t" and "lifeline_inv s" shows "lifeline_inv t"
  using assms by (cases "ln_launcher s"; cases rule: child_step.cases) (auto simp: lifeline_inv_def split: if_splits)

lemma launcher_step_inv:
  assumes "launcher_step s t" and "ln_server s" and "lifeline_inv s" shows "lifeline_inv t"
  using assms by (cases rule: launcher_step.cases) (auto simp: lifeline_inv_def launcher_ends_def terminate_child_def)

lemma caller_step_inv:
  assumes "caller_step s t" and "ln_server s" and "lifeline_inv s" shows "lifeline_inv t"
  using assms
  by (cases "ln_launcher s"; cases rule: caller_step.cases) (auto simp: lifeline_inv_def terminate_child_def split: if_splits)

lemma lifeline_step_inv:
  assumes "lifeline_step s t" and "lifeline_inv s" shows "lifeline_inv t"
  using assms(1)
proof (cases rule: lifeline_step.cases)
  case server_dies
  then show ?thesis using assms(2) by (simp add: lifeline_inv_def)
qed (use assms(2) in \<open>blast intro: child_step_inv launcher_step_inv caller_step_inv\<close>)+

lemma reachable_inv: "lifeline_reachable s \<Longrightarrow> lifeline_inv s"
proof (induction rule: lifeline_reachable.induct)
  case initial
  show ?case by (simp add: lifeline_inv_def lifeline_init_def)
next
  case (step s t)
  then show ?case by (blast intro: lifeline_step_inv)
qed

text \<open>
  C14. PET lives exactly as long as it should. In every interleaving of the caller, the launcher thread, the child and
  the death of the server: PET never runs without the server, whether the server dies before or after the child asked
  for the death signal; while a caller owns the process, the thread that forked it is alive, so the signal cannot
  hit it; the signal never ends a PET of a living server, since a dropped process is killed and reaped before its
  thread may end; and a caller that was refused or has let go leaves neither a child nor a thread.
\<close>

theorem pet_lives_with_its_owner:
  assumes "lifeline_reachable s"
  shows "(ln_child s = Running \<longrightarrow> ln_server s) \<and> (ln_server s \<and> ln_caller s = Owning \<longrightarrow> ln_launcher s = Holding)
    \<and> \<not> ln_signalled s
    \<and> (ln_caller s \<in> {CallFailed, Released} \<longrightarrow> absent (ln_child s) \<and> ln_launcher s \<in> {NotStarted, Finished})"
  using reachable_inv [OF assms] by (cases "ln_launcher s") (auto simp: lifeline_inv_def split: if_splits)

section \<open>Every life ends\<close>

text \<open>How many steps are left at most: of the child, of the launcher and of the caller.\<close>

fun child_left :: "child \<Rightarrow> nat" where
  "child_left Unborn = 4" | "child_left Forked = 3" | "child_left Armed = 2" | "child_left Running = 1"
| "child_left (Gone _) = 0"

fun launcher_left :: "launcher \<Rightarrow> nat" where
  "launcher_left NotStarted = 4" | "launcher_left Spawning = 3" | "launcher_left (Sending _) = 2"
| "launcher_left Holding = 1" | "launcher_left Finished = 0"

fun caller_left :: "caller \<Rightarrow> nat" where
  "caller_left Building = 6" | "caller_left Receiving = 5" | "caller_left Owning = 4" | "caller_left Dropping = 3"
| "caller_left JoiningDropped = 2" | "caller_left JoiningFailed = 2" | "caller_left Crashed = 0" | "caller_left _ = 1"

definition steps_left :: "lifeline \<Rightarrow> nat" where
  "steps_left s = child_left (ln_child s) + launcher_left (ln_launcher s) + caller_left (ln_caller s)"

text \<open>Nothing moves any more, but that the server may still die.\<close>

definition settled :: "lifeline \<Rightarrow> bool" where
  "settled s \<longleftrightarrow> \<not> (\<exists>t. child_step s t) \<and> (ln_server s \<longrightarrow> \<not> (\<exists>t. launcher_step s t) \<and> \<not> (\<exists>t. caller_step s t))"

lemma death_signal_left: "child_left (death_signal c) \<le> child_left c"
  by (cases c) simp_all

lemma live_caller: "lifeline_inv s \<Longrightarrow> ln_server s \<Longrightarrow> ln_caller s \<noteq> Crashed"
  by (cases "ln_launcher s") (auto simp: lifeline_inv_def)

lemma step_decreases:
  assumes "lifeline_step s t" and "lifeline_inv s"
  shows "steps_left t < steps_left s"
  using assms(1)
proof (cases rule: lifeline_step.cases)
  case child
  then show ?thesis by (cases rule: child_step.cases) (simp_all add: steps_left_def)
next
  case launcher
  from launcher(2) show ?thesis
    using death_signal_left [of "ln_child s"]
    by (cases rule: launcher_step.cases) (auto simp: steps_left_def launcher_ends_def terminate_child_def)
next
  case caller
  from caller(2) show ?thesis
  proof (cases rule: caller_step.cases)
    case starts
    then have "ln_launcher s = NotStarted" using assms(2) caller(1) by (cases "ln_launcher s") (auto simp: lifeline_inv_def)
    then show ?thesis using starts by (simp add: steps_left_def)
  qed (auto simp: steps_left_def terminate_child_def)
next
  case server_dies
  have "0 < caller_left (ln_caller s)"
    using live_caller [OF assms(2) server_dies(2)] by (cases "ln_caller s") simp_all
  then show ?thesis using server_dies(1) death_signal_left [of "ln_child s"] by (simp add: steps_left_def)
qed

lemma settled_gone:
  assumes "lifeline_inv s" and "settled s"
  shows "absent (ln_child s) \<and> ln_launcher s \<in> {NotStarted, Finished}
    \<and> ln_caller s \<in> {Released, CallFailed, Vanished, Crashed}"
proof -
  have quiet: "absent (ln_child s)"
    using assms(2) by (cases "ln_child s") (auto simp: settled_def child_step_iff)
  show ?thesis
  proof (cases "ln_server s")
    case False
    then show ?thesis using assms(1) quiet by (simp add: lifeline_inv_def)
  next
    case True
    then have l: "\<not> launcher_step s t" and c: "\<not> caller_step s t" for t using assms(2) by (auto simp: settled_def)
    have "ln_caller s \<notin> {Building, Owning, Dropping}"
      using c caller_step.starts [of s] caller_step.drops [of s] caller_step.signals_stop [of s] by blast
    moreover have "ln_launcher s = Finished \<Longrightarrow> ln_caller s \<notin> {Receiving, JoiningFailed, JoiningDropped}"
      using c caller_step.disconnected [of s] caller_step.joined_failed [of s] caller_step.joined [of s] by blast
    moreover have "ln_launcher s \<noteq> Spawning"
      using l quiet launcher_step.forks [of s] launcher_step.spawned [of s] launcher_step.not_spawned [of s]
      by (cases "ln_child s") auto
    moreover have "\<not> (ln_launcher s = Sending b \<and> ln_caller s \<in> {Receiving, Vanished})" for b
      using l launcher_step.send_child [of s] launcher_step.send_error [of s] launcher_step.nobody_takes_child [of s]
        launcher_step.nobody_takes_error [of s]
      by (cases b) auto
    moreover have "\<not> (ln_launcher s = Holding \<and> ln_stopped s)"
      using l launcher_step.stops [of s] by blast
    ultimately show ?thesis
      using assms(1) True quiet by (cases "ln_launcher s") (auto simp: lifeline_inv_def)
  qed
qed

text \<open>
  C29. No run of the component goes on for ever and none gets stuck: from the start there are at most fourteen steps,
  and where nothing moves any more, the caller is done, no PET is left and the launcher thread is gone.
\<close>

theorem pet_lifeline_ends:
  assumes "(lifeline_step ^^ n) lifeline_init s"
  shows "n \<le> 14 \<and> (settled s \<longrightarrow> absent (ln_child s) \<and> ln_launcher s \<in> {NotStarted, Finished}
    \<and> ln_caller s \<in> {Released, CallFailed, Vanished, Crashed})"
proof -
  have "lifeline_reachable s \<and> n + steps_left s \<le> 14"
    using assms
  proof (induction n arbitrary: s)
    case 0
    then have "s = lifeline_init" by simp
    then show ?case using lifeline_reachable.initial by (simp add: steps_left_def lifeline_init_def)
  next
    case (Suc n)
    then obtain u where "(lifeline_step ^^ n) lifeline_init u" "lifeline_step u s" by auto
    with Suc.IH have u: "lifeline_reachable u" "n + steps_left u \<le> 14" by auto
    with step_decreases [OF \<open>lifeline_step u s\<close> reachable_inv] show ?case
      by (auto intro: lifeline_reachable.step [OF _ \<open>lifeline_step u s\<close>])
  qed
  then show ?thesis using settled_gone [OF reachable_inv] by auto
qed

text \<open>A whole life: forked, armed, running, handed over, dropped.\<close>

fun steps_along :: "lifeline \<Rightarrow> lifeline list \<Rightarrow> bool" where
  "steps_along s [] \<longleftrightarrow> True"
| "steps_along s (t # ts) \<longleftrightarrow> lifeline_step s t \<and> steps_along t ts"

lemma steps_along_power: "steps_along s ts \<Longrightarrow> (lifeline_step ^^ length ts) s (last (s # ts))"
proof (induction ts arbitrary: s)
  case (Cons t ts)
  then have "lifeline_step s t" "(lifeline_step ^^ length ts) t (last (t # ts))" by auto
  then have "(lifeline_step ^^ Suc (length ts)) s (last (t # ts))" by (rule relpowp_Suc_I2)
  then show ?case by simp
qed simp

lemma steps_along_reachable: "lifeline_reachable s \<Longrightarrow> steps_along s ts \<Longrightarrow> t \<in> set ts \<Longrightarrow> lifeline_reachable t"
  by (induction ts arbitrary: s) (auto intro: lifeline_reachable.step)

definition alive :: "child \<Rightarrow> launcher \<Rightarrow> caller \<Rightarrow> bool \<Rightarrow> lifeline" where
  "alive c l p stopped = \<lparr>ln_child = c, ln_launcher = l, ln_caller = p, ln_stopped = stopped, ln_server = True, ln_signalled = False\<rparr>"

lemma sample_life:
  "steps_along lifeline_init
     [alive Unborn Spawning Receiving False, alive Forked Spawning Receiving False, alive Armed Spawning Receiving False,
      alive Running Spawning Receiving False, alive Running (Sending True) Receiving False, alive Running Holding Owning False,
      alive (Gone True) Holding Dropping False, alive (Gone True) Holding JoiningDropped True,
      alive (Gone True) Finished JoiningDropped True, alive (Gone True) Finished Released True]"
  by (simp add: alive_def lifeline_init_def) (simp add: lifeline_steps launcher_ends_def terminate_child_def)

theorem pet_lives_with_its_owner_witness:
  "ln_launcher (alive Running Holding Owning False) = Holding"
proof -
  have "lifeline_reachable (alive Running Holding Owning False)"
    by (rule steps_along_reachable [OF lifeline_reachable.initial sample_life]) simp
  from pet_lives_with_its_owner [OF this] show ?thesis by (simp add: alive_def)
qed

theorem pet_lifeline_ends_witness: "absent (Gone True) \<and> settled (alive (Gone True) Finished Released True)"
proof -
  have "settled (alive (Gone True) Finished Released True)"
    by (simp add: settled_def alive_def child_step_iff launcher_step_iff caller_step_iff)
  then show ?thesis
    using pet_lifeline_ends [OF steps_along_power [OF sample_life]] by (simp add: alive_def)
qed

section \<open>Diagnostics\<close>

text \<open>The thread that drains the standard error of the child: what each \<open>read\<close> gives, until the end or an error.\<close>

fun drain_stderr :: "(string + string) list \<Rightarrow> string \<Rightarrow> string" where
  "drain_stderr [] t = t"
| "drain_stderr (r # rs) t =
     (case r of
        Inl _ \<Rightarrow> t
      | Inr bytes \<Rightarrow> if bytes = [] then t else drain_stderr rs (stderr_append t bytes))"

definition stderr_text :: "(string \<Rightarrow> string) \<Rightarrow> string \<Rightarrow> string" where
  "stderr_text lossy t = trim (lossy t)"

text \<open>The bytes before the end of the stream.\<close>

definition before_end :: "(string + string) list \<Rightarrow> string list" where
  "before_end rs = map projr (takeWhile (\<lambda>r. \<not> isl r \<and> r \<noteq> Inr []) rs)"

lemma drain_stderr_exact: "drain_stderr rs [] = last_bytes (concat (before_end rs))"
proof -
  have "drain_stderr rs t = foldl stderr_append t (before_end rs)" for t
    by (induction rs arbitrary: t) (auto simp: before_end_def split: sum.splits)
  then show ?thesis by (simp add: stderr_tail_exact)
qed

text \<open>\<open>Display\<close> of an error of the client.\<close>

definition pet_error_text :: "(int \<Rightarrow> string) \<Rightarrow> pet_error \<Rightarrow> string" where
  "pet_error_text show_int e =
     (case e of
        Invalid m \<Rightarrow> ''invalid PET request: '' @ m
      | Environment m \<Rightarrow> ''PET environment failure: '' @ m
      | ProcessLost m \<Rightarrow> ''PET process lost: '' @ m
      | Cancelled \<Rightarrow> ''PET request was cancelled''
      | TimedOut t \<Rightarrow> ''PET proof fragment exceeded '' @ show_nat (unat t) @ '' ms''
      | Protocol m \<Rightarrow> ''PET protocol failure: '' @ m
      | OutputOverflow \<Rightarrow> ''PET response exceeded the output limit''
      | Remote code _ m _ \<Rightarrow> ''PET rejected request ('' @ show_int code @ ''): '' @ m)"

text \<open>The binary of PET: \<open>ROCQ_PET_BIN\<close>, or \<open>pet\<close>.\<close>

definition configured_pet_binary :: "string option \<Rightarrow> string" where
  "configured_pet_binary variable = (case variable of None \<Rightarrow> ''pet'' | Some p \<Rightarrow> p)"

end
