(* ===== verification/Trace_Model.thy ===== *)
theory Trace_Model
  imports Json
begin

text \<open>
  The replayable traces of \<open>crates/rocq-e2e\<close>: the trace language (\<open>model.rs\<close>), its errors
  (\<open>error.rs\<close>), the strict JSONL parser (\<open>parser.rs\<close>, \<open>load_trace\<close> of \<open>lib.rs\<close>) and the comparison of an
  answer with an expectation (\<open>assertion.rs\<close>).

  \<open>serde_json\<close> is the record \<open>serde\<close>: its reader, the text of a derived \<open>Deserialize\<close>'s error, its
  compact printer. The derived \<open>Deserialize\<close> and \<open>Serialize\<close> of the trace types are written out.
\<close>

section \<open>The trace language\<close>

type_synonym user_id = string

record command =
  cmd_tool :: string
  cmd_args :: "(string, json) btree_map"

datatype event =
    Command user_id command json "string option"
  | UserConnect user_id
  | UserDisconnect user_id
  | ServerStart
  | ServerKill

record located_event =
  le_line :: nat
  le_event :: event

datatype trace_error =
    TraceIo string string
  | TraceParse nat string
  | Lifecycle nat string
  | ServerFailure nat string
  | Transport nat user_id string
  | OutputMismatch nat json json
  | InvalidSetup path string

record serde =
  sd_read :: "string \<Rightarrow> string + json"
  sd_message :: "json \<Rightarrow> string"
  sd_print :: "json \<Rightarrow> string"

definition trace_error_text :: "serde \<Rightarrow> trace_error \<Rightarrow> string" where
  "trace_error_text sd e =
     (case e of
        TraceIo operation source \<Rightarrow> operation @ '': '' @ source
      | TraceParse line m \<Rightarrow> ''trace line '' @ show_nat line @ '': '' @ m
      | Lifecycle line m \<Rightarrow> ''trace line '' @ show_nat line @ '': '' @ m
      | ServerFailure line m \<Rightarrow> ''trace line '' @ show_nat line @ '': server: '' @ m
      | Transport line user m \<Rightarrow> ''trace line '' @ show_nat line @ '': user '' @ [CHR 0x27] @ user @ [CHR 0x27] @ '': '' @ m
      | OutputMismatch line expected actual \<Rightarrow>
          ''trace line '' @ show_nat line @ '': output mismatch'' @ [CHR 0x0A] @ ''expected: '' @ sd_print sd expected
            @ [CHR 0x0A] @ ''actual:   '' @ sd_print sd actual
      | InvalidSetup p m \<Rightarrow> ''invalid runner configuration at '' @ path_str p @ '': '' @ m)"

section \<open>Reading events\<close>

text \<open>The derived readers: of a user, of a command (from an object without other members, or from an array by
  position), of an event by its tag.\<close>

definition de_user :: "json \<Rightarrow> user_id option" where
  "de_user v = (case v of JString s \<Rightarrow> if trim s = [] then None else Some s | _ \<Rightarrow> None)"

definition de_command :: "json \<Rightarrow> command option" where
  "de_command v =
     (if (case v of JObject m \<Rightarrow> \<not> set (map fst m) \<subseteq> {''tool'', ''args''} | _ \<Rightarrow> False) then None
      else Option.bind (struct_fields [''tool'', ''args''] v) (\<lambda>field.
        Option.bind (Option.bind (field ''tool'') as_str) (\<lambda>tool.
        Option.bind (Option.bind (field ''args'') as_object) (\<lambda>args.
        Some \<lparr>cmd_tool = tool, cmd_args = args\<rparr>))))"

definition de_command_event :: "(string, json) btree_map \<Rightarrow> event option" where
  "de_command_event m =
     Option.bind (Option.bind (bt_get m ''user'') de_user) (\<lambda>user.
     Option.bind (Option.bind (bt_get m ''command'') de_command) (\<lambda>command.
     Option.bind (bt_get m ''expected'') (\<lambda>expected.
     Option.bind (de_option as_str (bt_get m ''parallel_group'')) (\<lambda>pgroup.
     Some (Command user command expected pgroup)))))"

definition de_event :: "json \<Rightarrow> event option" where
  "de_event v =
     Option.bind (as_object v) (\<lambda>m.
     Option.bind (Option.bind (bt_get m ''event'') as_str) (\<lambda>kind.
     if kind = ''command'' then de_command_event m
     else if kind = ''user_connect'' then map_option UserConnect (Option.bind (bt_get m ''user'') de_user)
     else if kind = ''user_disconnect'' then map_option UserDisconnect (Option.bind (bt_get m ''user'') de_user)
     else if kind = ''server_start'' then Some ServerStart
     else if kind = ''server_kill'' then Some ServerKill
     else None))"

text \<open>The members of each kind of event. \<open>None\<close>: the kind is missing or unknown, which the reader reports.\<close>

definition event_fields :: "string option \<Rightarrow> string list option" where
  "event_fields kind =
     (if kind = Some ''command'' then Some [''event'', ''user'', ''command'', ''expected'', ''parallel_group'']
      else if kind = Some ''user_connect'' \<or> kind = Some ''user_disconnect'' then Some [''event'', ''user'']
      else if kind = Some ''server_start'' \<or> kind = Some ''server_kill'' then Some [''event'']
      else None)"

definition reject_unknown_event_fields :: "nat \<Rightarrow> json \<Rightarrow> trace_error + unit" where
  "reject_unknown_event_fields line v =
     result_bind (ok_or (TraceParse line ''event must be a JSON object'') (as_object v)) (\<lambda>m.
     case event_fields (Option.bind (bt_get m ''event'') as_str) of
       None \<Rightarrow> Inr ()
     | Some allowed \<Rightarrow>
         (case find (\<lambda>k. k \<notin> set allowed) (map fst m) of
            Some k \<Rightarrow> Inl (TraceParse line (''unknown field '' @ [CHR 0x27] @ k @ [CHR 0x27]))
          | None \<Rightarrow> Inr ()))"

definition TOOLS :: "string list" where
  "TOOLS = [''start'', ''list_files'', ''list_decls'', ''query'', ''declare'', ''prove'', ''abandon'', ''check'',
     ''try'', ''rewind'']"

definition validate_command :: "nat \<Rightarrow> command \<Rightarrow> trace_error + unit" where
  "validate_command line c =
     (if trim (cmd_tool c) = [] then Inl (TraceParse line ''command.tool must be a non-empty string'')
      else if cmd_tool c \<notin> set TOOLS
      then Inl (TraceParse line (''unknown command tool '' @ [CHR 0x27] @ cmd_tool c @ [CHR 0x27]))
      else Inr ())"

definition is_object :: "json \<Rightarrow> bool" where
  "is_object v \<longleftrightarrow> as_object v \<noteq> None"

definition alternatives_rejected :: "json \<Rightarrow> string option \<Rightarrow> bool" where
  "alternatives_rejected expected pgroup =
     (case json_get expected ''$one_of'' of
        None \<Rightarrow> False
      | Some alternatives \<Rightarrow>
          pgroup = None
          \<or> (case as_object expected of None \<Rightarrow> True | Some m \<Rightarrow> length m \<noteq> 1)
          \<or> (case as_array alternatives of None \<Rightarrow> True | Some items \<Rightarrow> items = [] \<or> list_ex (\<lambda>i. \<not> is_object i) items))"

definition validate_event :: "nat \<Rightarrow> event \<Rightarrow> trace_error + unit" where
  "validate_event line ev =
     (case ev of
        Command user command expected pgroup \<Rightarrow>
          result_bind (validate_command line command) (\<lambda>_.
          if \<not> is_object expected then Inl (TraceParse line ''expected must be a JSON object'')
          else if (case pgroup of None \<Rightarrow> False | Some g \<Rightarrow> trim g = [])
          then Inl (TraceParse line ''parallel_group must be non-empty'')
          else if alternatives_rejected expected pgroup
          then Inl (TraceParse line
                 ''expected $one_of requires a parallel group and a non-empty array of objects'')
          else Inr ())
      | _ \<Rightarrow> Inr ())"

definition parse_event :: "serde \<Rightarrow> nat \<Rightarrow> string \<Rightarrow> trace_error + event" where
  "parse_event sd line source =
     result_bind (result_map_err (TraceParse line) (sd_read sd source)) (\<lambda>v.
     result_bind (reject_unknown_event_fields line v) (\<lambda>_.
     result_bind (ok_or (TraceParse line (sd_message sd v)) (de_event v)) (\<lambda>ev.
     result_bind (validate_event line ev) (\<lambda>_. Inr ev))))"

section \<open>Reading traces\<close>

text \<open>The loop over the lines that the reader gives; the number of a line counts the blank ones too.\<close>

fun parse_lines :: "serde \<Rightarrow> nat \<Rightarrow> (string + string) list \<Rightarrow> trace_error + located_event list" where
  "parse_lines sd index [] = Inr []"
| "parse_lines sd index (l # ls) =
     result_bind (result_map_err (TraceIo ''read trace'') l) (\<lambda>line.
     if trim line = [] then parse_lines sd (index + 1) ls
     else result_bind (parse_event sd (index + 1) line) (\<lambda>ev.
          result_bind (parse_lines sd (index + 1) ls) (\<lambda>evs.
          Inr (\<lparr>le_line = index + 1, le_event = ev\<rparr> # evs))))"

definition parse_trace :: "serde \<Rightarrow> (string + string) list \<Rightarrow> trace_error + located_event list" where
  "parse_trace sd lines = parse_lines sd 0 lines"

text \<open>\<open>BufRead::lines\<close> on the bytes of a file: each line without its end, an error for a line that is not UTF-8.\<close>

definition without_cr :: "string \<Rightarrow> string" where
  "without_cr s = (if s \<noteq> [] \<and> last s = CHR 0x0D then butlast s else s)"

definition buf_lines :: "string \<Rightarrow> (string + string) list" where
  "buf_lines bytes =
     (let parts = split_char (CHR 0x0A) bytes;
          ended = map without_cr (butlast parts);
          raw = (if last parts = [] then ended else ended @ [last parts])
      in map (\<lambda>l. if utf8 l then Inr l else Inl ''stream did not contain valid UTF-8'') raw)"

definition load_trace :: "serde \<Rightarrow> string + string \<Rightarrow> trace_error + located_event list" where
  "load_trace sd file =
     result_bind (result_map_err (TraceIo ''open trace'') file) (\<lambda>bytes. parse_trace sd (buf_lines bytes))"

section \<open>Writing events\<close>

text \<open>The derived \<open>Serialize\<close>: the tag first, no \<open>parallel_group\<close> when there is none.\<close>

definition command_json :: "command \<Rightarrow> json" where
  "command_json c = json_obj [(''tool'', JString (cmd_tool c)), (''args'', JObject (cmd_args c))]"

definition event_json :: "event \<Rightarrow> json" where
  "event_json ev =
     (case ev of
        Command user command expected pgroup \<Rightarrow>
          json_obj ([(''event'', JString ''command''), (''user'', JString user), (''command'', command_json command),
                     (''expected'', expected)]
                    @ (case pgroup of None \<Rightarrow> [] | Some g \<Rightarrow> [(''parallel_group'', JString g)]))
      | UserConnect user \<Rightarrow> json_obj [(''event'', JString ''user_connect''), (''user'', JString user)]
      | UserDisconnect user \<Rightarrow> json_obj [(''event'', JString ''user_disconnect''), (''user'', JString user)]
      | ServerStart \<Rightarrow> json_obj [(''event'', JString ''server_start'')]
      | ServerKill \<Rightarrow> json_obj [(''event'', JString ''server_kill'')])"

section \<open>Comparing answers\<close>

definition sole_member :: "json \<Rightarrow> string \<Rightarrow> bool" where
  "sole_member v k \<longleftrightarrow> (case v of JObject m \<Rightarrow> length m = 1 | _ \<Rightarrow> False) \<and> json_get v k = Some (JBool True)"

lemma json_member_size: "(k, v) \<in> set m \<Longrightarrow> size v < Suc (size_list (size_prod (\<lambda>_. 0) size) m)"
  by (induction m) auto

lemma json_item_size: "x \<in> set xs \<Longrightarrow> size x < Suc (size_list size xs)"
  by (induction xs) auto

function output_matches :: "json \<Rightarrow> json \<Rightarrow> bool" where
  "output_matches expected actual =
     (if sole_member expected ''$checkpoint'' then (case as_u64 actual of None \<Rightarrow> False | Some c \<Rightarrow> 0 < c)
      else if sole_member expected ''$goal_id'' then (case as_array actual of None \<Rightarrow> False | Some xs \<Rightarrow> xs \<noteq> [])
      else (case (expected, actual) of
              (JObject m, JObject m') \<Rightarrow>
                length m = length m'
                \<and> list_all (\<lambda>(k, v). case bt_get m' k of None \<Rightarrow> False | Some v' \<Rightarrow> output_matches v v') m
            | (JArray xs, JArray ys) \<Rightarrow> length xs = length ys \<and> list_all (\<lambda>(x, y). output_matches x y) (zip xs ys)
            | _ \<Rightarrow> expected = actual))"
  by pat_completeness auto
termination
  by (relation "measure (size \<circ> fst)") (auto dest: json_member_size json_item_size [OF set_zip_leftD])

declare output_matches.simps [simp del]

definition assert_output :: "nat \<Rightarrow> json \<Rightarrow> json \<Rightarrow> trace_error + unit" where
  "assert_output line expected actual =
     (if output_matches expected actual then Inr () else Inl (OutputMismatch line expected actual))"

end
