(* ===== verification/Trace_Format.thy ===== *)
theory Trace_Format
  imports Trace_Model
begin

text \<open>
  What the trace language promises: the comparison of answers against the relation it decides, the lines
  that the parser reads, and the round trip of a written trace.
\<close>

section \<open>Comparing answers\<close>

text \<open>JSON values as \<open>serde_json\<close> keeps them: every object is a \<open>BTreeMap\<close>.\<close>

fun json_wf :: "json \<Rightarrow> bool" where
  "json_wf (JObject m) \<longleftrightarrow> bt_wf m \<and> (\<forall>kv \<in> set m. json_wf (snd kv))"
| "json_wf (JArray xs) \<longleftrightarrow> (\<forall>x \<in> set xs. json_wf x)"
| "json_wf _ \<longleftrightarrow> True"

definition is_marker :: "json \<Rightarrow> bool" where
  "is_marker v \<longleftrightarrow> v = JObject [(''$checkpoint'', JBool True)] \<or> v = JObject [(''$goal_id'', JBool True)]"

fun marker_free :: "json \<Rightarrow> bool" where
  "marker_free (JObject m) \<longleftrightarrow> \<not> is_marker (JObject m) \<and> (\<forall>kv \<in> set m. marker_free (snd kv))"
| "marker_free (JArray xs) \<longleftrightarrow> (\<forall>x \<in> set xs. marker_free x)"
| "marker_free _ \<longleftrightarrow> True"

text \<open>An expectation stands for the values that one gets by filling its markers in.\<close>

inductive stands_for :: "json \<Rightarrow> json \<Rightarrow> bool" where
  any_checkpoint: "0 < n \<Longrightarrow> stands_for (JObject [(''$checkpoint'', JBool True)]) (JNumber (PosInt n))"
| any_goal_id: "xs \<noteq> [] \<Longrightarrow> stands_for (JObject [(''$goal_id'', JBool True)]) (JArray xs)"
| same_members: "\<not> is_marker (JObject m) \<Longrightarrow> list_all2 (rel_prod (=) stands_for) m m' \<Longrightarrow> stands_for (JObject m) (JObject m')"
| same_items: "list_all2 stands_for xs ys \<Longrightarrow> stands_for (JArray xs) (JArray ys)"
| same_null: "stands_for JNull JNull"
| same_bool: "stands_for (JBool b) (JBool b)"
| same_number: "stands_for (JNumber n) (JNumber n)"
| same_string: "stands_for (JString s) (JString s)"
monos prod.rel_mono list.rel_mono

inductive_simps stands_for_simps:
  "stands_for (JObject m) v" "stands_for (JArray xs) v" "stands_for JNull v" "stands_for (JBool b) v"
  "stands_for (JNumber n) v" "stands_for (JString s) v"

lemma sole_member_iff: "sole_member v k \<longleftrightarrow> v = JObject [(k, JBool True)]"
proof (cases v)
  case (JObject m)
  then show ?thesis by (cases m) (auto simp: sole_member_def bt_get_def length_Suc_conv)
qed (simp_all add: sole_member_def)

lemma bt_keys_card: "bt_wf m \<Longrightarrow> card (fst ` set m) = length m"
  using distinct_card [of "map fst m"] by (simp add: bt_wf_def strict_sorted_iff)

text \<open>Two maps of the same size, one's keys among the other's, have their entries side by side.\<close>

lemma members_side_by_side:
  assumes "bt_wf m" and "bt_wf m'"
  shows "length m = length m' \<and> (\<forall>(k, v) \<in> set m. \<exists>v'. bt_get m' k = Some v' \<and> P v v')
    \<longleftrightarrow> list_all2 (rel_prod (=) P) m m'"
proof
  assume "length m = length m' \<and> (\<forall>(k, v) \<in> set m. \<exists>v'. bt_get m' k = Some v' \<and> P v v')"
  then have len: "length m = length m'"
    and get: "\<And>kv. kv \<in> set m \<Longrightarrow> \<exists>v'. bt_get m' (fst kv) = Some v' \<and> P (snd kv) v'" by auto
  then have "fst ` set m \<subseteq> fst ` set m'" by (force dest: bt_get_in_set)
  moreover have "card (fst ` set m) = card (fst ` set m')"
    using len bt_keys_card [OF assms(1)] bt_keys_card [OF assms(2)] by simp
  ultimately have "fst ` set m = fst ` set m'" by (simp add: card_subset_eq)
  then have keys: "map fst m = map fst m'"
    by (intro strict_sorted_equal) (use assms in \<open>simp_all add: bt_wf_def\<close>)
  show "list_all2 (rel_prod (=) P) m m'"
  proof (rule list_all2_all_nthI [OF len])
    fix i assume i: "i < length m"
    then have mem: "m ! i \<in> set m" and mem': "m' ! i \<in> set m'" using len by simp_all
    have key: "fst (m ! i) = fst (m' ! i)" using keys i len by (metis nth_map)
    have "bt_get m' (fst (m ! i)) = Some (snd (m' ! i))"
      using bt_get_iff [OF assms(2), of "fst (m ! i)" "snd (m' ! i)"] mem' key by simp
    with get [OF mem] have "P (snd (m ! i)) (snd (m' ! i))" by simp
    with key show "rel_prod (=) P (m ! i) (m' ! i)" by (simp add: rel_prod_sel)
  qed
next
  assume *: "list_all2 (rel_prod (=) P) m m'"
  then have len: "length m = length m'" by (rule list_all2_lengthD)
  have "\<exists>v'. bt_get m' (fst kv) = Some v' \<and> P (snd kv) v'" if kv: "kv \<in> set m" for kv
  proof -
    obtain i where i: "i < length m" "kv = m ! i" using kv by (auto simp: in_set_conv_nth)
    then have "rel_prod (=) P kv (m' ! i)" using list_all2_nthD [OF * i(1)] by simp
    moreover have "m' ! i \<in> set m'" using i len by simp
    ultimately show ?thesis
      using bt_get_iff [OF assms(2), of "fst kv" "snd (m' ! i)"] by (auto simp: rel_prod_sel)
  qed
  then have "\<exists>v'. bt_get m' k = Some v' \<and> P v v'" if "(k, v) \<in> set m" for k v using that by force
  with len show "length m = length m' \<and> (\<forall>(k, v) \<in> set m. \<exists>v'. bt_get m' k = Some v' \<and> P v v')" by blast
qed

text \<open>The comparison of two objects and of two arrays, below the markers.\<close>

lemma matches_object:
  "\<not> is_marker (JObject m) \<Longrightarrow> output_matches (JObject m) (JObject m') \<longleftrightarrow>
   length m = length m' \<and> (\<forall>(k, v) \<in> set m. \<exists>v'. bt_get m' k = Some v' \<and> output_matches v v')"
  by (subst output_matches.simps)
    (auto simp: sole_member_iff is_marker_def list_all_iff split: option.splits)

lemma matches_array:
  "output_matches (JArray xs) (JArray ys) \<longleftrightarrow> list_all2 output_matches xs ys"
  by (subst output_matches.simps) (auto simp: sole_member_iff list_all2_iff list_all_iff)

lemma matches_marker:
  "output_matches (JObject [(''$checkpoint'', JBool True)]) v \<longleftrightarrow> (\<exists>n. 0 < n \<and> v = JNumber (PosInt n))"
  "output_matches (JObject [(''$goal_id'', JBool True)]) v \<longleftrightarrow> (\<exists>xs. xs \<noteq> [] \<and> v = JArray xs)"
  by (subst output_matches.simps; auto simp: sole_member_iff split: option.splits)+

lemma matches_other:
  "\<not> is_marker (JObject m) \<Longrightarrow> as_object v = None \<Longrightarrow> \<not> output_matches (JObject m) v"
  "as_array v = None \<Longrightarrow> \<not> output_matches (JArray xs) v"
  "output_matches JNull v \<longleftrightarrow> v = JNull" "output_matches (JBool b) v \<longleftrightarrow> v = JBool b"
  "output_matches (JNumber n) v \<longleftrightarrow> v = JNumber n" "output_matches (JString s) v \<longleftrightarrow> v = JString s"
  by (subst output_matches.simps; auto simp: sole_member_iff is_marker_def split: json.splits)+

lemmas matches = matches_object matches_array matches_marker matches_other

lemma marker_cases [consumes 1, case_names checkpoint goal_id]:
  "is_marker v \<Longrightarrow> (v = JObject [(''$checkpoint'', JBool True)] \<Longrightarrow> P)
    \<Longrightarrow> (v = JObject [(''$goal_id'', JBool True)] \<Longrightarrow> P) \<Longrightarrow> P"
  by (auto simp: is_marker_def)

lemma stands_for_marker:
  "is_marker e \<Longrightarrow> output_matches e a \<longleftrightarrow> stands_for e a"
  by (cases rule: marker_cases) (auto simp: matches stands_for_simps is_marker_def)

lemma matches_stands_for:
  "json_wf e \<Longrightarrow> json_wf a \<Longrightarrow> output_matches e a \<longleftrightarrow> stands_for e a"
proof (induction e arbitrary: a)
  case (JArray xs)
  show ?case
  proof (cases a)
    case (JArray ys)
    have "list_all2 output_matches xs ys = list_all2 stands_for xs ys"
      using JArray.IH JArray.prems JArray by (intro list.rel_cong) auto
    then show ?thesis using JArray by (simp add: matches stands_for_simps)
  qed (simp_all add: matches stands_for_simps as_array_def)
next
  case (JObject m)
  show ?case
  proof (cases "is_marker (JObject m)")
    case True
    then show ?thesis by (rule stands_for_marker)
  next
    case no_marker: False
    show ?thesis
    proof (cases a)
      case a: (JObject m')
      have wf: "bt_wf m" "bt_wf m'" using JObject.prems a by simp_all
      have "list_all2 (rel_prod (=) output_matches) m m' = list_all2 (rel_prod (=) stands_for) m m'"
      proof (intro list.rel_cong refl)
        fix x y assume xy: "x \<in> set m" "y \<in> set m'"
        then have "output_matches (snd x) (snd y) \<longleftrightarrow> stands_for (snd x) (snd y)"
          using JObject.IH [of x "snd x" "snd y"] JObject.prems a Basic_BNFs.snds.intros [of x] by auto
        then show "rel_prod (=) output_matches x y = rel_prod (=) stands_for x y" by (simp add: rel_prod_sel)
      qed
      then show ?thesis
        using no_marker a members_side_by_side [OF wf, of output_matches]
        by (auto simp: matches_object [OF no_marker] stands_for_simps is_marker_def)
    qed (use no_marker in \<open>auto simp: matches stands_for_simps is_marker_def as_object_def\<close>)
  qed
qed (auto simp: matches stands_for_simps)

text \<open>Without markers an expectation stands for itself only.\<close>

lemma stands_for_self: "marker_free e \<Longrightarrow> stands_for e a \<longleftrightarrow> a = e"
proof (induction e arbitrary: a)
  case (JArray xs)
  have "list_all2 stands_for xs ys \<longleftrightarrow> ys = xs" for ys
  proof -
    have "list_all2 stands_for xs ys = list_all2 (=) xs ys"
      using JArray by (intro list.rel_cong) auto
    then show ?thesis by (auto simp: list.rel_eq)
  qed
  then show ?case by (auto simp: stands_for_simps)
next
  case (JObject m)
  have "list_all2 (rel_prod (=) stands_for) m m' \<longleftrightarrow> m' = m" for m'
  proof -
    have "list_all2 (rel_prod (=) stands_for) m m' = list_all2 (=) m m'"
    proof (intro list.rel_cong refl)
      fix x y assume "x \<in> set m" "y \<in> set m'"
      then have "stands_for (snd x) (snd y) \<longleftrightarrow> snd y = snd x"
        using JObject.IH [of x "snd x" "snd y"] JObject.prems Basic_BNFs.snds.intros [of x] by auto
      then show "rel_prod (=) stands_for x y = (x = y)" by (auto simp: rel_prod_sel prod_eq_iff)
    qed
    then show ?thesis by (auto simp: list.rel_eq)
  qed
  then show ?case using JObject.prems by (auto simp: stands_for_simps is_marker_def)
qed (auto simp: stands_for_simps)

text \<open>
  C39. The comparison of \<open>assertion.rs\<close> decides the relation \<open>stands_for\<close>: an answer passes exactly when it is
  the expectation with every \<open>$checkpoint\<close> marker replaced by a positive integer and every \<open>$goal_id\<close> marker by a
  non-empty array, member for member and item for item; without markers, exactly when it is the expectation.
\<close>

theorem output_matches_exact:
  assumes "json_wf e" and "json_wf a"
  shows "(output_matches e a \<longleftrightarrow> stands_for e a) \<and> (marker_free e \<longrightarrow> (output_matches e a \<longleftrightarrow> a = e))"
  using matches_stands_for [OF assms] stands_for_self by blast

theorem output_matches_exact_witness:
  "output_matches (JObject [(''checkpoint'', JObject [(''$checkpoint'', JBool True)])])
     (JObject [(''checkpoint'', JNumber (PosInt 7))])"
proof -
  have "stands_for (JObject [(''checkpoint'', JObject [(''$checkpoint'', JBool True)])])
    (JObject [(''checkpoint'', JNumber (PosInt 7))])"
    by (simp add: stands_for_simps is_marker_def)
  then show ?thesis
    using output_matches_exact [of "JObject [(''checkpoint'', JObject [(''$checkpoint'', JBool True)])]"
        "JObject [(''checkpoint'', JNumber (PosInt 7))]"]
    by (simp add: bt_wf_def)
qed

section \<open>Reading what was written\<close>

text \<open>What an event must be for the parser to let it through.\<close>

definition valid_event :: "event \<Rightarrow> bool" where
  "valid_event ev =
     (case ev of
        Command user command expected pgroup \<Rightarrow>
          trim user \<noteq> [] \<and> cmd_tool command \<in> set TOOLS \<and> is_object expected
          \<and> (\<forall>g. pgroup = Some g \<longrightarrow> trim g \<noteq> [])
          \<and> (json_get expected ''$one_of'' \<noteq> None \<longrightarrow>
               pgroup \<noteq> None
               \<and> (\<exists>xs. expected = JObject [(''$one_of'', JArray xs)] \<and> xs \<noteq> [] \<and> list_all is_object xs))
      | UserConnect user \<Rightarrow> trim user \<noteq> []
      | UserDisconnect user \<Rightarrow> trim user \<noteq> []
      | _ \<Rightarrow> True)"

lemma members_keys: "fst ` set (members kvs) = fst ` set kvs"
proof -
  have "fst ` set (foldl (\<lambda>m (k, v). bt_insert k v m) m kvs) = fst ` set m \<union> fst ` set kvs" for m :: "(string, json) btree_map"
  proof (induction kvs arbitrary: m)
    case (Cons x kvs)
    then show ?case by (cases x) (auto simp: bt_insert_keys)
  qed simp
  then show ?thesis by (simp add: members_def)
qed

lemma json_obj_members: "json_obj kvs = JObject (members kvs)"
  by (simp add: json_obj_def members_def)

lemma command_roundtrip: "de_command (command_json c) = Some c"
  by (simp add: de_command_def command_json_def json_obj_members members_keys struct_fields_def)

lemma de_user_Some: "de_user v = Some u \<longleftrightarrow> v = JString u \<and> trim u \<noteq> []"
  by (auto simp: de_user_def split: json.splits)

lemma alternatives_iff:
  "is_object expected \<Longrightarrow>
   alternatives_rejected expected g \<longleftrightarrow>
     json_get expected ''$one_of'' \<noteq> None
     \<and> \<not> (g \<noteq> None \<and> (\<exists>xs. expected = JObject [(''$one_of'', JArray xs)] \<and> xs \<noteq> [] \<and> list_all is_object xs))"
  by (cases expected)
    (auto simp: alternatives_rejected_def is_object_def list_ex_iff list_all_iff bt_get_def length_Suc_conv
      split: option.splits if_splits)

lemma validate_event_iff:
  assumes "de_event v = Some ev"
  shows "validate_event n ev = Inr () \<longleftrightarrow> valid_event ev"
proof (cases ev)
  case (Command user command expected g)
  have tools: "t \<in> set TOOLS \<Longrightarrow> trim t \<noteq> []" for t by (auto simp: TOOLS_def; code_simp)
  from assms Command have "trim user \<noteq> []"
    by (auto simp: de_event_def de_command_event_def de_user_Some bind_eq_Some_conv split: if_splits)
  then show ?thesis
    using tools [of "cmd_tool command"] Command alternatives_iff [of expected g]
    by (auto simp: validate_event_def validate_command_def valid_event_def split: option.splits if_splits)
qed (use assms in \<open>auto simp: validate_event_def valid_event_def de_event_def de_command_event_def de_user_Some
      bind_eq_Some_conv split: if_splits\<close>)

lemma known_fields_pass:
  "event_fields (Option.bind (map_of (rev kvs) ''event'') as_str) = Some allowed \<Longrightarrow> fst ` set kvs \<subseteq> set allowed
   \<Longrightarrow> reject_unknown_event_fields n (json_obj kvs) = Inr ()"
  using members_keys [of kvs]
  by (force simp: reject_unknown_event_fields_def find_None_iff split: option.splits)

lemma event_roundtrip:
  assumes "valid_event ev"
  shows "de_event (event_json ev) = Some ev" "reject_unknown_event_fields n (event_json ev) = Inr ()"
proof -
  show "de_event (event_json ev) = Some ev"
    using assms
    by (cases ev) (auto simp: valid_event_def de_event_def event_json_def de_command_event_def command_roundtrip
        de_user_def de_option_def split: option.splits)
  show "reject_unknown_event_fields n (event_json ev) = Inr ()"
    by (cases ev) (auto simp: event_json_def event_fields_def intro!: known_fields_pass split: option.splits)
qed

lemma parse_event_Inr:
  "parse_event sd n s = Inr ev \<longleftrightarrow>
   (\<exists>v. sd_read sd s = Inr v \<and> reject_unknown_event_fields n v = Inr () \<and> de_event v = Some ev \<and> valid_event ev)"
  using validate_event_iff
  by (cases "sd_read sd s") (auto simp: parse_event_def)

text \<open>The lines of a trace that are not blank, with their numbers.\<close>

definition content_lines :: "nat \<Rightarrow> string list \<Rightarrow> (nat \<times> string) list" where
  "content_lines n texts = filter (\<lambda>(_, s). trim s \<noteq> []) (enumerate n texts)"

definition located :: "serde \<Rightarrow> nat \<times> string \<Rightarrow> located_event \<Rightarrow> bool" where
  "located sd p e \<longleftrightarrow> le_line e = fst p \<and> parse_event sd (fst p) (snd p) = Inr (le_event e)"

lemma content_lines_simps [simp]:
  "content_lines n [] = []"
  "content_lines n (s # ss) = (if trim s = [] then [] else [(n, s)]) @ content_lines (Suc n) ss"
  by (auto simp: content_lines_def)

lemma located_lines:
  "parse_lines sd n (map Inr texts) = Inr evs \<longleftrightarrow> list_all2 (located sd) (content_lines (Suc n) texts) evs"
proof (induction texts arbitrary: n evs)
  case (Cons s texts)
  show ?case
    using Cons.IH [of "Suc n"]
    by (cases evs) (auto simp: located_def list_all2_Cons1 intro!: located_event.equality)
qed auto

lemma parse_lines_readable:
  "parse_lines sd n ls = Inr evs \<Longrightarrow> \<exists>texts. ls = map Inr texts"
proof (induction ls arbitrary: n evs)
  case (Cons l ls)
  then obtain s where l: "l = Inr s" by (cases l) auto
  with Cons.prems obtain evs' where "parse_lines sd (Suc n) ls = Inr evs'" by (auto split: if_splits)
  with Cons.IH obtain texts where "ls = map Inr texts" by blast
  with l have "l # ls = map Inr (s # texts)" by simp
  then show ?case by (intro exI)
qed simp

lemma content_lines_sorted:
  "sorted_wrt (<) (map fst (content_lines n texts)) \<and> (\<forall>p \<in> set (content_lines n texts). n \<le> fst p)"
  by (induction texts arbitrary: n) (auto simp: less_Suc_eq_le dest: bspec intro: Suc_leD, fastforce+)

text \<open>
  A trace is read completely or not at all: \<open>parse_trace\<close> answers a list of events exactly when every line can
  be read and the events are, one for one and with their line numbers, what \<open>parse_event\<close> makes of the lines
  that are not blank. The numbers grow strictly, and every event is a valid one.
\<close>

theorem parse_trace_exact:
  "(parse_trace sd lines = Inr evs \<longleftrightarrow>
     (\<exists>texts. lines = map Inr texts \<and> list_all2 (located sd) (content_lines 1 texts) evs))
   \<and> (parse_trace sd lines = Inr evs \<longrightarrow>
        sorted_wrt (<) (map le_line evs) \<and> list_all (\<lambda>e. valid_event (le_event e)) evs)"
proof -
  have iff: "parse_trace sd lines = Inr evs \<longleftrightarrow>
     (\<exists>texts. lines = map Inr texts \<and> list_all2 (located sd) (content_lines 1 texts) evs)"
    using located_lines [of sd 0 _ evs] parse_lines_readable [of sd 0 lines evs] by (auto simp: parse_trace_def)
  have "sorted_wrt (<) (map le_line evs) \<and> list_all (\<lambda>e. valid_event (le_event e)) evs"
    if "list_all2 (located sd) (content_lines 1 texts) evs" for texts
  proof -
    have "map le_line evs = map fst (content_lines 1 texts)"
      using that by (induction rule: list_all2_induct) (auto simp: located_def)
    moreover have "list_all (\<lambda>e. valid_event (le_event e)) evs"
      using that by (induction rule: list_all2_induct) (auto simp: located_def parse_event_Inr)
    ultimately show ?thesis using content_lines_sorted by simp
  qed
  with iff show ?thesis by blast
qed

text \<open>A printed value that fits on one line: what \<open>serde_json::to_string\<close> gives, which escapes line ends.\<close>

definition one_line :: "string \<Rightarrow> bool" where
  "one_line s \<longleftrightarrow> utf8 s \<and> CHR 0x0A \<notin> set s \<and> trim s \<noteq> [] \<and> last s \<noteq> CHR 0x0D"

definition trace_text :: "serde \<Rightarrow> event list \<Rightarrow> string" where
  "trace_text sd evs = concat (map (\<lambda>ev. sd_print sd (event_json ev) @ [CHR 0x0A]) evs)"

lemma split_trace_lines:
  "\<forall>t \<in> set ts. CHR 0x0A \<notin> set t \<Longrightarrow>
   split_char (CHR 0x0A) (concat (map (\<lambda>t. t @ [CHR 0x0A]) ts)) = ts @ [[]]"
  by (induction ts) (auto simp: split_char_append)

lemma buf_lines_text:
  assumes "\<forall>t \<in> set ts. one_line t"
  shows "buf_lines (concat (map (\<lambda>t. t @ [CHR 0x0A]) ts)) = map Inr ts"
proof -
  have "split_char (CHR 0x0A) (concat (map (\<lambda>t. t @ [CHR 0x0A]) ts)) = ts @ [[]]"
    using assms by (intro split_trace_lines) (simp add: one_line_def)
  moreover have "map without_cr ts = ts"
    using assms by (intro map_idI) (simp add: without_cr_def one_line_def)
  ultimately show ?thesis using assms by (simp add: buf_lines_def one_line_def)
qed

lemma written_lines:
  assumes "list_all2 (\<lambda>t ev. one_line t \<and> (\<forall>n. parse_event sd n t = Inr ev)) ts evs"
  shows "parse_lines sd n (map Inr ts) = Inr (map2 located_event.make [Suc n..<Suc (n + length evs)] evs)"
  using assms
proof (induction arbitrary: n rule: list_all2_induct)
  case (Cons t ts ev evs)
  then show ?case
    by (simp add: one_line_def located_event.make_def upt_conv_Cons del: upt_Suc)
qed simp

text \<open>
  C40. What the derived writers print the parser reads back: a file with one printed event per line is loaded as
  those events, numbered from one, for every list of valid events whose printed text is one line and which
  \<open>serde_json\<close> reads back as the value it printed.
\<close>

theorem trace_roundtrip:
  assumes "\<forall>ev \<in> set evs. valid_event ev"
    and "\<forall>ev \<in> set evs. one_line (sd_print sd (event_json ev))"
    and "\<forall>ev \<in> set evs. sd_read sd (sd_print sd (event_json ev)) = Inr (event_json ev)"
  shows "load_trace sd (Inr (trace_text sd evs)) = Inr (map2 located_event.make [1..<Suc (length evs)] evs)"
proof -
  let ?ts = "map (\<lambda>ev. sd_print sd (event_json ev)) evs"
  have "parse_event sd n (sd_print sd (event_json ev)) = Inr ev" if "ev \<in> set evs" for ev n
    using assms that event_roundtrip [of ev] by (auto simp: parse_event_Inr)
  then have "list_all2 (\<lambda>t ev. one_line t \<and> (\<forall>n. parse_event sd n t = Inr ev)) ?ts evs"
    using assms(2) by (auto simp: list_all2_map1 list.rel_refl_strong intro!: list.rel_refl_strong)
  moreover have "buf_lines (trace_text sd evs) = map Inr ?ts"
    using buf_lines_text [of ?ts] assms(2) by (simp add: trace_text_def comp_def)
  ultimately show ?thesis
    using written_lines [where sd = sd and ts = ?ts and evs = evs and n = 0] by (simp add: load_trace_def parse_trace_def)
qed

definition sample_serde :: serde where
  "sample_serde =
     \<lparr>sd_read = (\<lambda>s. if s = ''up'' then Inr (event_json ServerStart) else Inr (event_json (UserConnect ''ada''))),
      sd_message = (\<lambda>_. ''rejected''),
      sd_print = (\<lambda>v. if v = event_json ServerStart then ''up'' else ''ada'')\<rparr>"

theorem trace_roundtrip_witness:
  "load_trace sample_serde (Inr (trace_text sample_serde [ServerStart, UserConnect ''ada''])) =
   Inr [\<lparr>le_line = 1, le_event = ServerStart\<rparr>, \<lparr>le_line = 2, le_event = UserConnect ''ada''\<rparr>]"
proof -
  have "event_json (UserConnect ''ada'') \<noteq> event_json ServerStart" by code_simp
  moreover have "one_line ''up'' \<and> one_line ''ada''" by code_simp
  moreover have "trim ''ada'' \<noteq> []" by code_simp
  ultimately show ?thesis
    using trace_roundtrip [of "[ServerStart, UserConnect ''ada'']" sample_serde]
    by (simp add: sample_serde_def valid_event_def located_event.make_def upt_rec)
qed

end
