(* ===== verification/Trace_Runner.thy ===== *)
theory Trace_Runner
  imports Trace_Model Rust_Fs
begin

text \<open>
  The trace runner of \<open>crates/rocq-e2e\<close>: the controller of the server process (\<open>server.rs\<close>), one MCP
  session per user (\<open>client.rs\<close>), the execution of the five events (\<open>runner.rs\<close>) and the entry points
  (\<open>lib.rs\<close>, \<open>bin/rocq-trace.rs\<close>).

  Processes, sockets, clock and MCP sessions are calls on the world, the fields of \<open>harness\<close>. Children and
  sessions are named by numbers. Durations are nanoseconds. The state keeps a \<open>log\<close> of the children and
  sessions that were opened and ended (also by a destructor) and of the answers received. The loop that
  waits for the listener is a \<open>partial_function\<close>: an operation answers \<open>None\<close> when it does not return.
\<close>

section \<open>Configuration and environment\<close>

record server_config =
  sc_executable :: path
  sc_working_dir :: path
  sc_startup_timeout :: nat
  sc_transport_timeout :: nat
  sc_call_timeout :: "nat option"

text \<open>What a call with an optional deadline gives: the deadline passed, it failed, or it is done.\<close>

datatype 'a outcome = Elapsed | Failed string | Done 'a

record 'w harness =
  hx_is_file :: "path \<Rightarrow> 'w \<Rightarrow> bool \<times> 'w"
  hx_is_dir :: "path \<Rightarrow> 'w \<Rightarrow> bool \<times> 'w"
  hx_current_dir :: "'w \<Rightarrow> (string + path) \<times> 'w"
  hx_reserve :: "'w \<Rightarrow> (string + string) \<times> 'w"
  hx_spawn :: "path \<Rightarrow> string list \<Rightarrow> path \<Rightarrow> 'w \<Rightarrow> (string + nat) \<times> 'w"
  hx_reachable :: "string \<Rightarrow> 'w \<Rightarrow> bool \<times> 'w"
  hx_try_wait :: "nat \<Rightarrow> 'w \<Rightarrow> (string + string option) \<times> 'w"
  hx_kill :: "nat \<Rightarrow> 'w \<Rightarrow> (string + unit) \<times> 'w"
  hx_wait :: "nat \<Rightarrow> 'w \<Rightarrow> 'w"
  hx_drop_child :: "nat \<Rightarrow> 'w \<Rightarrow> 'w"
  hx_now :: "'w \<Rightarrow> nat \<times> 'w"
  hx_sleep :: "nat \<Rightarrow> 'w \<Rightarrow> 'w"
  hx_connect :: "string \<Rightarrow> nat \<Rightarrow> 'w \<Rightarrow> nat outcome \<times> 'w"
  hx_call :: "nat \<Rightarrow> command \<Rightarrow> nat option \<Rightarrow> 'w \<Rightarrow> json option outcome \<times> 'w"
  hx_join :: "nat \<Rightarrow> command \<Rightarrow> nat \<Rightarrow> command \<Rightarrow> nat option \<Rightarrow> 'w
    \<Rightarrow> (json option outcome \<times> json option outcome) \<times> 'w"
  hx_cancel :: "nat \<Rightarrow> nat \<Rightarrow> 'w \<Rightarrow> unit outcome \<times> 'w"
  hx_drop_session :: "nat \<Rightarrow> 'w \<Rightarrow> 'w"
  hx_duration :: "nat \<Rightarrow> string"

datatype harness_event =
    Spawned nat
  | Ended nat
  | Opened nat
  | Closed nat
  | Answered nat user_id command json

record 'w runner =
  rn_config :: server_config
  rn_running :: "(nat \<times> string) option"
  rn_users :: "(user_id \<times> nat) list"
  rn_pending :: "(nat \<times> event) option"
  rn_log :: "harness_event list"
  rn_world :: 'w

definition secs :: "nat \<Rightarrow> nat" where
  "secs n = n * 1000000000"

definition millis :: "nat \<Rightarrow> nat" where
  "millis n = n * 1000000"

definition config_new :: "'w harness \<Rightarrow> path \<Rightarrow> 'w \<Rightarrow> server_config \<times> 'w" where
  "config_new env executable w =
     (case hx_current_dir env w of (dir, w') \<Rightarrow>
        (\<lparr>sc_executable = executable, sc_working_dir = (case dir of Inl _ \<Rightarrow> [CurDir] | Inr d \<Rightarrow> d),
          sc_startup_timeout = secs 60, sc_transport_timeout = secs 60, sc_call_timeout = None\<rparr>, w'))"

definition with_working_dir :: "path \<Rightarrow> server_config \<Rightarrow> server_config" where
  "with_working_dir dir c = c\<lparr>sc_working_dir := dir\<rparr>"

definition with_call_timeout :: "nat \<Rightarrow> server_config \<Rightarrow> server_config" where
  "with_call_timeout t c = c\<lparr>sc_call_timeout := Some t\<rparr>"

definition validate_config :: "'w harness \<Rightarrow> server_config \<Rightarrow> 'w \<Rightarrow> (trace_error + unit) \<times> 'w" where
  "validate_config env c w =
     (case hx_is_file env (sc_executable c) w of (is_file, w) \<Rightarrow>
        if \<not> is_file then (Inl (InvalidSetup (sc_executable c) ''server executable is not a file''), w)
        else (case hx_is_dir env (sc_working_dir c) w of (is_dir, w) \<Rightarrow>
          if \<not> is_dir
          then (Inl (InvalidSetup (sc_working_dir c) ''server working directory is not a directory''), w)
          else if sc_startup_timeout c = 0
          then (Inl (InvalidSetup (sc_executable c) ''startup timeout must be positive''), w)
          else if sc_transport_timeout c = 0
          then (Inl (InvalidSetup (sc_executable c) ''transport timeout must be positive''), w)
          else if sc_call_timeout c = Some 0
          then (Inl (InvalidSetup (sc_executable c) ''call timeout must be positive''), w)
          else (Inr (), w)))"

definition runner_new :: "'w harness \<Rightarrow> server_config \<Rightarrow> 'w \<Rightarrow> (trace_error + 'w runner) \<times> 'w" where
  "runner_new env c w =
     (case validate_config env c w of
        (Inl e, w) \<Rightarrow> (Inl e, w)
      | (Inr _, w) \<Rightarrow>
          (Inr \<lparr>rn_config = c, rn_running = None, rn_users = [], rn_pending = None, rn_log = [], rn_world = w\<rparr>, w))"

section \<open>The server process\<close>

definition outside :: "('w \<Rightarrow> 'a \<times> 'w) \<Rightarrow> ('w runner, 'e, 'a) eff" where
  "outside f = (\<lambda>s. case f (rn_world s) of (x, w) \<Rightarrow> (Inr x, s\<lparr>rn_world := w\<rparr>))"

definition record_event :: "harness_event \<Rightarrow> ('w runner, 'e, unit) eff" where
  "record_event ev = modify (\<lambda>s. s\<lparr>rn_log := rn_log s @ [ev]\<rparr>)"

text \<open>The destructors: \<open>kill_on_drop\<close> of a child, the service of a session.\<close>

definition drop_child :: "'w harness \<Rightarrow> nat \<Rightarrow> ('w runner, 'e, unit) eff" where
  "drop_child env child =
     and_then (outside (\<lambda>w. ((), hx_drop_child env child w))) (\<lambda>_. record_event (Ended child))"

definition drop_session :: "'w harness \<Rightarrow> nat \<Rightarrow> ('w runner, 'e, unit) eff" where
  "drop_session env k =
     and_then (outside (\<lambda>w. ((), hx_drop_session env k w))) (\<lambda>_. record_event (Closed k))"

partial_function (option) wait_listening ::
  "'w harness \<Rightarrow> string \<Rightarrow> nat \<Rightarrow> nat \<Rightarrow> nat \<Rightarrow> 'w \<Rightarrow> ((trace_error + unit) \<times> 'w) option" where
  "wait_listening env address child line deadline w =
     (case hx_reachable env address w of (reachable, w) \<Rightarrow>
        if reachable then Some (Inr (), w)
        else (case hx_try_wait env child w of (status, w) \<Rightarrow>
          (case status of
             Inl e \<Rightarrow> Some (Inl (TraceIo ''inspect rocq-mcp'' e), w)
           | Inr (Some code) \<Rightarrow> Some (Inl (ServerFailure line (''exited during startup with '' @ code)), w)
           | Inr None \<Rightarrow>
               (case hx_now env w of (now, w) \<Rightarrow>
                  if deadline \<le> now
                  then Some (Inl (ServerFailure line ''startup timed out''), snd (hx_kill env child w))
                  else wait_listening env address child line deadline (hx_sleep env (millis 20) w)))))"

definition start_server :: "'w harness \<Rightarrow> nat \<Rightarrow> 'w runner \<Rightarrow> ((trace_error + unit) \<times> 'w runner) option" where
  "start_server env line s =
     (if rn_running s \<noteq> None then Some (Inl (Lifecycle line ''server is already running''), s)
      else (case hx_reserve env (rn_world s) of
        (Inl e, w) \<Rightarrow> Some (Inl (TraceIo ''reserve server address'' e), s\<lparr>rn_world := w\<rparr>)
      | (Inr address, w) \<Rightarrow>
          (case hx_spawn env (sc_executable (rn_config s)) [''--http'', address] (sc_working_dir (rn_config s)) w of
             (Inl e, w) \<Rightarrow> Some (Inl (TraceIo ''spawn rocq-mcp'' e), s\<lparr>rn_world := w\<rparr>)
           | (Inr child, w) \<Rightarrow>
               (case hx_now env w of (now, w) \<Rightarrow>
                  (case wait_listening env address child line (now + sc_startup_timeout (rn_config s)) w of
                     None \<Rightarrow> None
                   | Some (r, w) \<Rightarrow>
                       (let s = s\<lparr>rn_world := w, rn_log := rn_log s @ [Spawned child]\<rparr> in
                        case r of
                          Inl e \<Rightarrow> Some (and_then (drop_child env child) (\<lambda>_. throw e) s)
                        | Inr _ \<Rightarrow> Some (Inr (), s\<lparr>rn_running := Some (child, ''http://'' @ address @ ''/mcp'')\<rparr>)))))))"

definition kill_server :: "'w harness \<Rightarrow> nat \<Rightarrow> ('w runner, trace_error, unit) eff" where
  "kill_server env line s =
     (case rn_running s of
        None \<Rightarrow> (Inl (Lifecycle line ''server is not running''), s)
      | Some (child, _) \<Rightarrow>
          and_then (modify (\<lambda>s. s\<lparr>rn_running := None\<rparr>)) (\<lambda>_.
          and_then (attempt
            (and_then (outside (hx_try_wait env child)) (\<lambda>status.
             case status of
               Inl e \<Rightarrow> throw (TraceIo ''inspect rocq-mcp before kill'' e)
             | Inr (Some _) \<Rightarrow> outside (\<lambda>w. ((), hx_wait env child w))
             | Inr None \<Rightarrow>
                 and_then (outside (hx_kill env child)) (\<lambda>killed.
                 case killed of
                   Inl e \<Rightarrow> throw (TraceIo ''kill rocq-mcp'' e)
                 | Inr _ \<Rightarrow> outside (\<lambda>w. ((), hx_wait env child w)))))) (\<lambda>r.
          and_then (drop_child env child) (\<lambda>_. lift_result r))) s)"

section \<open>Sessions\<close>

definition session_outcome :: "nat \<Rightarrow> user_id \<Rightarrow> string \<Rightarrow> string \<Rightarrow> 'a outcome \<Rightarrow> trace_error + 'a" where
  "session_outcome line user late what r =
     (case r of
        Elapsed \<Rightarrow> Inl (Transport line user (what @ '' timed out after '' @ late))
      | Failed m \<Rightarrow> Inl (Transport line user (what @ '' failed: '' @ m))
      | Done x \<Rightarrow> Inr x)"

definition structured_output :: "nat \<Rightarrow> user_id \<Rightarrow> json option \<Rightarrow> trace_error + json" where
  "structured_output line user r = ok_or (Transport line user ''tool returned no structured content'') r"

definition call_outcome :: "'w harness \<Rightarrow> nat option \<Rightarrow> nat \<Rightarrow> user_id \<Rightarrow> json option outcome \<Rightarrow> trace_error + json" where
  "call_outcome env limit line user r =
     result_bind (session_outcome line user (hx_duration env (case limit of None \<Rightarrow> 0 | Some t \<Rightarrow> t)) ''tool call'' r)
       (structured_output line user)"

definition not_connected :: "nat \<Rightarrow> user_id \<Rightarrow> trace_error" where
  "not_connected line user = Lifecycle line (''user '' @ [CHR 0x27] @ user @ [CHR 0x27] @ '' is not connected'')"

definition connection_of :: "nat \<Rightarrow> user_id \<Rightarrow> ('w runner, trace_error, nat) eff" where
  "connection_of line user =
     and_then (gets rn_users) (\<lambda>users. lift_result (ok_or (not_connected line user) (map_of users user)))"

definition connect_user :: "'w harness \<Rightarrow> nat \<Rightarrow> user_id \<Rightarrow> ('w runner, trace_error, unit) eff" where
  "connect_user env line user s =
     (if map_of (rn_users s) user \<noteq> None
      then (Inl (Lifecycle line (''user '' @ [CHR 0x27] @ user @ [CHR 0x27] @ '' is already connected'')), s)
      else (case rn_running s of
        None \<Rightarrow> (Inl (Lifecycle line ''server is not running''), s)
      | Some (_, endpoint) \<Rightarrow>
          (let limit = sc_transport_timeout (rn_config s) in
           and_then (outside (hx_connect env endpoint limit)) (\<lambda>r.
           and_then (lift_result (session_outcome line user (hx_duration env limit) ''connect'' r)) (\<lambda>k.
           and_then (record_event (Opened k)) (\<lambda>_.
           modify (\<lambda>s. s\<lparr>rn_users := (user, k) # rn_users s\<rparr>)))) s)))"

definition disconnect_user :: "'w harness \<Rightarrow> nat \<Rightarrow> user_id \<Rightarrow> ('w runner, trace_error, unit) eff" where
  "disconnect_user env line user =
     and_then (connection_of line user) (\<lambda>k.
     and_then (modify (\<lambda>s. s\<lparr>rn_users := filter (\<lambda>(u, _). u \<noteq> user) (rn_users s)\<rparr>)) (\<lambda>_.
     and_then (gets (\<lambda>s. sc_transport_timeout (rn_config s))) (\<lambda>limit.
     and_then (outside (hx_cancel env k limit)) (\<lambda>r.
     and_then (record_event (Closed k)) (\<lambda>_.
     lift_result (session_outcome line user (hx_duration env limit) ''disconnect'' r))))))"

definition clear_users :: "'w harness \<Rightarrow> ('w runner, 'e, unit) eff" where
  "clear_users env =
     and_then (gets rn_users) (\<lambda>users.
     and_then (modify (\<lambda>s. s\<lparr>rn_users := []\<rparr>)) (\<lambda>_.
     for_each (\<lambda>(_, k) _. drop_session env k) users ()))"

section \<open>Events\<close>

definition run_command ::
  "'w harness \<Rightarrow> nat \<Rightarrow> user_id \<Rightarrow> command \<Rightarrow> json \<Rightarrow> ('w runner, trace_error, unit) eff" where
  "run_command env line user command expected =
     and_then (connection_of line user) (\<lambda>k.
     and_then (gets (\<lambda>s. sc_call_timeout (rn_config s))) (\<lambda>limit.
     and_then (outside (hx_call env k command limit)) (\<lambda>r.
     and_then (lift_result (call_outcome env limit line user r)) (\<lambda>actual.
     and_then (record_event (Answered line user command actual)) (\<lambda>_.
     lift_result (assert_output line expected actual))))))"

text \<open>One of the listed results, or the expectation itself: markers are not looked at here.\<close>

definition parallel_matches :: "json \<Rightarrow> json \<Rightarrow> bool" where
  "parallel_matches expected actual =
     (case Option.bind (json_get expected ''$one_of'') as_array of
        None \<Rightarrow> expected = actual
      | Some choices \<Rightarrow> actual \<in> set choices)"

definition execute_parallel ::
  "'w harness \<Rightarrow> nat \<Rightarrow> user_id \<times> command \<times> json \<Rightarrow> nat \<Rightarrow> user_id \<times> command \<times> json
   \<Rightarrow> ('w runner, trace_error, unit) eff" where
  "execute_parallel env first_line first second_line second =
     (case (first, second) of ((user_a, command_a, expected_a), (user_b, command_b, expected_b)) \<Rightarrow>
        if user_a = user_b then throw (Lifecycle second_line ''parallel commands require distinct users'')
        else
          and_then (connection_of first_line user_a) (\<lambda>a.
          and_then (connection_of second_line user_b) (\<lambda>b.
          and_then (gets (\<lambda>s. sc_call_timeout (rn_config s))) (\<lambda>limit.
          and_then (outside (hx_join env a command_a b command_b limit)) (\<lambda>(ra, rb).
          and_then (lift_result (call_outcome env limit first_line user_a ra)) (\<lambda>actual_a.
          and_then (lift_result (call_outcome env limit second_line user_b rb)) (\<lambda>actual_b.
          and_then (record_event (Answered first_line user_a command_a actual_a)) (\<lambda>_.
          and_then (record_event (Answered second_line user_b command_b actual_b)) (\<lambda>_.
          if parallel_matches expected_a actual_a \<and> parallel_matches expected_b actual_b
             \<or> parallel_matches expected_a actual_b \<and> parallel_matches expected_b actual_a
          then ret ()
          else throw (OutputMismatch first_line (JArray [expected_a, expected_b]) (JArray [actual_a, actual_b])))))))))))"

definition execute_second ::
  "'w harness \<Rightarrow> nat \<Rightarrow> event \<Rightarrow> nat \<Rightarrow> event \<Rightarrow> ('w runner, trace_error, unit) eff" where
  "execute_second env first_line first line ev =
     (case (first, ev) of
        (Command ua ca xa (Some ga), Command ub cb xb (Some gb)) \<Rightarrow>
          if ga \<noteq> gb then throw (Lifecycle line ''adjacent parallel commands have different groups'')
          else execute_parallel env first_line (ua, ca, xa) line (ub, cb, xb)
      | _ \<Rightarrow> throw (Lifecycle line ''parallel group must contain two adjacent commands''))"

definition execute :: "'w harness \<Rightarrow> nat \<Rightarrow> event \<Rightarrow> 'w runner \<Rightarrow> ((trace_error + unit) \<times> 'w runner) option" where
  "execute env line ev s =
     (case rn_pending s of
        Some (first_line, first) \<Rightarrow> Some (execute_second env first_line first line ev (s\<lparr>rn_pending := None\<rparr>))
      | None \<Rightarrow>
          (case ev of
             ServerStart \<Rightarrow> start_server env line s
           | ServerKill \<Rightarrow> Some (and_then (kill_server env line) (\<lambda>_. clear_users env) s)
           | UserConnect user \<Rightarrow> Some (connect_user env line user s)
           | UserDisconnect user \<Rightarrow> Some (disconnect_user env line user s)
           | Command user command expected None \<Rightarrow> Some (run_command env line user command expected s)
           | Command user command expected (Some _) \<Rightarrow> Some (Inr (), s\<lparr>rn_pending := Some (line, ev)\<rparr>)))"

section \<open>Traces\<close>

definition validate_finished :: "nat \<Rightarrow> 'w runner \<Rightarrow> trace_error + unit" where
  "validate_finished line s =
     (if rn_pending s \<noteq> None then Inl (Lifecycle line ''parallel group ended without a second command'')
      else if rn_users s \<noteq> [] then Inl (Lifecycle line ''trace ended with connected users'')
      else if rn_running s \<noteq> None then Inl (Lifecycle line ''trace ended with a running server'')
      else Inr ())"

fun run_events ::
  "'w harness \<Rightarrow> located_event list \<Rightarrow> 'w runner \<Rightarrow> ((trace_error + unit) \<times> 'w runner) option" where
  "run_events env [] s = Some (Inr (), s)"
| "run_events env (e # es) s =
     (case execute env (le_line e) (le_event e) s of
        None \<Rightarrow> None
      | Some (Inl x, s') \<Rightarrow> Some (Inl x, s')
      | Some (Inr _, s') \<Rightarrow> run_events env es s')"

definition run :: "'w harness \<Rightarrow> located_event list \<Rightarrow> 'w runner \<Rightarrow> ((trace_error + unit) \<times> 'w runner) option" where
  "run env trace s =
     (case run_events env trace s of
        Some (Inr _, s') \<Rightarrow> Some (validate_finished (if trace = [] then 0 else le_line (last trace)) s', s')
      | r \<Rightarrow> r)"

text \<open>The runner goes out of scope: the controller kills its child, the sessions are dropped.\<close>

definition runner_drop :: "'w harness \<Rightarrow> ('w runner, 'e, unit) eff" where
  "runner_drop env =
     and_then (gets rn_running) (\<lambda>running.
     and_then (case running of
         None \<Rightarrow> ret ()
       | Some (child, _) \<Rightarrow> and_then (modify (\<lambda>s. s\<lparr>rn_running := None\<rparr>)) (\<lambda>_. drop_child env child)) (\<lambda>_.
     clear_users env))"

definition run_trace ::
  "serde \<Rightarrow> 'w harness \<Rightarrow> string + string \<Rightarrow> server_config \<Rightarrow> 'w
   \<Rightarrow> ((trace_error + unit) \<times> harness_event list) option" where
  "run_trace sd env file c w =
     (case load_trace sd file of
        Inl e \<Rightarrow> Some (Inl e, [])
      | Inr trace \<Rightarrow>
          (case runner_new env c w of
             (Inl e, _) \<Rightarrow> Some (Inl e, [])
           | (Inr s, _) \<Rightarrow>
               (case run env trace s of
                  None \<Rightarrow> None
                | Some (r, s') \<Rightarrow> Some (r, rn_log (snd (runner_drop env s' :: (unit + unit) \<times> 'w runner))))))"

text \<open>The command line of \<open>rocq-trace\<close>: the executable and the trace, nothing else.\<close>

definition usage :: string where
  "usage = ''usage: rocq-trace SERVER_EXECUTABLE TRACE_FILE''"

fun trace_arguments :: "string list \<Rightarrow> string + path \<times> path" where
  "trace_arguments [] = Inl (''missing SERVER_EXECUTABLE; '' @ usage)"
| "trace_arguments [_] = Inl (''missing TRACE_FILE; '' @ usage)"
| "trace_arguments [server, trace] = Inr (path_of server, path_of trace)"
| "trace_arguments (_ # _ # _ # _) = Inl usage"

end
