(* ===== verification/Trace_Safety.thy ===== *)
theory Trace_Safety
  imports Trace_Runner "HOL-Library.Multiset"
begin

text \<open>
  What a replay says and what it leaves behind: the lifecycle automaton that the runner implements, the
  verdict of a successful replay, the children and sessions that are open, and the end of every replay.
\<close>

section \<open>The lifecycle of a trace\<close>

text \<open>The abstract state: is the server up, who is connected, which parallel command waits for its partner.\<close>

record life =
  lf_up :: bool
  lf_users :: "user_id set"
  lf_waiting :: "event option"

definition life_init :: life where
  "life_init = \<lparr>lf_up = False, lf_users = {}, lf_waiting = None\<rparr>"

definition partners :: "user_id set \<Rightarrow> event \<Rightarrow> event \<Rightarrow> bool" where
  "partners users first second \<longleftrightarrow>
     (case (first, second) of
        (Command a _ _ (Some g), Command b _ _ (Some h)) \<Rightarrow> g = h \<and> a \<noteq> b \<and> a \<in> users \<and> b \<in> users
      | _ \<Rightarrow> False)"

definition life_step :: "life \<Rightarrow> event \<Rightarrow> life option" where
  "life_step l ev =
     (case lf_waiting l of
        Some first \<Rightarrow> if partners (lf_users l) first ev then Some (l\<lparr>lf_waiting := None\<rparr>) else None
      | None \<Rightarrow>
          (case ev of
             ServerStart \<Rightarrow> if lf_up l then None else Some (l\<lparr>lf_up := True\<rparr>)
           | ServerKill \<Rightarrow> if lf_up l then Some (l\<lparr>lf_up := False, lf_users := {}\<rparr>) else None
           | UserConnect u \<Rightarrow> if lf_up l \<and> u \<notin> lf_users l then Some (l\<lparr>lf_users := insert u (lf_users l)\<rparr>) else None
           | UserDisconnect u \<Rightarrow> if u \<in> lf_users l then Some (l\<lparr>lf_users := lf_users l - {u}\<rparr>) else None
           | Command u _ _ None \<Rightarrow> if u \<in> lf_users l then Some l else None
           | Command _ _ _ (Some _) \<Rightarrow> Some (l\<lparr>lf_waiting := Some ev\<rparr>)))"

fun life_run :: "life \<Rightarrow> event list \<Rightarrow> life option" where
  "life_run l [] = Some l"
| "life_run l (ev # evs) = Option.bind (life_step l ev) (\<lambda>l'. life_run l' evs)"

definition balanced :: "event list \<Rightarrow> bool" where
  "balanced evs \<longleftrightarrow> life_run life_init evs = Some life_init"

definition life_of :: "'w runner \<Rightarrow> life" where
  "life_of s = \<lparr>lf_up = rn_running s \<noteq> None, lf_users = fst ` set (rn_users s), lf_waiting = map_option snd (rn_pending s)\<rparr>"

definition is_lifecycle :: "trace_error \<Rightarrow> bool" where
  "is_lifecycle e \<longleftrightarrow> (case e of Lifecycle _ _ \<Rightarrow> True | _ \<Rightarrow> False)"

text \<open>What one event must do to the abstract state.\<close>

definition implements :: "life option \<Rightarrow> (trace_error + unit) \<times> 'w runner \<Rightarrow> bool" where
  "implements l' r \<longleftrightarrow>
     (case fst r of
        Inr _ \<Rightarrow> l' = Some (life_of (snd r))
      | Inl e \<Rightarrow> is_lifecycle e \<longleftrightarrow> l' = None)"

lemma not_lifecycle [simp]:
  "is_lifecycle (Lifecycle n m)" "\<not> is_lifecycle (TraceIo op m)" "\<not> is_lifecycle (ServerFailure n m)"
  "\<not> is_lifecycle (TraceParse n m)"
  "\<not> is_lifecycle (InvalidSetup d m)" "\<not> is_lifecycle (Transport n u m)" "\<not> is_lifecycle (OutputMismatch n x y)" "is_lifecycle (not_connected n u)"
  by (simp_all add: is_lifecycle_def not_connected_def)

lemma session_outcome_kind [simp]: "session_outcome n u d w r = Inl e \<Longrightarrow> \<not> is_lifecycle e"
  by (auto simp: session_outcome_def split: outcome.splits)

lemma call_outcome_kind [simp]: "call_outcome env t n u r = Inl e \<Longrightarrow> \<not> is_lifecycle e"
  by (auto simp: call_outcome_def structured_output_def result_bind_eq_Inl)

lemma assert_output_kind [simp]: "assert_output n x y = Inl e \<Longrightarrow> \<not> is_lifecycle e"
  by (auto simp: assert_output_def split: if_splits)

lemma wait_listening_result:
  assumes "wait_listening env address child line deadline w = Some r"
  shows "\<forall>e. fst r = Inl e \<longrightarrow> \<not> is_lifecycle e"
  by (rule wait_listening.raw_induct
        [where P = "\<lambda>_ _ _ _ _ _ r. \<forall>e. fst r = Inl e \<longrightarrow> \<not> is_lifecycle e", OF _ assms])
    (auto split: prod.splits if_splits sum.splits option.splits)

lemma connected_iff: "map_of users u = None \<longleftrightarrow> u \<notin> fst ` set users"
  by (simp add: map_of_eq_None_iff)

lemmas life_defs = implements_def life_step_def life_of_def

text \<open>What each operation leaves in the state and in the log, on every branch.\<close>

definition failed :: "trace_error + unit \<Rightarrow> bool" where
  "failed r \<longleftrightarrow> (\<exists>e. r = Inl e \<and> \<not> is_lifecycle e)"

definition out_of_order :: "trace_error + unit \<Rightarrow> bool" where
  "out_of_order r \<longleftrightarrow> (\<exists>e. r = Inl e \<and> is_lifecycle e)"

lemma verdicts [simp]:
  "failed (Inl e) \<longleftrightarrow> \<not> is_lifecycle e" "out_of_order (Inl e) \<longleftrightarrow> is_lifecycle e" "\<not> failed (Inr x)" "\<not> out_of_order (Inr x)"
  by (simp_all add: failed_def out_of_order_def)

lemma drop_child_eq:
  "drop_child env c s = (Inr (), s\<lparr>rn_world := hx_drop_child env c (rn_world s), rn_log := rn_log s @ [Ended c]\<rparr>)"
  by (simp add: drop_child_def outside_def record_event_def rust_defs)

lemma start_server_eq:
  assumes "start_server env n s = Some (r, t)"
  obtains (refused) "rn_running s \<noteq> None" "out_of_order r" "t = s"
  | (failed) w where "rn_running s = None" "failed r" "t = s\<lparr>rn_world := w\<rparr>"
  | (ended) w c where "rn_running s = None" "failed r" "t = s\<lparr>rn_world := w, rn_log := rn_log s @ [Spawned c, Ended c]\<rparr>"
  | (started) w c e where "rn_running s = None" "r = Inr ()"
      "t = s\<lparr>rn_world := w, rn_log := rn_log s @ [Spawned c], rn_running := Some (c, e)\<rparr>"
proof (cases "rn_running s")
  case (Some a)
  show ?thesis by (rule refused) (use Some assms in \<open>auto simp: start_server_def\<close>)
next
  case None
  obtain ra w1 where res: "hx_reserve env (rn_world s) = (ra, w1)" by fastforce
  show ?thesis
  proof (cases ra)
    case (Inl e)
    show ?thesis by (rule failed [of w1]) (use None assms res Inl in \<open>auto simp: start_server_def\<close>)
  next
    case (Inr address)
    obtain rc w2 where sp: "hx_spawn env (sc_executable (rn_config s)) [''--http'', address] (sc_working_dir (rn_config s)) w1 = (rc, w2)"
      by fastforce
    show ?thesis
    proof (cases rc)
      case Inl
      show ?thesis by (rule failed [of w2]) (use None assms res Inr sp Inl in \<open>auto simp: start_server_def\<close>)
    next
      case (Inr c)
      obtain now w3 where now: "hx_now env w2 = (now, w3)" by fastforce
      from None assms res \<open>ra = Inr address\<close> sp Inr now obtain q w4 where
        q: "wait_listening env address c n (now + sc_startup_timeout (rn_config s)) w3 = Some (q, w4)"
        by (auto simp: start_server_def split: option.splits)
      show ?thesis
      proof (cases q)
        case (Inl e)
        with wait_listening_result [OF q] have "\<not> is_lifecycle e" by simp
        moreover have "(r, t) = (Inl e, s\<lparr>rn_world := hx_drop_child env c w4, rn_log := rn_log s @ [Spawned c, Ended c]\<rparr>)"
          using None assms res \<open>ra = Inr address\<close> sp Inr now q Inl
          by (simp add: start_server_def and_then_def drop_child_eq throw_def)
        ultimately show ?thesis by (intro ended [where w = "hx_drop_child env c w4" and c = c]) (simp_all add: None)
      next
        case (Inr u)
        show ?thesis
          by (rule started [where w = w4 and c = c and e = "''http://'' @ address @ ''/mcp''"])
            (use None assms res \<open>ra = Inr address\<close> sp \<open>rc = Inr c\<close> now q Inr in \<open>auto simp: start_server_def\<close>)
      qed
    qed
  qed
qed

lemma start_implements:
  "start_server env n s = Some (r, t) \<Longrightarrow> rn_pending s = None \<Longrightarrow> implements (life_step (life_of s) ServerStart) (r, t)"
  by (erule start_server_eq) (auto simp: life_defs failed_def out_of_order_def)

lemma drop_session_eq: "drop_session env k s = (Inr (), s\<lparr>rn_world := hx_drop_session env k (rn_world s), rn_log := rn_log s @ [Closed k]\<rparr>)"
  by (simp add: drop_session_def outside_def record_event_def rust_defs)

lemma drop_sessions_eq:
  "\<exists>w. for_each (\<lambda>(_, k) _. drop_session env k) users () s
     = (Inr (), s\<lparr>rn_world := w, rn_log := rn_log s @ map (\<lambda>(_, k). Closed k) users\<rparr>)"
proof (induction users arbitrary: s)
  case Nil
  show ?case by (rule exI [of _ "rn_world s"]) (simp add: rust_defs)
next
  case (Cons x users)
  obtain u k where x: "x = (u, k)" by (cases x)
  from Cons [of "s\<lparr>rn_world := hx_drop_session env k (rn_world s), rn_log := rn_log s @ [Closed k]\<rparr>"]
  show ?case by (auto simp: x rust_defs drop_session_eq)
qed

lemma clear_users_eq:
  "\<exists>w. clear_users env s
     = (Inr (), s\<lparr>rn_users := [], rn_world := w, rn_log := rn_log s @ map (\<lambda>(_, k). Closed k) (rn_users s)\<rparr>)"
  using drop_sessions_eq [of env "rn_users s" "s\<lparr>rn_users := []\<rparr>"]
  by (simp add: clear_users_def rust_defs)

lemma kill_server_eq:
  "rn_running s = Some (c, e) \<Longrightarrow>
   \<exists>r w. kill_server env n s = (r, s\<lparr>rn_running := None, rn_world := w, rn_log := rn_log s @ [Ended c]\<rparr>)
     \<and> (r = Inr () \<or> failed r)"
  by (auto simp: kill_server_def drop_child_eq outside_def rust_defs failed_def
      split: sum.splits prod.splits option.splits)

lemma server_kill_eq:
  assumes "and_then (kill_server env n) (\<lambda>_. clear_users env) s = (r, t)"
  obtains (refused) "rn_running s = None" "out_of_order r" "t = s"
  | (failed) w c e where "rn_running s = Some (c, e)" "failed r"
      "t = s\<lparr>rn_running := None, rn_world := w, rn_log := rn_log s @ [Ended c]\<rparr>"
  | (killed) w c e where "rn_running s = Some (c, e)" "r = Inr ()"
      "t = s\<lparr>rn_running := None, rn_users := [], rn_world := w,
        rn_log := rn_log s @ [Ended c] @ map (\<lambda>(_, k). Closed k) (rn_users s)\<rparr>"
proof (cases "rn_running s")
  case None
  show ?thesis by (rule refused) (use None assms in \<open>auto simp: kill_server_def and_then_def\<close>)
next
  case (Some x)
  obtain c e where x: "rn_running s = Some (c, e)" using Some by (cases x) auto
  then obtain q w where k: "kill_server env n s = (q, s\<lparr>rn_running := None, rn_world := w, rn_log := rn_log s @ [Ended c]\<rparr>)"
    and q: "q = Inr () \<or> failed q" using kill_server_eq by blast
  show ?thesis
  proof (cases q)
    case (Inl y)
    show ?thesis by (rule failed [where w = w and c = c and e = e]) (use assms k q x Inl in \<open>auto simp: and_then_def\<close>)
  next
    case (Inr y)
    let ?s = "s\<lparr>rn_running := None, rn_world := w, rn_log := rn_log s @ [Ended c]\<rparr>"
    have "clear_users env ?s = (r, t)" using assms k Inr by (simp add: and_then_def)
    moreover obtain w' where "clear_users env ?s = (Inr () :: trace_error + unit,
       ?s\<lparr>rn_users := [], rn_world := w', rn_log := rn_log ?s @ map (\<lambda>(_, k). Closed k) (rn_users ?s)\<rparr>)"
      using exE [OF clear_users_eq [of env ?s]] .
    ultimately show ?thesis using x by (intro killed [where w = w' and c = c and e = e]) simp_all
  qed
qed

lemma kill_implements:
  "and_then (kill_server env n) (\<lambda>_. clear_users env) s = (r, t) \<Longrightarrow> rn_pending s = None
   \<Longrightarrow> implements (life_step (life_of s) ServerKill) (r, t)"
  by (erule server_kill_eq) (auto simp: life_defs failed_def out_of_order_def)

lemma connect_user_eq:
  assumes "connect_user env n u s = (r, t)"
  obtains (refused) "map_of (rn_users s) u \<noteq> None \<or> rn_running s = None" "out_of_order r" "t = s"
  | (failed) w where "map_of (rn_users s) u = None" "rn_running s \<noteq> None" "failed r" "t = s\<lparr>rn_world := w\<rparr>"
  | (opened) w k where "map_of (rn_users s) u = None" "rn_running s \<noteq> None" "r = Inr ()"
      "t = s\<lparr>rn_world := w, rn_log := rn_log s @ [Opened k], rn_users := (u, k) # rn_users s\<rparr>"
proof (cases "map_of (rn_users s) u \<noteq> None \<or> rn_running s = None")
  case True
  show ?thesis by (rule refused) (use True assms in \<open>auto simp: connect_user_def split: if_splits option.splits\<close>)
next
  case False
  then obtain c e where run: "map_of (rn_users s) u = None" "rn_running s = Some (c, e)" by auto
  obtain q w where q: "hx_connect env e (sc_transport_timeout (rn_config s)) (rn_world s) = (q, w)" by fastforce
  show ?thesis
  proof (cases "session_outcome n u (hx_duration env (sc_transport_timeout (rn_config s))) ''connect'' q")
    case (Inl x)
    then have "\<not> is_lifecycle x" by simp
    then show ?thesis
      by (intro failed [of w]) (use assms run q Inl in \<open>auto simp: connect_user_def Let_def rust_defs outside_def\<close>)
  next
    case (Inr k)
    show ?thesis
      by (rule opened [where w = w and k = k])
        (use assms run q Inr in \<open>auto simp: connect_user_def Let_def rust_defs outside_def record_event_def\<close>)
  qed
qed

lemma connect_implements:
  "connect_user env n u s = (r, t) \<Longrightarrow> rn_pending s = None \<Longrightarrow> implements (life_step (life_of s) (UserConnect u)) (r, t)"
  using connected_iff [of "rn_users s" u]
  by (erule_tac connect_user_eq) (auto simp: life_defs failed_def out_of_order_def)

lemma session_verdict: "session_outcome n u d w q = Inr () \<or> failed (session_outcome n u d w q)"
  by (cases q) (simp_all add: session_outcome_def)

lemma users_left: "fst ` set (filter (\<lambda>(v, _). v \<noteq> u) users) = fst ` set users - {u}"
  by force

lemma disconnect_user_eq:
  assumes "disconnect_user env n u s = (r, t)"
  obtains (refused) "map_of (rn_users s) u = None" "out_of_order r" "t = s"
  | (closed) w k where "map_of (rn_users s) u = Some k" "r = Inr () \<or> failed r"
      "t = s\<lparr>rn_world := w, rn_log := rn_log s @ [Closed k], rn_users := filter (\<lambda>(v, _). v \<noteq> u) (rn_users s)\<rparr>"
proof (cases "map_of (rn_users s) u")
  case None
  show ?thesis
    by (rule refused) (use None assms in \<open>auto simp: disconnect_user_def connection_of_def rust_defs ok_or_def\<close>)
next
  case (Some k)
  obtain q w where q: "hx_cancel env k (sc_transport_timeout (rn_config s)) (rn_world s) = (q, w)" by fastforce
  have "r = session_outcome n u (hx_duration env (sc_transport_timeout (rn_config s))) ''disconnect'' q"
    and t: "t = s\<lparr>rn_world := w, rn_log := rn_log s @ [Closed k], rn_users := filter (\<lambda>(v, _). v \<noteq> u) (rn_users s)\<rparr>"
    using assms Some q
    by (auto simp: disconnect_user_def connection_of_def rust_defs ok_or_def outside_def record_event_def)
  then have "r = Inr () \<or> failed r" using session_verdict by simp
  then show ?thesis using Some t by (intro closed)
qed

lemma run_command_eq:
  assumes "run_command env n u c x s = (r, t)"
  obtains (refused) "map_of (rn_users s) u = None" "out_of_order r" "t = s"
  | (failed) w where "map_of (rn_users s) u \<noteq> None" "failed r" "t = s\<lparr>rn_world := w\<rparr>"
  | (answered) w a where "map_of (rn_users s) u \<noteq> None" "r = assert_output n x a"
      "t = s\<lparr>rn_world := w, rn_log := rn_log s @ [Answered n u c a]\<rparr>"
proof (cases "map_of (rn_users s) u")
  case None
  show ?thesis
    by (rule refused) (use None assms in \<open>auto simp: run_command_def connection_of_def rust_defs ok_or_def\<close>)
next
  case (Some k)
  let ?limit = "sc_call_timeout (rn_config s)"
  obtain q w where q: "hx_call env k c ?limit (rn_world s) = (q, w)" by fastforce
  show ?thesis
  proof (cases "call_outcome env ?limit n u q")
    case (Inl e)
    then have "\<not> is_lifecycle e" by simp
    then show ?thesis
      by (intro failed [where w = w])
        (use Some assms q Inl in \<open>auto simp: run_command_def connection_of_def rust_defs ok_or_def outside_def\<close>)
  next
    case (Inr a)
    show ?thesis
      by (rule answered [where w = w and a = a])
        (use Some assms q Inr in \<open>auto simp: run_command_def connection_of_def rust_defs ok_or_def outside_def record_event_def\<close>)
  qed
qed

lemma assert_output_cases: "assert_output n x a = Inr () \<and> output_matches x a \<or> failed (assert_output n x a)"
  by (simp add: assert_output_def)

lemma disconnect_implements:
  "disconnect_user env n u s = (r, t) \<Longrightarrow> rn_pending s = None \<Longrightarrow> implements (life_step (life_of s) (UserDisconnect u)) (r, t)"
  using connected_iff [of "rn_users s" u]
  by (erule_tac disconnect_user_eq) (auto simp: life_defs failed_def out_of_order_def users_left intro: rev_image_eqI simp del: set_filter)

lemma command_implements:
  "run_command env n u c x s = (r, t) \<Longrightarrow> rn_pending s = None \<Longrightarrow> implements (life_step (life_of s) (Command u c x None)) (r, t)"
  using connected_iff [of "rn_users s" u]
  by (erule_tac run_command_eq) (auto simp: life_defs failed_def out_of_order_def assert_output_def)

definition pair_matches :: "json \<Rightarrow> json \<Rightarrow> json \<Rightarrow> json \<Rightarrow> bool" where
  "pair_matches xa xb a b \<longleftrightarrow>
     parallel_matches xa a \<and> parallel_matches xb b \<or> parallel_matches xa b \<and> parallel_matches xb a"

lemma execute_parallel_eq:
  assumes "execute_parallel env n (ua, ca, xa) m (ub, cb, xb) s = (r, t)"
  obtains (refused) "ua = ub \<or> map_of (rn_users s) ua = None \<or> map_of (rn_users s) ub = None" "out_of_order r" "t = s"
  | (failed) w where "ua \<noteq> ub" "map_of (rn_users s) ua \<noteq> None" "map_of (rn_users s) ub \<noteq> None" "failed r" "t = s\<lparr>rn_world := w\<rparr>"
  | (answered) w a b where "ua \<noteq> ub" "map_of (rn_users s) ua \<noteq> None" "map_of (rn_users s) ub \<noteq> None"
      "r = Inr () \<and> pair_matches xa xb a b \<or> failed r"
      "t = s\<lparr>rn_world := w, rn_log := rn_log s @ [Answered n ua ca a, Answered m ub cb b]\<rparr>"
proof (cases "ua = ub \<or> map_of (rn_users s) ua = None \<or> map_of (rn_users s) ub = None")
  case True
  show ?thesis
    by (rule refused)
      (use True assms in \<open>auto simp: execute_parallel_def connection_of_def rust_defs ok_or_def split: option.splits if_splits\<close>)
next
  case False
  then obtain ka kb where k: "ua \<noteq> ub" "map_of (rn_users s) ua = Some ka" "map_of (rn_users s) ub = Some kb" by auto
  let ?limit = "sc_call_timeout (rn_config s)"
  obtain qa qb w where q: "hx_join env ka ca kb cb ?limit (rn_world s) = ((qa, qb), w)" by (metis prod.collapse)
  show ?thesis
  proof (cases "call_outcome env ?limit n ua qa")
    case (Inl e)
    then have "\<not> is_lifecycle e" by simp
    then show ?thesis
      by (intro failed [where w = w])
        (use k assms q Inl in \<open>auto simp: execute_parallel_def connection_of_def rust_defs ok_or_def outside_def\<close>)
  next
    case a: (Inr a)
    show ?thesis
    proof (cases "call_outcome env ?limit m ub qb")
      case (Inl e)
      then have "\<not> is_lifecycle e" by simp
      then show ?thesis
        by (intro failed [where w = w])
          (use k assms q a Inl in \<open>auto simp: execute_parallel_def connection_of_def rust_defs ok_or_def outside_def\<close>)
    next
      case b: (Inr b)
      show ?thesis
        by (rule answered [where w = w and a = a and b = b])
          (use k assms q a b in \<open>auto simp: execute_parallel_def connection_of_def rust_defs ok_or_def outside_def
            record_event_def pair_matches_def split: if_splits\<close>)
    qed
  qed
qed

lemma parallel_implements:
  assumes "execute_parallel env n (ua, ca, xa) m (ub, cb, xb) s = (r, t)" and "rn_pending s = None"
  shows "implements (if ua \<noteq> ub \<and> ua \<in> lf_users (life_of s) \<and> ub \<in> lf_users (life_of s) then Some (life_of s) else None) (r, t)"
  using assms(1)
proof (cases rule: execute_parallel_eq)
  case refused
  then show ?thesis by (auto simp: implements_def life_of_def out_of_order_def connected_iff)
next
  case (failed w)
  then show ?thesis by (auto simp: implements_def life_of_def failed_def connected_iff)
next
  case (answered w a b)
  then have "ua \<in> fst ` set (rn_users s)" "ub \<in> fst ` set (rn_users s)" by (simp_all only: connected_iff not_not)
  with answered show ?thesis by (auto simp: implements_def life_of_def failed_def)
qed

lemma second_implements:
  assumes "rn_pending s = Some (n, first)" and "execute_second env n first m ev (s\<lparr>rn_pending := None\<rparr>) = (r, t)"
  shows "implements (life_step (life_of s) ev) (r, t)"
proof -
  let ?s = "s\<lparr>rn_pending := None\<rparr>"
  have life: "life_of ?s = (life_of s)\<lparr>lf_waiting := None\<rparr>" "lf_waiting (life_of s) = Some first"
    using assms(1) by (simp_all add: life_of_def)
  show ?thesis
  proof (cases "\<exists>ua ca xa g ub cb xb. first = Command ua ca xa (Some g) \<and> ev = Command ub cb xb (Some g)")
    case True
    then obtain ua ca xa g ub cb xb where *: "first = Command ua ca xa (Some g)" "ev = Command ub cb xb (Some g)" by blast
    then have "execute_parallel env n (ua, ca, xa) m (ub, cb, xb) ?s = (r, t)"
      using assms(2) by (simp add: execute_second_def)
    from parallel_implements [OF this] life * show ?thesis
      by (auto simp: life_step_def partners_def)
  next
    case False
    then have "out_of_order r" using assms(2)
      by (auto simp: execute_second_def throw_def split: event.splits option.splits if_splits)
    moreover have "\<not> partners (lf_users (life_of s)) first ev"
      using False by (cases first; cases ev) (auto simp: partners_def split: option.splits)
    ultimately show ?thesis using life by (auto simp: implements_def life_step_def out_of_order_def)
  qed
qed

text \<open>Every event of the runner is a step of the automaton; it is refused exactly where the automaton stops.\<close>

lemma execute_implements:
  assumes "execute env n ev s = Some (r, t)"
  shows "implements (life_step (life_of s) ev) (r, t)"
proof (cases "rn_pending s")
  case (Some x)
  then show ?thesis
    using assms second_implements [of s "fst x" "snd x"] by (cases x) (auto simp: execute_def)
next
  case None
  show ?thesis
  proof (cases ev)
    case (Command u c x g)
    show ?thesis
    proof (cases g)
      case None
      then show ?thesis using Command assms command_implements \<open>rn_pending s = None\<close> by (auto simp: execute_def)
    next
      case (Some h)
      then show ?thesis using Command assms \<open>rn_pending s = None\<close> by (auto simp: execute_def life_defs)
    qed
  qed (use assms None start_implements kill_implements connect_implements disconnect_implements in
      \<open>auto simp: execute_def\<close>)
qed

lemma run_events_implements:
  "run_events env evs s = Some (r, t) \<Longrightarrow>
   (case r of
      Inr _ \<Rightarrow> life_run (life_of s) (map le_event evs) = Some (life_of t)
    | Inl e \<Rightarrow> is_lifecycle e \<longrightarrow> life_run (life_of s) (map le_event evs) = None)"
proof (induction evs arbitrary: s)
  case (Cons e evs)
  then obtain q u where q: "execute env (le_line e) (le_event e) s = Some (q, u)"
    by (auto split: option.splits)
  from execute_implements [OF this] have step: "implements (life_step (life_of s) (le_event e)) (q, u)" .
  show ?case
  proof (cases q)
    case (Inl x)
    with Cons.prems q have "r = Inl x" by simp
    with step Inl show ?thesis by (auto simp: implements_def)
  next
    case (Inr x)
    with Cons.prems q have "run_events env evs u = Some (r, t)" by simp
    from Cons.IH [OF this] step Inr show ?thesis by (auto simp: implements_def split: sum.splits)
  qed
qed (auto)

lemma life_of_init: "life_of s = life_init \<longleftrightarrow> rn_running s = None \<and> rn_users s = [] \<and> rn_pending s = None"
  by (cases "rn_running s") (auto simp: life_of_def life_init_def)

lemma runner_new_init:
  "runner_new env c w = (Inr s, w') \<Longrightarrow> life_of s = life_init \<and> rn_log s = []"
  by (auto simp: runner_new_def life_of_def life_init_def split: prod.splits sum.splits)

lemma validate_finished_iff:
  "validate_finished n s = Inr () \<longleftrightarrow> life_of s = life_init" "out_of_order (validate_finished n s) \<longleftrightarrow> life_of s \<noteq> life_init"
  by (cases "rn_running s"; cases "rn_pending s"; simp add: validate_finished_def life_of_init)+

lemma run_balanced:
  assumes "run env trace s = Some (r, t)" and "life_of s = life_init"
  shows "(r = Inr () \<longrightarrow> balanced (map le_event trace)) \<and> (out_of_order r \<longrightarrow> \<not> balanced (map le_event trace))"
proof -
  obtain q u where q: "run_events env trace s = Some (q, u)" using assms(1) by (auto simp: run_def split: option.splits)
  show ?thesis
  proof (cases q)
    case (Inl e)
    with assms q run_events_implements [OF q] show ?thesis by (auto simp: run_def balanced_def out_of_order_def)
  next
    case (Inr x)
    with q assms have r: "validate_finished (if trace = [] then 0 else le_line (last trace)) u = r" by (auto simp: run_def)
    from run_events_implements [OF q] Inr assms(2)
    have "life_run life_init (map le_event trace) = Some (life_of u)" by simp
    with r show ?thesis
      by (auto simp: balanced_def validate_finished_iff)
  qed
qed

section \<open>The verdict\<close>

definition answered_call :: "harness_event \<Rightarrow> (nat \<times> user_id \<times> command \<times> json) option" where
  "answered_call ev = (case ev of Answered n u c a \<Rightarrow> Some (n, u, c, a) | _ \<Rightarrow> None)"

definition answers :: "harness_event list \<Rightarrow> (nat \<times> user_id \<times> command \<times> json) list" where
  "answers log = List.map_filter answered_call log"

text \<open>The answers certify a trace: one for each command, in order, with its line, its user and its call. The answer to
  a command on its own matches its expectation, those of two partners match the two expectations in some order.\<close>

fun certified :: "(nat \<times> event) option \<Rightarrow> located_event list \<Rightarrow> (nat \<times> user_id \<times> command \<times> json) list \<Rightarrow> bool" where
  "certified first [] as \<longleftrightarrow> first = None \<and> as = []"
| "certified (Some (n, first)) (e # es) as \<longleftrightarrow>
     (\<exists>ua ca xa g ub cb xb a b rest.
        first = Command ua ca xa (Some g) \<and> le_event e = Command ub cb xb (Some g)
        \<and> as = (n, ua, ca, a) # (le_line e, ub, cb, b) # rest \<and> pair_matches xa xb a b \<and> certified None es rest)"
| "certified None (e # es) as \<longleftrightarrow>
     (case le_event e of
        Command u c x None \<Rightarrow>
          (\<exists>a rest. as = (le_line e, u, c, a) # rest \<and> output_matches x a \<and> certified None es rest)
      | Command u c x (Some g) \<Rightarrow> certified (Some (le_line e, le_event e)) es as
      | _ \<Rightarrow> certified None es as)"

lemma answers_simps [simp]:
  "answers [] = []" "answers (xs @ ys) = answers xs @ answers ys" "answers (Spawned c # xs) = answers xs"
  "answers (Ended c # xs) = answers xs" "answers (Opened c # xs) = answers xs" "answers (Closed c # xs) = answers xs"
  "answers (Answered n u d a # xs) = (n, u, d, a) # answers xs"
  "answers (map (\<lambda>(u, k). Closed k) users) = []"
  by (simp_all add: answers_def answered_call_def List.map_filter_def filter_empty_conv split: prod.splits)

lemma second_certified:
  assumes "rn_pending s = Some (n, first)" and "execute_second env n first m ev (s\<lparr>rn_pending := None\<rparr>) = (Inr x, t)"
  shows "\<exists>ua ca xa g ub cb xb a b. first = Command ua ca xa (Some g) \<and> ev = Command ub cb xb (Some g)
    \<and> pair_matches xa xb a b \<and> answers (rn_log t) = answers (rn_log s) @ [(n, ua, ca, a), (m, ub, cb, b)] \<and> rn_pending t = None"
proof -
  from assms(2) obtain ua ca xa g ub cb xb where *: "first = Command ua ca xa (Some g)" "ev = Command ub cb xb (Some g)"
    and p: "execute_parallel env n (ua, ca, xa) m (ub, cb, xb) (s\<lparr>rn_pending := None\<rparr>) = (Inr x, t)"
    by (cases first; cases ev) (auto simp: execute_second_def throw_def split: option.splits if_splits)
  from p show ?thesis
    by (cases rule: execute_parallel_eq) (auto simp: *)
qed

lemma execute_certified:
  assumes "execute env n ev s = Some (Inr x, t)" and "rn_pending s = None"
  shows "(case ev of
      Command u c y None \<Rightarrow> (\<exists>a. output_matches y a \<and> answers (rn_log t) = answers (rn_log s) @ [(n, u, c, a)] \<and> rn_pending t = None)
    | Command u c y (Some g) \<Rightarrow> answers (rn_log t) = answers (rn_log s) \<and> rn_pending t = Some (n, ev)
    | _ \<Rightarrow> answers (rn_log t) = answers (rn_log s) \<and> rn_pending t = None)"
proof (cases ev)
  case (Command u c y g)
  show ?thesis
  proof (cases g)
    case None
    then have "run_command env n u c y s = (Inr x, t)" using assms Command by (simp add: execute_def)
    then show ?thesis
    proof (cases rule: run_command_eq)
      case (answered w a)
      then have "output_matches y a" by (auto simp: assert_output_def split: if_splits)
      then show ?thesis using answered Command None assms(2) by auto
    qed (simp_all)
  qed (use assms Command in \<open>auto simp: execute_def\<close>)
next
  case (UserConnect u)
  then have "connect_user env n u s = (Inr x, t)" using assms by (simp add: execute_def)
  then show ?thesis using UserConnect assms(2) by (cases rule: connect_user_eq) simp_all
next
  case (UserDisconnect u)
  then have "disconnect_user env n u s = (Inr x, t)" using assms by (simp add: execute_def)
  then show ?thesis using UserDisconnect assms(2) by (cases rule: disconnect_user_eq) simp_all
next
  case ServerStart
  then have "start_server env n s = Some (Inr x, t)" using assms by (simp add: execute_def)
  then show ?thesis using ServerStart assms(2) by (cases rule: start_server_eq) simp_all
next
  case ServerKill
  then have "and_then (kill_server env n) (\<lambda>_. clear_users env) s = (Inr x, t)" using assms by (simp add: execute_def)
  then show ?thesis using ServerKill assms(2) by (cases rule: server_kill_eq) simp_all
qed

lemma run_events_certified:
  "run_events env evs s = Some (Inr x, t) \<Longrightarrow> rn_pending t = None \<Longrightarrow>
   \<exists>as. answers (rn_log t) = answers (rn_log s) @ as \<and> certified (rn_pending s) evs as"
proof (induction evs arbitrary: s)
  case (Cons e evs)
  then obtain y u where y: "execute env (le_line e) (le_event e) s = Some (Inr y, u)" "run_events env evs u = Some (Inr x, t)"
    by (auto split: option.splits sum.splits)
  from Cons.IH [OF y(2) Cons.prems(2)] obtain as
    where as: "answers (rn_log t) = answers (rn_log u) @ as" "certified (rn_pending u) evs as" by blast
  show ?case
  proof (cases "rn_pending s")
    case None
    from execute_certified [OF y(1) None] as show ?thesis
      by (cases "le_event e") (auto simp: None split: option.splits)
  next
    case (Some p)
    obtain n first where p: "p = (n, first)" by (cases p)
    then have "execute_second env n first (le_line e) (le_event e) (s\<lparr>rn_pending := None\<rparr>) = (Inr y, u)"
      using y(1) Some by (simp add: execute_def)
    from second_certified [OF _ this] Some p as show ?thesis by (auto simp: Some p)
  qed
qed auto

section \<open>What is left open\<close>

definition open_children :: "harness_event list \<Rightarrow> nat multiset" where
  "open_children log =
     foldl (\<lambda>m ev. case ev of Spawned c \<Rightarrow> add_mset c m | Ended c \<Rightarrow> m - {#c#} | _ \<Rightarrow> m) {#} log"

definition open_sessions :: "harness_event list \<Rightarrow> nat multiset" where
  "open_sessions log =
     foldl (\<lambda>m ev. case ev of Opened k \<Rightarrow> add_mset k m | Closed k \<Rightarrow> m - {#k#} | _ \<Rightarrow> m) {#} log"

definition one_server :: "harness_event list \<Rightarrow> bool" where
  "one_server log \<longleftrightarrow> (\<forall>n. size (open_children (take n log)) \<le> 1)"

lemma open_children_simps [simp]:
  "open_children [] = {#}" "open_children (xs @ [Spawned c]) = add_mset c (open_children xs)"
  "open_children (xs @ [Ended c]) = open_children xs - {#c#}" "open_children (xs @ [Opened k]) = open_children xs"
  "open_children (xs @ [Closed k]) = open_children xs" "open_children (xs @ [Answered n u d a]) = open_children xs"
  by (simp_all add: open_children_def)

lemma open_sessions_simps [simp]:
  "open_sessions [] = {#}" "open_sessions (xs @ [Spawned c]) = open_sessions xs"
  "open_sessions (xs @ [Ended c]) = open_sessions xs" "open_sessions (xs @ [Opened k]) = add_mset k (open_sessions xs)"
  "open_sessions (xs @ [Closed k]) = open_sessions xs - {#k#}" "open_sessions (xs @ [Answered n u d a]) = open_sessions xs"
  by (simp_all add: open_sessions_def)

lemma one_server_snoc: "one_server (xs @ [ev]) \<longleftrightarrow> one_server xs \<and> size (open_children (xs @ [ev])) \<le> 1"
proof
  assume *: "one_server (xs @ [ev])"
  have "size (open_children (take n xs)) \<le> 1" for n
    using * [unfolded one_server_def, rule_format, of "min n (length xs)"] by (cases "n \<le> length xs") (simp_all add: min_def)
  moreover have "size (open_children (xs @ [ev])) \<le> 1"
    using * [unfolded one_server_def, rule_format, of "Suc (length xs)"] by simp
  ultimately show "one_server xs \<and> size (open_children (xs @ [ev])) \<le> 1" by (simp add: one_server_def)
next
  assume *: "one_server xs \<and> size (open_children (xs @ [ev])) \<le> 1"
  show "one_server (xs @ [ev])"
    unfolding one_server_def
  proof
    fix n
    show "size (open_children (take n (xs @ [ev]))) \<le> 1"
      using * by (cases "n \<le> length xs") (auto simp: one_server_def)
  qed
qed

text \<open>The log as a snoc list, so that the rules above apply to what an operation appends.\<close>

lemma snoc_two: "xs @ [a, b] = (xs @ [a]) @ [b]"
  by simp

definition tidy :: "'w runner \<Rightarrow> bool" where
  "tidy s \<longleftrightarrow>
     distinct (map fst (rn_users s))
     \<and> open_children (rn_log s) = (case rn_running s of None \<Rightarrow> {#} | Some (c, _) \<Rightarrow> {#c#})
     \<and> open_sessions (rn_log s) = mset (map snd (rn_users s)) \<and> one_server (rn_log s)"

lemma close_all:
  "open_children (xs @ map (\<lambda>(_, k). Closed k) users) = open_children xs"
  "open_sessions (xs @ map (\<lambda>(_, k). Closed k) users) = open_sessions xs - mset (map snd users)"
  "one_server (xs @ map (\<lambda>(_, k). Closed k) users) \<longleftrightarrow> one_server xs \<and> (users \<noteq> [] \<longrightarrow> size (open_children xs) \<le> 1)"
proof (induction users rule: rev_induct)
  case (snoc p users)
  obtain u k where p: "p = (u, k)" by (cases p)
  note simps = append_assoc [symmetric] p
  {
    case 1
    from snoc show ?case by (simp add: simps del: append_assoc)
  next
    case 2
    from snoc show ?case by (simp add: simps del: append_assoc)
  next
    case 3
    from snoc show ?case by (auto simp add: simps one_server_snoc simp del: append_assoc)
  }
qed simp_all

lemma close_one:
  assumes "distinct (map fst users)" and "map_of users u = Some k"
  shows "mset (map snd users) - {#k#} = mset (map snd (filter (\<lambda>(v, _). v \<noteq> u) users))"
  using assms
proof (induction users)
  case (Cons p users)
  obtain v l where p: "p = (v, l)" by (cases p)
  show ?case
  proof (cases "v = u")
    case True
    with Cons.prems p have "filter (\<lambda>(v, _). v \<noteq> u) users = users" by (force simp: filter_id_conv)
    then show ?thesis using True Cons.prems p by simp
  next
    case False
    then have "k \<in># mset (map snd users)"
      using Cons.prems p by (force dest: map_of_SomeD)
    then show ?thesis using False Cons p by (simp add: add_mset_diff_bothsides)
  qed
qed simp

lemma tidy_start: "start_server env n s = Some (r, t) \<Longrightarrow> tidy s \<Longrightarrow> tidy t"
  by (erule start_server_eq) (auto simp: tidy_def snoc_two one_server_snoc simp del: append_assoc)

lemma tidy_kill: "and_then (kill_server env n) (\<lambda>_. clear_users env) s = (r, t) \<Longrightarrow> tidy s \<Longrightarrow> tidy t"
  by (erule server_kill_eq)
    (auto simp: tidy_def one_server_snoc close_all append_assoc [symmetric] simp del: append_assoc append_Cons)

lemma tidy_connect: "connect_user env n u s = (r, t) \<Longrightarrow> tidy s \<Longrightarrow> tidy t"
  by (erule connect_user_eq) (auto simp: tidy_def one_server_snoc map_of_eq_None_iff split: option.splits)

lemma tidy_disconnect:
  assumes "disconnect_user env n u s = (r, t)" and "tidy s"
  shows "tidy t"
  using assms(1)
proof (cases rule: disconnect_user_eq)
  case (closed w k)
  have "mset (map snd (rn_users s)) - {#k#} = mset (map snd (filter (\<lambda>(v, _). v \<noteq> u) (rn_users s)))"
    using assms(2) closed by (intro close_one) (simp_all add: tidy_def)
  then show ?thesis
    using assms(2) closed
    by (simp add: tidy_def one_server_snoc distinct_map_filter split: option.splits del: mset_map mset_filter)
qed (use assms(2) in simp)

lemma tidy_command: "run_command env n u c x s = (r, t) \<Longrightarrow> tidy s \<Longrightarrow> tidy t"
  by (erule run_command_eq) (auto simp: tidy_def one_server_snoc split: option.splits)

lemma tidy_parallel: "execute_parallel env n (ua, ca, xa) m (ub, cb, xb) s = (r, t) \<Longrightarrow> tidy s \<Longrightarrow> tidy t"
  by (erule execute_parallel_eq)
    (auto simp: tidy_def snoc_two one_server_snoc split: option.splits simp del: append_assoc append_Cons)

lemma tidy_pending: "tidy (s\<lparr>rn_pending := p\<rparr>) = tidy s"
  by (simp add: tidy_def)

lemma tidy_second: "execute_second env n first m ev s = (r, t) \<Longrightarrow> tidy s \<Longrightarrow> tidy t"
  by (cases first; cases ev)
    (auto simp: execute_second_def throw_def split: option.splits if_splits dest: tidy_parallel)

lemma tidy_execute:
  assumes "execute env n ev s = Some (r, t)" and "tidy s" shows "tidy t"
proof (cases "rn_pending s")
  case None
  with assms show ?thesis
    by (cases ev) (auto simp: execute_def tidy_pending split: option.splits
        dest: tidy_start tidy_kill tidy_connect tidy_disconnect tidy_command)
next
  case (Some p)
  with assms show ?thesis
    by (cases p) (auto simp: execute_def tidy_pending dest: tidy_second)
qed

lemma tidy_run_events: "run_events env evs s = Some (r, t) \<Longrightarrow> tidy s \<Longrightarrow> tidy t"
  by (induction evs arbitrary: s) (auto split: option.splits sum.splits dest: tidy_execute)

lemma tidy_run: "run env trace s = Some (r, t) \<Longrightarrow> tidy s \<Longrightarrow> tidy t"
  by (auto simp: run_def split: option.splits sum.splits prod.splits dest: tidy_run_events)

lemma tidy_new: "runner_new env c w = (Inr s, w') \<Longrightarrow> tidy s"
  by (auto simp: runner_new_def tidy_def one_server_def split: prod.splits sum.splits)

lemma runner_drop_log:
  assumes "tidy s" and "runner_drop env s = (r :: unit + unit, t)"
  shows "open_children (rn_log t) = {#} \<and> open_sessions (rn_log t) = {#} \<and> one_server (rn_log t)
    \<and> answers (rn_log t) = answers (rn_log s)"
proof (cases "rn_running s")
  case None
  then have "clear_users env s = (r, t)" using assms(2) by (simp add: runner_drop_def rust_defs)
  moreover obtain w where "clear_users env s
     = (Inr () :: unit + unit, s\<lparr>rn_users := [], rn_world := w, rn_log := rn_log s @ map (\<lambda>(_, k). Closed k) (rn_users s)\<rparr>)"
    using exE [OF clear_users_eq [of env s]] .
  ultimately show ?thesis using assms(1) None by (auto simp: tidy_def close_all)
next
  case (Some p)
  obtain c e where p: "p = (c, e)" by (cases p)
  let ?s = "s\<lparr>rn_running := None, rn_world := hx_drop_child env c (rn_world s), rn_log := rn_log s @ [Ended c]\<rparr>"
  have "clear_users env ?s = (r, t)"
    using assms(2) Some p by (simp add: runner_drop_def rust_defs drop_child_eq)
  moreover obtain w where "clear_users env ?s
     = (Inr () :: unit + unit, ?s\<lparr>rn_users := [], rn_world := w, rn_log := rn_log ?s @ map (\<lambda>(_, k). Closed k) (rn_users ?s)\<rparr>)"
    using exE [OF clear_users_eq [of env ?s]] .
  ultimately have "rn_log t = (rn_log s @ [Ended c]) @ map (\<lambda>(_, k). Closed k) (rn_users s)" by auto
  then show ?thesis
    using assms(1) Some p by (simp add: tidy_def close_all one_server_snoc del: append_assoc)
qed

section \<open>Every replay ends\<close>






section \<open>What a replay promises\<close>

lemma parse_event_kind:
  assumes "parse_event sd n t = Inl e"
  shows "\<not> is_lifecycle e"
proof -
  have "\<not> is_lifecycle x" if "reject_unknown_event_fields n v = Inl x" for x v
    using that by (cases v) (auto simp: reject_unknown_event_fields_def result_bind_eq_Inl split: option.splits)
  moreover have "\<not> is_lifecycle x" if "validate_event n ev = Inl x" for x ev
    using that
    by (cases ev) (auto simp: validate_event_def validate_command_def result_bind_eq_Inl split: if_splits)
  ultimately show ?thesis
    using assms by (cases "sd_read sd t") (auto simp: parse_event_def result_bind_eq_Inl)
qed

lemma load_trace_kind:
  assumes "load_trace sd file = Inl e"
  shows "\<not> is_lifecycle e"
proof -
  have "\<not> is_lifecycle x" if "parse_lines sd n ls = Inl x" for n ls x
    using that
  proof (induction ls arbitrary: n)
    case (Cons l ls)
    then show ?case by (cases l) (auto simp: result_bind_eq_Inl split: if_splits dest: parse_event_kind)
  qed simp
  then show ?thesis using assms by (cases "file") (auto simp: load_trace_def parse_trace_def)
qed

lemma run_traceE:
  assumes "run_trace sd env file c w = Some (r, log)"
  obtains (not_run) "failed r" "log = []" "\<not> (\<exists>trace s w'. load_trace sd file = Inr trace \<and> runner_new env c w = (Inr s, w'))"
  | (replayed) trace s w' t u q where "load_trace sd file = Inr trace" "runner_new env c w = (Inr s, w')"
      "run env trace s = Some (r, t)" "runner_drop env t = (q :: unit + unit, u)" "log = rn_log u"
proof (cases "load_trace sd file")
  case (Inl e)
  then have "\<not> is_lifecycle e" by (rule load_trace_kind)
  then show ?thesis by (intro not_run) (use assms Inl in \<open>auto simp: run_trace_def\<close>)
next
  case trace: (Inr trace)
  obtain z w' where new: "runner_new env c w = (z, w')" by fastforce
  show ?thesis
  proof (cases z)
    case (Inl e)
    with new have "\<not> is_lifecycle e"
      by (auto simp: runner_new_def validate_config_def split: prod.splits if_splits sum.splits)
    then show ?thesis by (intro not_run) (use assms trace new Inl in \<open>auto simp: run_trace_def\<close>)
  next
    case (Inr s)
    with assms trace new obtain t where t: "run env trace s = Some (r, t)"
      and log: "log = rn_log (snd (runner_drop env t :: (unit + unit) \<times> _))"
      by (auto simp: run_trace_def split: option.splits)
    obtain q u where "runner_drop env t = (q :: unit + unit, u)" by fastforce
    with trace new Inr t log show ?thesis by (intro replayed) simp_all
  qed
qed

text \<open>
  C36. The verdict of the runner is right in both directions. A replay that succeeds is one of a balanced trace (starts
  and kills alternate, sessions open only on a running server, commands come from connected users, partners are
  adjacent, nothing is left open at the end), and the answers it received certify the trace: one for each command, in
  order, each the answer to exactly that call and matching its expectation. A replay that ends with a lifecycle error is
  one of a trace that is not balanced: the server under test cannot cause that error.
\<close>

theorem replay_verdict:
  assumes "run_trace sd env file c w = Some (r, log)" and "load_trace sd file = Inr trace"
  shows "(r = Inr () \<longrightarrow> balanced (map le_event trace) \<and> certified None trace (answers log))
    \<and> (out_of_order r \<longrightarrow> \<not> balanced (map le_event trace))"
  using assms(1)
proof (cases rule: run_traceE)
  case not_run
  then show ?thesis by (auto simp: failed_def out_of_order_def)
next
  case (replayed trace' s w' t u q)
  then have tr: "trace' = trace" using assms(2) by simp
  have s: "life_of s = life_init" "rn_log s = []" "tidy s" using runner_new_init [OF replayed(2)] tidy_new [OF replayed(2)] by auto
  have log: "answers log = answers (rn_log t)"
    using runner_drop_log [OF tidy_run [OF replayed(3) s(3)] replayed(4)] replayed(5) by simp
  have "certified None trace (answers log)" if ok: "r = Inr ()"
  proof -
    from replayed(3) ok obtain x where x: "run_events env trace s = Some (Inr x, t)" "life_of t = life_init"
      by (auto simp: run_def tr validate_finished_iff split: option.splits sum.splits)
    then have "rn_pending t = None" by (simp add: life_of_init)
    from run_events_certified [OF x(1) this] s log show ?thesis by (auto simp: life_of_init)
  qed
  with run_balanced [OF replayed(3) s(1)] tr show ?thesis by blast
qed

text \<open>
  A step of the runner is a step of the lifecycle automaton. Whatever the server, the clock and the transport do, an
  event that the runner carries out moves the abstract state (server up, users connected, command waiting for its
  partner) exactly as the automaton says, and it is refused with a lifecycle error exactly when the automaton has
  no step.
\<close>

theorem event_refines_lifecycle:
  assumes "execute env n ev s = Some (r, t)"
  shows "(r = Inr () \<longrightarrow> life_step (life_of s) ev = Some (life_of t)) \<and> (out_of_order r \<longleftrightarrow> life_step (life_of s) ev = None)"
  using execute_implements [OF assms] by (cases r) (auto simp: implements_def)

text \<open>
  C37. A replay leaves nothing behind, whatever its outcome: every server process it spawned has been ended and every
  session it opened has been closed, and there were never two servers at a time.
\<close>

theorem replay_leaves_nothing:
  assumes "run_trace sd env file c w = Some (r, log)"
  shows "open_children log = {#} \<and> open_sessions log = {#} \<and> (\<forall>n. size (open_children (take n log)) \<le> 1)"
  using assms
proof (cases rule: run_traceE)
  case not_run
  then show ?thesis by simp
next
  case (replayed trace s w' t u q)
  from runner_drop_log [OF tidy_run [OF replayed(3) tidy_new [OF replayed(2)]] replayed(4)] replayed(5)
  show ?thesis by (simp add: one_server_def)
qed


section \<open>A replay\<close>

text \<open>A world that is a clock: the listener answers after a second, calls answer at once.\<close>

definition sample_harness :: "nat harness" where
  "sample_harness =
     \<lparr>hx_is_file = (\<lambda>_ w. (True, w)), hx_is_dir = (\<lambda>_ w. (True, w)), hx_current_dir = (\<lambda>w. (Inr [RootDir], w)),
      hx_reserve = (\<lambda>w. (Inr ''127.0.0.1:4000'', w)), hx_spawn = (\<lambda>_ _ _ w. (Inr 1, w)),
      hx_reachable = (\<lambda>_ w. (secs 1 \<le> w, w + secs 1)), hx_try_wait = (\<lambda>_ w. (Inr None, w)),
      hx_kill = (\<lambda>_ w. (Inr (), w)), hx_wait = (\<lambda>_ w. w), hx_drop_child = (\<lambda>_ w. w), hx_now = (\<lambda>w. (w, w)),
      hx_sleep = (\<lambda>d w. w + d), hx_connect = (\<lambda>_ _ w. (Done 7, w)), hx_call = (\<lambda>_ _ _ w. (Done (Some JNull), w)),
      hx_join = (\<lambda>_ _ _ _ _ w. ((Done (Some JNull), Done (Some JNull)), w)), hx_cancel = (\<lambda>_ _ w. (Done (), w)),
      hx_drop_session = (\<lambda>_ w. w), hx_duration = (\<lambda>_. ''60s'')\<rparr>"

definition trace_reader :: serde where
  "trace_reader =
     \<lparr>sd_read = (\<lambda>s. Inr (event_json (if s = ''up'' then ServerStart else if s = ''in'' then UserConnect ''ada'' else ServerKill))),
      sd_message = (\<lambda>_. ''rejected''), sd_print = (\<lambda>_. [])\<rparr>"

definition sample_file :: string where
  "sample_file = ''up'' @ [CHR 0x0A] @ ''in'' @ [CHR 0x0A] @ ''down''"

definition sample_trace :: "located_event list" where
  "sample_trace = [\<lparr>le_line = 1, le_event = ServerStart\<rparr>, \<lparr>le_line = 2, le_event = UserConnect ''ada''\<rparr>,
     \<lparr>le_line = 3, le_event = ServerKill\<rparr>]"

definition sample_config :: server_config where
  "sample_config = fst (config_new sample_harness [RootDir, Normal ''rocq-mcp''] 0)"

lemma sample_load: "load_trace trace_reader (Inr sample_file) = Inr sample_trace"
  by code_simp

lemma sample_listening:
  "wait_listening sample_harness a c n (secs 60) 0 = Some (Inr (), secs 2 + millis 20)"
  by (simp add: wait_listening.simps sample_harness_def secs_def millis_def)

lemma sample_replay:
  "run_trace trace_reader sample_harness (Inr sample_file) sample_config 0
   = Some (Inr (), [Spawned 1, Opened 7, Ended 1, Closed 7])"
  using sample_listening [of "''127.0.0.1:4000''" 1 1]
  by (simp add: run_trace_def sample_load sample_trace_def sample_config_def config_new_def runner_new_def validate_config_def
      run_def execute_def start_server_def kill_server_def connect_user_def clear_users_def drop_child_def drop_session_def
      outside_def record_event_def rust_defs Let_def session_outcome_def validate_finished_def runner_drop_def
      sample_harness_def secs_def)

theorem replay_verdict_witness:
  "balanced [ServerStart, UserConnect ''ada'', ServerKill]"
  using replay_verdict [OF sample_replay sample_load] by (simp add: sample_trace_def)

theorem event_refines_lifecycle_witness:
  "life_step life_init ServerKill = None"
proof -
  obtain s where s: "runner_new sample_harness sample_config 0 = (Inr s, 0)"
    by (simp add: runner_new_def validate_config_def sample_harness_def sample_config_def config_new_def secs_def)
  have "life_of s = life_init" using runner_new_init [OF s] by simp
  moreover from this have "execute sample_harness 1 ServerKill s = Some (Inl (Lifecycle 1 ''server is not running''), s)"
    by (simp add: execute_def life_of_init kill_server_def and_then_def)
  ultimately show ?thesis using event_refines_lifecycle [of sample_harness 1 ServerKill s] by simp
qed

theorem replay_leaves_nothing_witness:
  "open_sessions [Spawned 1, Opened 7, Ended 1, Closed 7] = {#}"
  using replay_leaves_nothing [OF sample_replay] by blast


end
