(* ===== verification/Spec2Isabelle.thy ===== *)
theory Spec2Isabelle
  imports Server_Sessions Adapter_Check Adapter_Epoch Startup Pet_Lifeline Trace_Format Trace_Safety
begin

text \<open>
  A verification development for \<open>rocq-mcp\<close>, a Model Context Protocol server for interactive Rocq
  proofs over Dune projects.

  \<^bold>\<open>The program.\<close> An MCP client calls ten tools. \<open>crates/rocq-mcp\<close> admits a call, records its progress,
  checks its arguments, keeps one tree of proof checkpoints per connection and shares one PET process
  per Dune project between the connections. \<open>crates/rocq-engine\<close> does the work: it reads the project's
  layout from Dune, talks to PET (the Rocq proof server) over framed JSON-RPC, opens, steps and audits
  proofs, and publishes a finished proof by replacing the declaration in its source file, building
  and auditing it, or restoring the file. The parts call each other downwards only: server, adapter,
  engine, then the PET actor, the Dune processes and the file system. Upwards goes one callback: the
  engine's publication tells the adapter that an epoch begins, that is, that every handle of PET is
  about to lose its meaning. \<open>crates/rocq-e2e\<close> replays traces of connections and calls against a server process.

  \<^bold>\<open>Conventions.\<close> A fallible operation on a state is a function from the state to a sum and the new
  state (\<open>eff\<close> in \<open>Rust_Prelude\<close>, with \<open>and_then\<close> for \<open>?\<close>), so each early return is a branch and what
  happened before it stays. \<open>u64\<close> and \<open>u8\<close> values are words; \<open>usize\<close> offsets are naturals. A Rust
  \<open>String\<close> is its list of bytes, one character of \<open>string\<close> per byte, with the character boundaries of
  UTF-8 written out; a \<open>BTreeMap\<close> is the sorted list of its entries. States are extensible records:
  the actor's (\<open>actor\<close>: signal, process, workspace, the world, a trace), the engine's (\<open>sys\<close>, which adds a log of
  Dune runs, reads and replacements) and the server's (\<open>server\<close>). The type of the world is a parameter; every
  external call is a field of an environment record that takes and returns the world, so the theorems
  hold for every behaviour of the file system, Dune and PET.

  \<^bold>\<open>Theories and sources.\<close>
  \<^item> \<open>Rust_Prelude\<close>, \<open>Rust_Text\<close>, \<open>Rust_Fs\<close>, \<open>Json\<close>: what the sources use of the standard library and of
    \<open>serde_json::Value\<close>.
  \<^item> \<open>Rocq_Types\<close> (\<open>types.rs\<close>), \<open>Request\<close> (\<open>request.rs\<close>): the shared data; the cancellation signal as a
    byte with compare-and-exchange and its thread-local scope.
  \<^item> \<open>Checkpoint\<close> (\<open>rocq-mcp/src/checkpoint.rs\<close>): the checkpoint book of a connection.
  \<^item> \<open>Pet_Results\<close>, \<open>Pet_Transport\<close>, \<open>Pet_Actor\<close>, \<open>Pet_Frame\<close> (\<open>pet/results.rs\<close>, \<open>pet/mod.rs\<close>): decoders, error
    classes, framing and envelopes, the child process and every public operation of the actor.
  \<^item> \<open>Dune_Process\<close>, \<open>Dune_Layout\<close> (\<open>dune/process.rs\<close>, \<open>dune/mod.rs\<close>): running Dune with its retry, the
    S-expression lexer, the layout of a project.
  \<^item> \<open>Writeback\<close> (\<open>writeback.rs\<close>): preparing, publishing and rolling back a source.
  \<^item> \<open>Engine_Errors\<close>, \<open>Engine_Project\<close>, \<open>Engine\<close>, \<open>Engine_Safety\<close>, \<open>Engine_Frame\<close> (\<open>engine.rs\<close>): error projections, the
    project with its layout probe and symbol index, every operation of \<open>Engine\<close>, its safety, and what
    it leaves alone in its client's state.
  \<^item> \<open>Wire\<close> (the JSON side of \<open>adapter.rs\<close>, \<open>validation.rs\<close>): arguments, public errors, states, goal diffs, text pages.
  \<^item> \<open>Server_Progress\<close>, \<open>Server_State\<close> (\<open>server.rs\<close>): the progress record; project runtimes, selections and the
    invalidation of exported handles.
  \<^item> \<open>Adapter\<close>, \<open>Adapter_Tools\<close> (\<open>adapter.rs\<close>): artifact reconciliation and epochs, lazy replay, the ten tools,
    \<open>start\<close> and \<open>dispatch\<close>.
  \<^item> \<open>Pet_Lifeline\<close> (\<open>pet/mod.rs\<close>): the birth and death of the PET process: caller, launcher thread, child and the
    death of the server as one step relation; the drain of standard error.
  \<^item> \<open>Adapter_Safety\<close>, \<open>Adapter_Properties\<close>, \<open>Adapter_Check\<close>, \<open>Adapter_Epoch\<close>, \<open>Server_Invariant\<close>: the contracts of the
    tools and what follows from them.
  \<^item> \<open>Server\<close> (\<open>schema.rs\<close>, \<open>server.rs\<close>): the tool schemas, resolution of relative project paths, \<open>call_tool\<close>.
  \<^item> \<open>Server_Sessions\<close> (\<open>server.rs\<close>): connections that open, take turns and close; the reachable servers.
  \<^item> \<open>Startup\<close> (\<open>main.rs\<close>, \<open>schema.rs\<close>, \<open>server.rs\<close>): command line, environment, handbook sections, the annotated catalog
    and \<open>tools/list\<close>.
  \<^item> \<open>Trace_Model\<close>, \<open>Trace_Format\<close>, \<open>Trace_Runner\<close>, \<open>Trace_Safety\<close> (\<open>rocq-e2e\<close>): the trace language with its reader, writer and
    comparison of answers; the replay of a trace, its reference automaton and its log of processes and sessions.

  \<^bold>\<open>What is shown.\<close> For the engine: publication refines an abstract transaction that never overwrites
  bytes it does not own and answers success only after a build, a refresh and an audit over unchanged
  bytes (C1, C2, C3); a passing audit leaves only declared axioms (C4); an edit under an open proof
  is refused before any effect (C15); every opened, replayed or stepped proof shows its own declaration
  with no goal given up (C16); identities and layouts are well typed (C17, C18). For the actor: an
  error that invalidates the process leaves none, live operations never switch it, PET lives exactly as long
  as its owner and the server, answers are read and checked exactly (C12, C13, C14, C19, C20, C26, C29). For the
  server: an invariant of books, runtimes and attachments in every reachable state (C5); \<open>check\<close> commits at most
  one fragment and writes only after a finished one (C6); replay restores exactly the lost handles of a path
  (C7); a changed artifact leaves no process and no handle (C8); no request disturbs another connection's proof
  (C9) and the tools that the catalog advertises as read-only do not change their own (C10); each call settles
  its progress record and its scope (C22), only calls inside the published schema are carried out (C23), and
  it is served to its own host only (C24). The others are about the checkpoint book (C11, C27, C28), cancellation
  (C21), errors and builds (C25, C30), the lexers and decoders (C31 to C33) and the wire format (C34, C35). For
  the trace runner: its verdict agrees with an automaton in both directions and its answers are the expected ones
  (C36), it leaves no process and no session (C37), it returns (C38), its comparison is exact (C39), and
  written traces are read back (C40). Further theorems, without a number, are about rendering, build epochs, the
  refresh of PET, public messages, progress records and the reading of numbers and traces.

  The contracts are locales over a preorder of states, \<open>step_relation\<close> and its extensions \<open>observing\<close>,
  \<open>reading\<close>, \<open>settling\<close>, \<open>proving\<close>, \<open>requesting\<close>, \<open>serving\<close> and \<open>connecting\<close>: the tools are walked through
  once, and each interpretation (proofs kept, siblings kept, invariant kept, progress kept, book and
  snapshots kept) gives a property. Other locales state the interfaces of the lower layers; each is
  interpreted on the model's own definitions.

  \<^bold>\<open>Bounds and fuel.\<close> The layout probe descends at most 2048 directory levels: no path of a system whose
  \<open>PATH_MAX\<close> is 4096 has more components. Polls, reads and waits of a child are finite scripts held in
  the process value; a script that ends is a child that says no more. All other loops are shown to end.
  Replay is over the path of a checkpoint, which is finite in a well-formed book (C28). The wait for the listener in
  the trace runner depends on the clock: it is a partial function, and returns when the clock passes its
  deadline (C38). The lifeline of PET ends within fourteen steps of caller, thread, child and server (C29).

  \<^bold>\<open>Assumptions.\<close> Paths are UTF-8. The target has 64-bit addresses. Parameters, since their code is
  elsewhere: \<open>serde_json\<close>'s parser and printer, SHA-256, the \<open>url\<close> crate, Unicode's alphanumeric table, lossy
  decoding, Dune, PET, the clock and the file system. Progress callbacks are observations: those of a
  publication are applied to the record when the engine call returns, and the ticks inside the symbol
  scans are left out. A request holds the operation lock of its project, and the selection locks it
  needs, so it is one step of the server, seen from its connection; other connections appear in it as
  siblings. Locks that a panic poisoned are entered as the sources do.

  \<^bold>\<open>Not modelled.\<close> The fixed answers of the \<open>rmcp\<close> handshake, the tokio tasks and the HTTP transport, whose
  decisions are inputs of \<open>call_tool\<close> here and whose sessions are a world in the trace runner; panics of a
  worker; the join of the standard error's reader when a PET process is dropped; the tests, to which most of
  \<open>rocq-mcp/src/lib.rs\<close> belongs. Several requests of different projects may run at the same time; their states
  are disjoint but for the file system, so a request is one step and their interleaving inside it is not modelled.
\<close>

end
